(* ===== verification/Prelude.thy ===== *)
theory Prelude
  imports Main "HOL-Library.Word" "HOL-Library.Signed_Division"
begin

text \<open>
  The vocabulary shared by the models of all contracts: machine integers and Rust's checked
  arithmetic, the result of an invocation (a value, a typed contract error or a host trap),
  the two rewrite collections that carry the component proofs, and generic lemmas on sums over
  finite types.

  Integers. \<^verbatim>\<open>u32\<close> and \<^verbatim>\<open>u64\<close> are words of that width. \<^verbatim>\<open>i128\<close> is \<^typ>\<open>int\<close>: the contracts
  perform every \<^verbatim>\<open>i128\<close> operation checked, so each operation here tests the range of its exact
  result and is \<^term>\<open>None\<close> outside it. The theory I128 justifies this reading against 128-bit
  two's complement words.
\<close>

named_theorems ok_simps \<open>what it means that an invocation or one of its steps succeeds\<close>
named_theorems store_simps \<open>reading a store entry after a write\<close>

section \<open>Machine integers and checked arithmetic\<close>

type_synonym u32 = "32 word"
type_synonym u64 = "64 word"
type_synonym i128 = int

definition in_i128 :: "int \<Rightarrow> bool" where
  "in_i128 x \<longleftrightarrow> - (2 ^ 127) \<le> x \<and> x < 2 ^ 127"

definition checked :: "int \<Rightarrow> i128 option" where
  "checked x = (if in_i128 x then Some x else None)"

definition checked_add :: "i128 \<Rightarrow> i128 \<Rightarrow> i128 option" where
  "checked_add a b = checked (a + b)"

definition checked_sub :: "i128 \<Rightarrow> i128 \<Rightarrow> i128 option" where
  "checked_sub a b = checked (a - b)"

definition checked_mul :: "i128 \<Rightarrow> i128 \<Rightarrow> i128 option" where
  "checked_mul a b = checked (a * b)"

definition checked_neg :: "i128 \<Rightarrow> i128 option" where
  "checked_neg a = checked (- a)"

text \<open>Rust's integer division truncates towards zero, as \<open>sdiv\<close> does.\<close>

definition checked_div :: "i128 \<Rightarrow> i128 \<Rightarrow> i128 option" where
  "checked_div a b = (if b = 0 then None else checked (a sdiv b))"

definition checked_uadd :: "'n::len word \<Rightarrow> 'n word \<Rightarrow> 'n word option" where
  "checked_uadd a b = (if uint a + uint b < 2 ^ LENGTH('n) then Some (a + b) else None)"

definition checked_usub :: "'n::len word \<Rightarrow> 'n word \<Rightarrow> 'n word option" where
  "checked_usub a b = (if b \<le> a then Some (a - b) else None)"

definition checked_umul :: "'n::len word \<Rightarrow> 'n word \<Rightarrow> 'n word option" where
  "checked_umul a b = (if uint a * uint b < 2 ^ LENGTH('n) then Some (a * b) else None)"

definition saturating_usub :: "'n::len word \<Rightarrow> 'n word \<Rightarrow> 'n word" where
  "saturating_usub a b = (if b \<le> a then a - b else 0)"

text \<open>The cast \<^verbatim>\<open>x as u32\<close> keeps the low 32 bits.\<close>

definition as_u32 :: "i128 \<Rightarrow> u32" where
  "as_u32 x = word_of_int x"

lemma checked_Some [ok_simps]: "checked x = Some y \<longleftrightarrow> in_i128 x \<and> y = x"
  by (auto simp: checked_def)

lemma checked_add_Some [ok_simps]: "checked_add a b = Some c \<longleftrightarrow> in_i128 (a + b) \<and> c = a + b"
  by (simp add: checked_add_def checked_Some)

lemma checked_sub_Some [ok_simps]: "checked_sub a b = Some c \<longleftrightarrow> in_i128 (a - b) \<and> c = a - b"
  by (simp add: checked_sub_def checked_Some)

lemma checked_mul_Some [ok_simps]: "checked_mul a b = Some c \<longleftrightarrow> in_i128 (a * b) \<and> c = a * b"
  by (simp add: checked_mul_def checked_Some)

lemma checked_neg_Some [ok_simps]: "checked_neg a = Some c \<longleftrightarrow> in_i128 (- a) \<and> c = - a"
  by (simp add: checked_neg_def checked_Some)

lemma checked_div_Some [ok_simps]:
  "checked_div a b = Some c \<longleftrightarrow> b \<noteq> 0 \<and> in_i128 (a sdiv b) \<and> c = a sdiv b"
  by (simp add: checked_div_def checked_Some)

text \<open>Checked operations on literals, for evaluation.\<close>

lemmas checked_arith = checked_add_def checked_sub_def checked_mul_def checked_div_def
  checked_neg_def checked_def in_i128_def

lemma sdiv_nonneg [simp]: "0 \<le> a \<Longrightarrow> 0 < b \<Longrightarrow> a sdiv b = a div (b::int)"
  by (cases "a = 0") (simp_all add: signed_divide_int_def)

lemma in_i128_0 [simp]: "in_i128 0"
  by (simp add: in_i128_def)

lemma in_i128_between: "in_i128 b \<Longrightarrow> 0 \<le> a \<Longrightarrow> a \<le> b \<Longrightarrow> in_i128 a"
  by (simp add: in_i128_def)

lemma in_i128_small: "0 \<le> x \<Longrightarrow> x \<le> 10 ^ 30 \<Longrightarrow> in_i128 x"
  by (simp add: in_i128_def)

lemma checked_uadd_Some [ok_simps]:
  "checked_uadd a b = Some c \<longleftrightarrow> uint a + uint b < 2 ^ LENGTH('n) \<and> c = a + b"
  for a b :: "'n::len word"
  by (auto simp: checked_uadd_def)

lemma checked_umul_Some [ok_simps]:
  "checked_umul a b = Some c \<longleftrightarrow> uint a * uint b < 2 ^ LENGTH('n) \<and> c = a * b"
  for a b :: "'n::len word"
  by (auto simp: checked_umul_def)

lemma uint_checked_uadd:
  "checked_uadd a b = Some c \<Longrightarrow> uint c = uint a + uint b" for a b :: "'n::len word"
  by (auto simp: checked_uadd_def uint_add_lem split: if_splits)

lemma checked_uadd_1_gt: "checked_uadd a 1 = Some c \<Longrightarrow> a < c" for a :: "'n::len word"
  by (frule uint_checked_uadd) (simp add: word_less_def)

text \<open>A counter below a bound of its own width does not wrap when it is increased.\<close>

lemma unat_add_1: "a < b \<Longrightarrow> unat (a + 1) = unat a + 1" for a b :: "'n::len word"
proof -
  assume "a < b"
  then have "unat a + 1 \<le> unat b" by (simp add: word_less_nat_alt)
  then have "unat a + 1 < 2 ^ LENGTH('n)" using unsigned_less [of b, where ?'a = nat] by linarith
  then show ?thesis by (simp add: unat_word_ariths)
qed

lemma checked_uadd_1_room: "a < b \<Longrightarrow> checked_uadd a 1 = Some (a + 1)" for a b :: "'n::len word"
proof -
  assume "a < b"
  then have "uint a + 1 < 2 ^ LENGTH('n)"
    using uint_lt2p [of b] unfolding word_less_def by linarith
  then show ?thesis by (simp add: checked_uadd_def)
qed

lemma checked_usub_Some [ok_simps]:
  "checked_usub a b = Some c \<longleftrightarrow> b \<le> a \<and> c = a - b"
  by (auto simp: checked_usub_def)

lemma uint_as_u32 [simp]: "0 \<le> x \<Longrightarrow> x < 2 ^ 32 \<Longrightarrow> uint (as_u32 x) = x"
  by (simp add: as_u32_def uint_word_of_int)

section \<open>The result of an invocation\<close>

text \<open>
  An entry point returns a value, returns one of its contract's typed errors, or traps in the
  host (a missing authorization, a failed sub-call or token transfer, a forged signature, an
  arithmetic panic of the \<^verbatim>\<open>overflow-checks = true\<close> release profile). The host rolls every write
  of a failed invocation back, so an \<^term>\<open>Inl\<close> carries no store.
\<close>

datatype 'e Fault = Err 'e | Trap

type_synonym ('e, 'a) result = "'e Fault + 'a"

text \<open>Rust's \<^verbatim>\<open>?\<close>: continue with the value, or return the fault.\<close>

definition bind_ok :: "('e, 'a) result \<Rightarrow> ('a \<Rightarrow> ('e, 'b) result) \<Rightarrow> ('e, 'b) result" where
  "bind_ok r k = (case r of Inl f \<Rightarrow> Inl f | Inr x \<Rightarrow> k x)"

definition ok_or :: "'a option \<Rightarrow> 'e \<Rightarrow> ('e, 'a) result" where
  "ok_or x e = (case x of None \<Rightarrow> Inl (Err e) | Some v \<Rightarrow> Inr v)"

definition or_trap :: "'a option \<Rightarrow> ('e, 'a) result" where
  "or_trap x = (case x of None \<Rightarrow> Inl Trap | Some v \<Rightarrow> Inr v)"

text \<open>The non-\<^verbatim>\<open>try_\<close> contract clients trap when the callee fails, whatever its error.\<close>

definition sub_call :: "('f, 'a) result \<Rightarrow> ('e, 'a) result" where
  "sub_call r = (case r of Inl _ \<Rightarrow> Inl Trap | Inr x \<Rightarrow> Inr x)"

definition unwrap_or :: "'a option \<Rightarrow> 'a \<Rightarrow> 'a" where
  "unwrap_or x d = (case x of None \<Rightarrow> d | Some v \<Rightarrow> v)"

lemma bind_ok_simps [simp]: "bind_ok (Inl f) k = Inl f" "bind_ok (Inr x) k = k x"
  by (simp_all add: bind_ok_def)

lemma bind_ok_Inr [ok_simps]: "bind_ok r k = Inr y \<longleftrightarrow> (\<exists>x. r = Inr x \<and> k x = Inr y)"
  by (cases r) simp_all

lemma bind_ok_Inl: "bind_ok r k = Inl f \<longleftrightarrow> r = Inl f \<or> (\<exists>x. r = Inr x \<and> k x = Inl f)"
  by (cases r) simp_all

lemma ok_or_simps [simp]: "ok_or None e = Inl (Err e)" "ok_or (Some v) e = Inr v"
  by (simp_all add: ok_or_def)

lemma ok_or_Inr [ok_simps]: "ok_or x e = Inr v \<longleftrightarrow> x = Some v"
  by (cases x) simp_all

lemma or_trap_simps [simp]: "or_trap None = Inl Trap" "or_trap (Some v) = Inr v"
  by (simp_all add: or_trap_def)

lemma or_trap_Inr [ok_simps]: "or_trap x = Inr v \<longleftrightarrow> x = Some v"
  by (cases x) simp_all

lemma sub_call_simps [simp]: "sub_call (Inl f) = Inl Trap" "sub_call (Inr v) = Inr v"
  by (simp_all add: sub_call_def)

lemma sub_call_Inr [ok_simps]: "sub_call r = Inr v \<longleftrightarrow> r = Inr v"
  by (cases r) simp_all

lemma unwrap_or_simps [simp]: "unwrap_or None d = d" "unwrap_or (Some v) d = v"
  by (simp_all add: unwrap_or_def)

lemma if_Inl_Inr [ok_simps]:
  "(if c then Inl f else r) = Inr v \<longleftrightarrow> \<not> c \<and> r = Inr v"
  "(if c then r else Inl f) = Inr v \<longleftrightarrow> c \<and> r = Inr v"
  by simp_all

section \<open>Sums over finite types\<close>

text \<open>Changing one entry of a table changes the table's total by the difference.\<close>

lemma sum_point_update:
  fixes f :: "'k::finite \<Rightarrow> int"
  shows "(\<Sum>k\<in>UNIV. if k = a then v else f k) = (\<Sum>k\<in>UNIV. f k) - f a + v"
proof -
  have "(\<Sum>k\<in>UNIV. if k = a then v else f k)
      = (if a = a then v else f a) + (\<Sum>k\<in>UNIV - {a}. if k = a then v else f k)"
    by (rule sum.remove) simp_all
  also have "(\<Sum>k\<in>UNIV - {a}. if k = a then v else f k) = (\<Sum>k\<in>UNIV - {a}. f k)"
    by (rule sum.cong) auto
  also have "(\<Sum>k\<in>UNIV - {a}. f k) = (\<Sum>k\<in>UNIV. f k) - f a"
    by (simp add: sum_diff1)
  finally show ?thesis by simp
qed

lemma sum_point_eq:
  fixes f g :: "'k::finite \<Rightarrow> int"
  assumes "\<And>k. k \<noteq> a \<Longrightarrow> g k = f k"
  shows "(\<Sum>k\<in>UNIV. g k) = (\<Sum>k\<in>UNIV. f k) - f a + g a"
proof -
  have "(\<Sum>k\<in>UNIV. g k) = (\<Sum>k\<in>UNIV. if k = a then g a else f k)"
    using assms by (intro sum.cong) auto
  then show ?thesis by (simp add: sum_point_update)
qed

lemma sum_ge_single:
  fixes f :: "'k::finite \<Rightarrow> int"
  assumes "\<And>k. 0 \<le> f k"
  shows "f a \<le> (\<Sum>k\<in>UNIV. f k)"
  using assms by (intro member_le_sum) auto

section \<open>Runs of a contract\<close>

text \<open>
  Every contract is a state machine whose steps are the successful invocations of its entry
  points. What holds after construction and is kept by every step holds in every reachable state.
\<close>

locale state_machine =
  fixes init :: "'s \<Rightarrow> bool"
    and step :: "'s \<Rightarrow> 's \<Rightarrow> bool"
    and inv :: "'s \<Rightarrow> bool"
  assumes init_inv: "init s \<Longrightarrow> inv s"
    and step_inv: "step s s' \<Longrightarrow> inv s \<Longrightarrow> inv s'"
begin

lemma run_inv: "step\<^sup>*\<^sup>* s s' \<Longrightarrow> inv s \<Longrightarrow> inv s'"
  by (induction rule: rtranclp_induct) (auto intro: step_inv)

lemma reachable_inv: "init s \<Longrightarrow> step\<^sup>*\<^sup>* s s' \<Longrightarrow> inv s'"
  by (blast intro: run_inv init_inv)

text \<open>A relation between states that is reflexive, transitive and kept by every step from an
  invariant state relates the ends of every run.\<close>

lemma run_relates:
  assumes refl: "\<And>x. R x x" and trans: "\<And>x y z. R x y \<Longrightarrow> R y z \<Longrightarrow> R x z"
    and step: "\<And>x y. step x y \<Longrightarrow> inv x \<Longrightarrow> R x y"
    and run: "step\<^sup>*\<^sup>* s s'" and inv: "inv s"
  shows "R s s'"
  using run inv
proof (induction rule: rtranclp_induct)
  case base
  show ?case by (rule refl)
next
  case (step y z)
  then show ?case by (blast intro: trans assms(3) run_inv)
qed

end

end
