(* ===== verification/I128.thy ===== *)
theory I128
  imports Prelude
begin

text \<open>
  The reading of \<^verbatim>\<open>i128\<close> as bounded integers, checked against the machine: the two's complement
  operations on 128-bit words, with overflow detected the way the hardware flags it (the wrapped
  result differs from the exact one), compute what the checked operations of the Prelude compute
  on the values \<open>sint\<close> reads. So a value of type \<^typ>\<open>i128\<close> in the models stands for the word
  with that signed value, and no wrap-around is lost by the choice.
\<close>

type_synonym i128_word = "128 word"

definition word_checked_add :: "i128_word \<Rightarrow> i128_word \<Rightarrow> i128_word option" where
  "word_checked_add a b = (if sint (a + b) = sint a + sint b then Some (a + b) else None)"

definition word_checked_sub :: "i128_word \<Rightarrow> i128_word \<Rightarrow> i128_word option" where
  "word_checked_sub a b = (if sint (a - b) = sint a - sint b then Some (a - b) else None)"

definition word_checked_mul :: "i128_word \<Rightarrow> i128_word \<Rightarrow> i128_word option" where
  "word_checked_mul a b = (if sint (a * b) = sint a * sint b then Some (a * b) else None)"

definition word_checked_neg :: "i128_word \<Rightarrow> i128_word option" where
  "word_checked_neg a = (if sint (- a) = - sint a then Some (- a) else None)"

text \<open>The only quotient that overflows is that of the least value by minus one.\<close>

definition word_checked_div :: "i128_word \<Rightarrow> i128_word \<Rightarrow> i128_word option" where
  "word_checked_div a b =
     (if b = 0 \<or> (sint a = - (2 ^ 127) \<and> sint b = - 1) then None
      else Some (word_of_int (sint a sdiv sint b)))"

lemma in_i128_sint [simp]: "in_i128 (sint (w :: i128_word))"
  using sint_greater_eq [of w] sint_less [of w] by (simp add: in_i128_def)

lemma sint_word_of_int_i128: "sint (word_of_int x :: i128_word) = x \<longleftrightarrow> in_i128 x"
proof -
  have "sint (word_of_int x :: i128_word) = signed_take_bit 127 x"
    by transfer simp
  then show ?thesis by (simp add: signed_take_bit_int_eq_self_iff in_i128_def)
qed

lemma checked_via_word:
  fixes w :: i128_word
  assumes "w = word_of_int x"
  shows "map_option sint (if sint w = x then Some w else None) = checked x"
  using assms sint_word_of_int_i128 [of x] by (simp add: checked_def)

lemma word_checked_add: "map_option sint (word_checked_add a b) = checked_add (sint a) (sint b)"
  unfolding word_checked_add_def checked_add_def by (rule checked_via_word) simp

lemma word_checked_sub: "map_option sint (word_checked_sub a b) = checked_sub (sint a) (sint b)"
  unfolding word_checked_sub_def checked_sub_def by (rule checked_via_word) simp

lemma word_checked_mul: "map_option sint (word_checked_mul a b) = checked_mul (sint a) (sint b)"
  unfolding word_checked_mul_def checked_mul_def by (rule checked_via_word) simp

lemma word_checked_neg: "map_option sint (word_checked_neg a) = checked_neg (sint a)"
  unfolding word_checked_neg_def checked_neg_def by (rule checked_via_word) simp

lemma abs_sdiv_le: "\<bar>a sdiv b\<bar> \<le> \<bar>a\<bar>" for a b :: int
proof (cases "b = 0")
  case False
  have "\<bar>a\<bar> div \<bar>b\<bar> \<le> \<bar>a\<bar> div 1" using False by (intro zdiv_mono2) simp_all
  then show ?thesis by (auto simp: signed_divide_int_def abs_mult abs_sgn_eq pos_imp_zdiv_nonneg_iff)
qed (simp add: signed_divide_int_def)

lemma sdiv_in_i128:
  assumes "in_i128 a" and "\<not> (a = - (2 ^ 127) \<and> b = - 1)" and "b \<noteq> 0"
  shows "in_i128 (a sdiv b)"
proof (cases "a = - (2 ^ 127)")
  case False
  then have "\<bar>a\<bar> < 2 ^ 127" using assms(1) by (auto simp: in_i128_def)
  then show ?thesis using abs_sdiv_le [of a b] by (auto simp: in_i128_def abs_if split: if_splits)
next
  case True
  with assms have b: "b = 1 \<or> 2 \<le> \<bar>b\<bar>" by auto
  show ?thesis
  proof (cases "b = 1")
    case False
    then have "\<bar>a\<bar> div \<bar>b\<bar> \<le> \<bar>a\<bar> div 2" using b by (intro zdiv_mono2) simp_all
    then have "\<bar>a sdiv b\<bar> \<le> 2 ^ 126"
      using True assms(3)
      by (simp add: signed_divide_int_def abs_mult abs_sgn_eq pos_imp_zdiv_nonneg_iff)
    then show ?thesis by (auto simp: in_i128_def abs_if split: if_splits)
  qed (simp add: True in_i128_def signed_divide_int_def)
qed

lemma word_checked_div: "map_option sint (word_checked_div a b) = checked_div (sint a) (sint b)"
proof (cases "b = 0 \<or> (sint a = - (2 ^ 127) \<and> sint b = - 1)")
  case True
  then show ?thesis
    by (auto simp: word_checked_div_def checked_div_def checked_def in_i128_def signed_divide_int_def)
next
  case False
  then have b: "sint b \<noteq> 0" by (metis signed_0 signed_word_eqI)
  then have "in_i128 (sint a sdiv sint b)" using False by (intro sdiv_in_i128) simp_all
  with False b show ?thesis
    by (auto simp: word_checked_div_def checked_div_def checked_def sint_word_of_int_i128 [THEN iffD2])
qed

end
