(* ===== verification/Host.thy ===== *)
theory Host
  imports Prelude
begin

text \<open>
  What the contracts see of the Soroban host: addresses, the ledger time, who has authorized the
  running invocation, and the token contract they move value with.

  Authorization. \<^verbatim>\<open>a.require_auth()\<close> succeeds when \<open>a\<close> is the contract that makes the call, or
  when \<open>a\<close>'s signed authorization tree covers the call of the running contract; otherwise it traps.
  Which trees the transaction carries is the field \<open>signed\<close> of the environment: \<open>signed env c a\<close>
  says that \<open>a\<close> has authorized the call of contract \<open>c\<close>.

  The token is a Stellar Asset Contract, which is not part of the repository: its transfer
  function is a parameter of the operations that move value, and \<open>sac_transfer\<close> names the
  documented behaviour some theorems rely on.
\<close>

section \<open>Addresses and the environment of an invocation\<close>

type_synonym Symbol = string
type_synonym Bytes32 = "256 word"
type_synonym Bytes64 = "512 word"

datatype Address = AccountId Bytes32 | ContractId Bytes32

lemma UNIV_Address: "(UNIV :: Address set) = range AccountId \<union> range ContractId"
proof
  show "(UNIV :: Address set) \<subseteq> range AccountId \<union> range ContractId"
  proof
    fix a :: Address
    show "a \<in> range AccountId \<union> range ContractId" by (cases a) auto
  qed
qed simp

instance Address :: finite
proof
  show "finite (UNIV :: Address set)" by (simp add: UNIV_Address)
qed

record Env =
  timestamp :: u64
  current_contract :: Address
  invoker :: "Address option"
  signed :: "Address \<Rightarrow> Address \<Rightarrow> bool"

definition require_auth :: "Env \<Rightarrow> Address \<Rightarrow> bool" where
  "require_auth env a \<longleftrightarrow> invoker env = Some a \<or> signed env (current_contract env) a"

text \<open>
  The guard every contract is built with: read an address of the instance store, fail with the
  given error when it was never set, and require its authorization. The value is the address.
\<close>

definition require_stored ::
    "Env \<Rightarrow> Address option \<Rightarrow> 'e \<Rightarrow> ('e, Address) result" where
  "require_stored env stored e =
     bind_ok (ok_or stored e) (\<lambda>a. if require_auth env a then Inr a else Inl Trap)"

lemma require_stored_Inr [ok_simps]:
  "require_stored env stored e = Inr a \<longleftrightarrow> stored = Some a \<and> require_auth env a"
  by (auto simp: require_stored_def ok_simps)

text \<open>The environment a callee runs in: the caller is its invoker.\<close>

definition call_env :: "Env \<Rightarrow> Address \<Rightarrow> Env" where
  "call_env env callee = env\<lparr>current_contract := callee, invoker := Some (current_contract env)\<rparr>"

lemma call_env_simps [simp]:
  "timestamp (call_env env c) = timestamp env"
  "current_contract (call_env env c) = c"
  "invoker (call_env env c) = Some (current_contract env)"
  "signed (call_env env c) = signed env"
  by (simp_all add: call_env_def)

text \<open>
  The host refuses re-entrant calls, and a contract signs nothing, so no invocation of a contract
  carries that contract's own authorization.
\<close>

definition no_self_auth :: "Env \<Rightarrow> bool" where
  "no_self_auth env \<longleftrightarrow> \<not> require_auth env (current_contract env)"

text \<open>An environment the host offers to the contract deployed at \<open>me\<close>.\<close>

definition host_env :: "Address \<Rightarrow> Env \<Rightarrow> bool" where
  "host_env me env \<longleftrightarrow> current_contract env = me \<and> no_self_auth env"

lemma host_env_not_me: "host_env me env \<Longrightarrow> require_auth env a \<Longrightarrow> a \<noteq> me"
  by (auto simp: host_env_def no_self_auth_def)

section \<open>The token contract\<close>

text \<open>
  \<open>transfer env token from to amount ledger\<close> is the ledger after \<^verbatim>\<open>TokenClient::transfer\<close>, or
  \<^term>\<open>None\<close> when the token contract fails.
\<close>

type_synonym 't transfer_fn = "Env \<Rightarrow> Address \<Rightarrow> Address \<Rightarrow> Address \<Rightarrow> i128 \<Rightarrow> 't \<Rightarrow> 't option"
type_synonym 't balance_fn = "'t \<Rightarrow> Address \<Rightarrow> Address \<Rightarrow> i128"

text \<open>
  The documented behaviour of the asset contract: a successful transfer of a non-negative amount
  debits the sender and credits the recipient in that asset, and changes no other balance.
\<close>

definition sac_transfer :: "'t transfer_fn \<Rightarrow> 't balance_fn \<Rightarrow> bool" where
  "sac_transfer tk bal \<longleftrightarrow>
     (\<forall>env tok src dst amt t t'. tk env tok src dst amt t = Some t' \<longrightarrow>
        0 \<le> amt \<and>
        (\<forall>tok' a. bal t' tok' a =
           bal t tok' a - (if tok' = tok \<and> a = src then amt else 0)
                        + (if tok' = tok \<and> a = dst then amt else 0)))"

lemma sac_transferD:
  assumes "sac_transfer tk bal" and "tk env tok src dst amt t = Some t'"
  shows "bal t' tok' a = bal t tok' a - (if tok' = tok \<and> a = src then amt else 0)
                                      + (if tok' = tok \<and> a = dst then amt else 0)"
  using assms unfolding sac_transfer_def by blast

text \<open>
  A concrete ledger that behaves as documented, on which the theorems about value are witnessed:
  a table of balances, a transfer that needs the sender's authorization and its balance.
\<close>

type_synonym book = "Address \<Rightarrow> Address \<Rightarrow> i128"

definition book_transfer :: "book transfer_fn" where
  "book_transfer env tok src dst amt t =
     (if amt < 0 \<or> t tok src < amt \<or> \<not> require_auth env src
      then None
      else Some (\<lambda>tok' a. t tok' a - (if tok' = tok \<and> a = src then amt else 0)
                                   + (if tok' = tok \<and> a = dst then amt else 0)))"

definition book_balance :: "book balance_fn" where
  "book_balance t tok a = t tok a"

lemma sac_transfer_book: "sac_transfer book_transfer book_balance"
  by (auto simp: sac_transfer_def book_transfer_def book_balance_def split: if_splits)

end
