(* ===== verification/Common.thy ===== *)
theory Common
  imports Prelude
begin

text \<open>
  The \<^verbatim>\<open>common\<close> crate (\<^verbatim>\<open>src/contracts/common/src/lib.rs\<close>): the shared error codes, basis point
  arithmetic, and the bounds of the storage lifetime helpers.
\<close>

section \<open>Shared constants\<close>

definition UNAUTHORIZED :: u32 where "UNAUTHORIZED = 900"
definition TIMELOCK_PENDING :: u32 where "TIMELOCK_PENDING = 901"
definition NOT_INITIALIZED :: u32 where "NOT_INITIALIZED = 902"
definition OVERFLOW :: u32 where "OVERFLOW = 903"

type_synonym Bps = u32

definition BPS_DENOMINATOR :: i128 where
  "BPS_DENOMINATOR = 10000"

section \<open>Basis point arithmetic\<close>

definition apply_bps :: "i128 \<Rightarrow> Bps \<Rightarrow> i128 option" where
  "apply_bps amount bps =
     Option.bind (checked_mul amount (uint bps)) (\<lambda>scaled. checked_div scaled BPS_DENOMINATOR)"

lemma apply_bps_Some:
  "apply_bps amount bps = Some v \<longleftrightarrow>
     in_i128 (amount * uint bps) \<and> in_i128 v \<and> v = (amount * uint bps) sdiv 10000"
  by (auto simp: apply_bps_def BPS_DENOMINATOR_def bind_eq_Some_conv ok_simps)

text \<open>On a non-negative amount the fraction is the floor of the exact quotient.\<close>

lemma apply_bps_floor:
  assumes "apply_bps amount bps = Some v" and "0 \<le> amount"
  shows "v = amount * uint bps div 10000" and "0 \<le> v"
  using assms by (auto simp: apply_bps_Some pos_imp_zdiv_nonneg_iff)

text \<open>A fraction of at most one hundred percent never exceeds the amount.\<close>

lemma mul_div_10000_le:
  fixes a b :: int
  assumes "0 \<le> a" and "b \<le> 10000"
  shows "a * b div 10000 \<le> a"
proof -
  have "a * b \<le> a * 10000" using assms by (simp add: mult_left_mono)
  then have "a * b div 10000 \<le> a * 10000 div 10000" by (rule zdiv_mono1) simp
  then show ?thesis by simp
qed

lemma apply_bps_le:
  assumes "apply_bps amount bps = Some v" and "0 \<le> amount" and "bps \<le> 10000"
  shows "v \<le> amount"
proof -
  from assms(3) have "uint bps \<le> 10000" by (simp add: word_le_def)
  then show ?thesis
    using apply_bps_floor(1) [OF assms(1,2)] assms(2) by (simp add: mul_div_10000_le)
qed

lemma div_10000_le_self: "0 \<le> p \<Longrightarrow> p div 10000 \<le> p" for p :: int
  using zdiv_mono2 [of p 1 10000] by simp

text \<open>The fraction is computed whenever the exact product fits.\<close>

lemma apply_bps_total:
  assumes "0 \<le> amount" and "in_i128 (amount * uint bps)"
  shows "apply_bps amount bps = Some (amount * uint bps div 10000)"
proof -
  let ?p = "amount * uint bps"
  have "0 \<le> ?p" using assms by simp
  then have "?p div 10000 \<le> ?p" by (rule div_10000_le_self)
  then have "in_i128 (?p div 10000)"
    using assms(2) \<open>0 \<le> ?p\<close> by (intro in_i128_between [OF assms(2)]) simp_all
  with assms(2) \<open>0 \<le> ?p\<close> show ?thesis by (simp add: apply_bps_Some)
qed

section \<open>Storage lifetime\<close>

definition DAY_IN_LEDGERS :: u32 where "DAY_IN_LEDGERS = 17280"
definition INSTANCE_BUMP_AMOUNT :: u32 where
  "INSTANCE_BUMP_AMOUNT = 30 * DAY_IN_LEDGERS"
definition INSTANCE_LIFETIME_THRESHOLD :: u32 where
  "INSTANCE_LIFETIME_THRESHOLD = INSTANCE_BUMP_AMOUNT - DAY_IN_LEDGERS"
definition PERSISTENT_BUMP_AMOUNT :: u32 where
  "PERSISTENT_BUMP_AMOUNT = 90 * DAY_IN_LEDGERS"
definition PERSISTENT_LIFETIME_THRESHOLD :: u32 where
  "PERSISTENT_LIFETIME_THRESHOLD = PERSISTENT_BUMP_AMOUNT - DAY_IN_LEDGERS"

end
