(* ===== verification/RiskPool.thy ===== *)
theory RiskPool
  imports Host Common
begin

text \<open>
  The \<^verbatim>\<open>risk-pool\<close> contract (\<^verbatim>\<open>src/contracts/risk-pool/src/lib.rs\<close>): its data, its store and all of
  its entry points. The key-value store is a record with one field per \<^verbatim>\<open>DataKey\<close> variant; a
  keyed variant is a map. An entry point that moves tokens also takes and returns the ledger of
  the token contract, and takes that contract's transfer function \<open>tk\<close> as a parameter. The
  lifetime extension of entries has no effect on their values and is left out.
\<close>

section \<open>Data\<close>

definition COVERAGE_UNIT :: i128 where
  "COVERAGE_UNIT = 10000000"

datatype Tier = Junior | Senior

record PremiumParams =
  base_bps :: u32
  coverage_slope_bps :: u32

record TrancheConfig =
  junior_cap :: i128
  senior_cap :: i128

record FeeConfig =
  protocol_bps :: u32
  publisher_bps :: u32
  protocol_cap :: i128
  publisher_cap :: i128

record PoolConfig =
  cfg_token :: Address
  cfg_regions :: "Symbol list"
  cfg_season_length :: u64
  cfg_premium :: PremiumParams
  cfg_tranche :: TrancheConfig
  cfg_fee :: FeeConfig
  cfg_transferable :: bool

record TrancheState =
  deposited :: i128
  receipt_supply :: i128

datatype SeasonState = Open | Active | Closed | Settled

record Season =
  season_state :: SeasonState
  opened_at :: u64
  closes_at :: u64
  premiums_in :: i128
  payouts_committed :: i128
  payouts_paid :: i128

record SolvencyState =
  reserves :: i128
  committed :: i128

record TreasuryState =
  protocol_fees :: i128
  publisher_fees :: i128

datatype RiskPoolError =
    PoolNotFound | InsufficientReserves | SolvencyViolated | SeasonNotOpen
  | TrancheWithdrawBlocked | FeeCapExceeded | InvalidConfig | InvalidAmount
  | InsufficientReceipts | TrancheCapExceeded | InvalidSeasonState | SeasonNotFound
  | RpUnauthorized | RpTimelockPending | RpNotInitialized | RpOverflow

fun rp_error_code :: "RiskPoolError \<Rightarrow> u32" where
  "rp_error_code PoolNotFound = 100"
| "rp_error_code InsufficientReserves = 101"
| "rp_error_code SolvencyViolated = 102"
| "rp_error_code SeasonNotOpen = 103"
| "rp_error_code TrancheWithdrawBlocked = 104"
| "rp_error_code FeeCapExceeded = 105"
| "rp_error_code InvalidConfig = 106"
| "rp_error_code InvalidAmount = 107"
| "rp_error_code InsufficientReceipts = 108"
| "rp_error_code TrancheCapExceeded = 109"
| "rp_error_code InvalidSeasonState = 110"
| "rp_error_code SeasonNotFound = 111"
| "rp_error_code RpUnauthorized = 900"
| "rp_error_code RpTimelockPending = 901"
| "rp_error_code RpNotInitialized = 902"
| "rp_error_code RpOverflow = 903"

datatype RiskPoolEvent =
    PoolCreated (created_pool_id: u64)
  | Deposited u64 Tier Address i128 i128
  | Withdrawn u64 Tier Address i128 i128
  | SeasonOpened u64 u64 u64 u64
  | SeasonStateChanged u64 u64 SeasonState
  | PremiumCollected u64 u64 Address i128 i128 i128 i128
  | SeasonSettled u64 u64 i128 i128 i128
  | PremiumRefunded u64 u64 Address i128
  | PayoutReleased u64 u64 Address i128

text \<open>The store: the variants of \<^verbatim>\<open>DataKey\<close>, and the events published so far.\<close>

record RiskPoolStore =
  Admin :: "Address option"
  PolicyContract :: "Address option"
  PayoutVault :: "Address option"
  PoolCount :: "u64 option"
  SeasonCountOf :: "u64 \<rightharpoonup> u64"
  PoolConfigOf :: "u64 \<rightharpoonup> PoolConfig"
  TrancheOf :: "u64 \<times> Tier \<rightharpoonup> TrancheState"
  ReceiptOf :: "u64 \<times> Tier \<times> Address \<rightharpoonup> i128"
  SeasonOf :: "u64 \<times> u64 \<rightharpoonup> Season"
  TreasuryOf :: "u64 \<rightharpoonup> TreasuryState"
  SolvencyOf :: "u64 \<rightharpoonup> SolvencyState"
  rp_events :: "RiskPoolEvent list"

definition rp_empty :: RiskPoolStore where
  "rp_empty = \<lparr>Admin = None, PolicyContract = None, PayoutVault = None, PoolCount = None,
     SeasonCountOf = Map.empty, PoolConfigOf = Map.empty, TrancheOf = Map.empty,
     ReceiptOf = Map.empty, SeasonOf = Map.empty, TreasuryOf = Map.empty,
     SolvencyOf = Map.empty, rp_events = []\<rparr>"

definition rp_publish :: "RiskPoolEvent \<Rightarrow> RiskPoolStore \<Rightarrow> RiskPoolStore" where
  "rp_publish e s = s\<lparr>rp_events := rp_events s @ [e]\<rparr>"

section \<open>Store access\<close>

definition read_config :: "RiskPoolStore \<Rightarrow> u64 \<Rightarrow> (RiskPoolError, PoolConfig) result" where
  "read_config s pool_id = ok_or (PoolConfigOf s pool_id) PoolNotFound"

definition read_tranche :: "RiskPoolStore \<Rightarrow> u64 \<Rightarrow> Tier \<Rightarrow> TrancheState" where
  "read_tranche s pool_id tier =
     unwrap_or (TrancheOf s (pool_id, tier)) \<lparr>deposited = 0, receipt_supply = 0\<rparr>"

definition read_receipt :: "RiskPoolStore \<Rightarrow> u64 \<times> Tier \<times> Address \<Rightarrow> i128" where
  "read_receipt s key = unwrap_or (ReceiptOf s key) 0"

definition read_solvency :: "RiskPoolStore \<Rightarrow> u64 \<Rightarrow> (RiskPoolError, SolvencyState) result" where
  "read_solvency s pool_id = ok_or (SolvencyOf s pool_id) PoolNotFound"

definition read_season :: "RiskPoolStore \<Rightarrow> u64 \<Rightarrow> u64 \<Rightarrow> (RiskPoolError, Season) result" where
  "read_season s pool_id season_id = ok_or (SeasonOf s (pool_id, season_id)) SeasonNotFound"

definition read_treasury :: "RiskPoolStore \<Rightarrow> u64 \<Rightarrow> (RiskPoolError, TreasuryState) result" where
  "read_treasury s pool_id = ok_or (TreasuryOf s pool_id) PoolNotFound"

definition write_tranche :: "u64 \<Rightarrow> Tier \<Rightarrow> TrancheState \<Rightarrow> RiskPoolStore \<Rightarrow> RiskPoolStore" where
  "write_tranche pool_id tier v s = s\<lparr>TrancheOf := (TrancheOf s)((pool_id, tier) \<mapsto> v)\<rparr>"

definition write_receipt :: "u64 \<times> Tier \<times> Address \<Rightarrow> i128 \<Rightarrow> RiskPoolStore \<Rightarrow> RiskPoolStore" where
  "write_receipt key v s = s\<lparr>ReceiptOf := (ReceiptOf s)(key \<mapsto> v)\<rparr>"

definition write_solvency :: "u64 \<Rightarrow> SolvencyState \<Rightarrow> RiskPoolStore \<Rightarrow> RiskPoolStore" where
  "write_solvency pool_id v s = s\<lparr>SolvencyOf := (SolvencyOf s)(pool_id \<mapsto> v)\<rparr>"

definition write_season :: "u64 \<Rightarrow> u64 \<Rightarrow> Season \<Rightarrow> RiskPoolStore \<Rightarrow> RiskPoolStore" where
  "write_season pool_id season_id v s =
     s\<lparr>SeasonOf := (SeasonOf s)((pool_id, season_id) \<mapsto> v)\<rparr>"

definition write_treasury :: "u64 \<Rightarrow> TreasuryState \<Rightarrow> RiskPoolStore \<Rightarrow> RiskPoolStore" where
  "write_treasury pool_id v s = s\<lparr>TreasuryOf := (TreasuryOf s)(pool_id \<mapsto> v)\<rparr>"

section \<open>Authorization\<close>

text \<open>The three guards.\<close>

definition rp_require_admin :: "Env \<Rightarrow> RiskPoolStore \<Rightarrow> (RiskPoolError, Address) result" where
  "rp_require_admin env s = require_stored env (Admin s) RpNotInitialized"

definition require_policy_contract ::
    "Env \<Rightarrow> RiskPoolStore \<Rightarrow> (RiskPoolError, Address) result" where
  "require_policy_contract env s = require_stored env (PolicyContract s) RpUnauthorized"

definition require_payout_vault ::
    "Env \<Rightarrow> RiskPoolStore \<Rightarrow> (RiskPoolError, Address) result" where
  "require_payout_vault env s = require_stored env (PayoutVault s) RpUnauthorized"

section \<open>Arithmetic\<close>

definition mul_div :: "i128 \<Rightarrow> i128 \<Rightarrow> i128 \<Rightarrow> i128 option" where
  "mul_div a b denom = Option.bind (checked_mul a b) (\<lambda>p. checked_div p denom)"

definition accrue_fee :: "i128 \<Rightarrow> u32 \<Rightarrow> i128 \<Rightarrow> i128 \<Rightarrow> (RiskPoolError, i128) result" where
  "accrue_fee amount bps accrued cap =
     bind_ok (ok_or (apply_bps amount bps) RpOverflow) (\<lambda>desired.
     if cap = 0 then Inr desired
     else let room = max (unwrap_or (checked_sub cap accrued) 0) 0
          in Inr (min desired room))"

definition compute_premium :: "PremiumParams \<Rightarrow> i128 \<Rightarrow> (RiskPoolError, i128) result" where
  "compute_premium params coverage =
     (if coverage \<le> 0 then Inl (Err InvalidAmount)
      else let units = coverage sdiv COVERAGE_UNIT in
        bind_ok (ok_or (checked_mul (uint (coverage_slope_bps params)) units) RpOverflow)
          (\<lambda>slope_component.
        bind_ok (ok_or (checked_add (uint (base_bps params)) slope_component) RpOverflow)
          (\<lambda>rate_bps.
        ok_or (Option.bind (checked_mul coverage rate_bps) (\<lambda>n.
               Option.bind (checked_add n (BPS_DENOMINATOR - 1)) (\<lambda>n.
               checked_div n BPS_DENOMINATOR))) RpOverflow)))"

section \<open>Construction, configuration and reads\<close>

definition rp_constructor :: "Address \<Rightarrow> RiskPoolStore" where
  "rp_constructor admin = rp_empty\<lparr>Admin := Some admin\<rparr>"

definition rp_admin :: "RiskPoolStore \<Rightarrow> (RiskPoolError, Address) result" where
  "rp_admin s = ok_or (Admin s) RpNotInitialized"

definition set_policy_contract ::
    "Env \<Rightarrow> Address \<Rightarrow> RiskPoolStore \<Rightarrow> (RiskPoolError, RiskPoolStore) result" where
  "set_policy_contract env policy s =
     bind_ok (rp_require_admin env s) (\<lambda>_. Inr (s\<lparr>PolicyContract := Some policy\<rparr>))"

definition policy_contract :: "RiskPoolStore \<Rightarrow> (RiskPoolError, Address) result" where
  "policy_contract s = ok_or (PolicyContract s) RpNotInitialized"

definition set_payout_vault ::
    "Env \<Rightarrow> Address \<Rightarrow> RiskPoolStore \<Rightarrow> (RiskPoolError, RiskPoolStore) result" where
  "set_payout_vault env vault s =
     bind_ok (rp_require_admin env s) (\<lambda>_. Inr (s\<lparr>PayoutVault := Some vault\<rparr>))"

definition payout_vault :: "RiskPoolStore \<Rightarrow> (RiskPoolError, Address) result" where
  "payout_vault s = ok_or (PayoutVault s) RpNotInitialized"

definition pool_config :: "RiskPoolStore \<Rightarrow> u64 \<Rightarrow> (RiskPoolError, PoolConfig) result" where
  "pool_config s pool_id = read_config s pool_id"

definition tranche :: "RiskPoolStore \<Rightarrow> u64 \<Rightarrow> Tier \<Rightarrow> TrancheState" where
  "tranche s pool_id tier = read_tranche s pool_id tier"

definition receipt :: "RiskPoolStore \<Rightarrow> u64 \<Rightarrow> Tier \<Rightarrow> Address \<Rightarrow> i128" where
  "receipt s pool_id tier holder = read_receipt s (pool_id, tier, holder)"

definition solvency :: "RiskPoolStore \<Rightarrow> u64 \<Rightarrow> (RiskPoolError, SolvencyState) result" where
  "solvency s pool_id = read_solvency s pool_id"

definition season :: "RiskPoolStore \<Rightarrow> u64 \<Rightarrow> u64 \<Rightarrow> (RiskPoolError, Season) result" where
  "season s pool_id season_id = read_season s pool_id season_id"

definition treasury :: "RiskPoolStore \<Rightarrow> u64 \<Rightarrow> (RiskPoolError, TreasuryState) result" where
  "treasury s pool_id = read_treasury s pool_id"

definition premium_for :: "RiskPoolStore \<Rightarrow> u64 \<Rightarrow> i128 \<Rightarrow> (RiskPoolError, i128) result" where
  "premium_for s pool_id coverage =
     bind_ok (read_config s pool_id) (\<lambda>config. compute_premium (cfg_premium config) coverage)"

section \<open>Pool creation\<close>

text \<open>The parameter checks of \<^verbatim>\<open>create_pool\<close>, in the code's order. The sum of the two rates is a
  plain \<^verbatim>\<open>u32\<close> addition, which panics on overflow.\<close>

definition validate_config :: "PoolConfig \<Rightarrow> (RiskPoolError, unit) result" where
  "validate_config config =
     (if cfg_regions config = [] \<or> cfg_season_length config = 0 then Inl (Err InvalidConfig)
      else if base_bps (cfg_premium config) > 10000 \<or> coverage_slope_bps (cfg_premium config) > 10000
      then Inl (Err InvalidConfig)
      else if junior_cap (cfg_tranche config) < 0 \<or> senior_cap (cfg_tranche config) < 0
      then Inl (Err InvalidConfig)
      else if protocol_cap (cfg_fee config) < 0 \<or> publisher_cap (cfg_fee config) < 0
      then Inl (Err InvalidConfig)
      else if protocol_bps (cfg_fee config) > 10000 \<or> publisher_bps (cfg_fee config) > 10000
      then Inl (Err InvalidConfig)
      else bind_ok (or_trap (checked_uadd (protocol_bps (cfg_fee config))
                                          (publisher_bps (cfg_fee config)))) (\<lambda>rates.
           if rates > 10000 then Inl (Err InvalidConfig) else Inr ()))"

definition create_pool ::
    "Env \<Rightarrow> PoolConfig \<Rightarrow> RiskPoolStore \<Rightarrow> (RiskPoolError, u64 \<times> RiskPoolStore) result" where
  "create_pool env config s =
     bind_ok (rp_require_admin env s) (\<lambda>_.
     bind_ok (validate_config config) (\<lambda>_.
     bind_ok (ok_or (checked_uadd (unwrap_or (PoolCount s) 0) 1) RpOverflow) (\<lambda>id.
     let s = s\<lparr>PoolCount := Some id\<rparr>;
         s = s\<lparr>PoolConfigOf := (PoolConfigOf s)(id \<mapsto> config)\<rparr>;
         s = write_tranche id Junior \<lparr>deposited = 0, receipt_supply = 0\<rparr> s;
         s = write_tranche id Senior \<lparr>deposited = 0, receipt_supply = 0\<rparr> s;
         s = write_solvency id \<lparr>reserves = 0, committed = 0\<rparr> s;
         s = write_treasury id \<lparr>protocol_fees = 0, publisher_fees = 0\<rparr> s
     in Inr (id, rp_publish (PoolCreated id) s))))"

section \<open>Tranche capital\<close>

definition deposit ::
    "'t transfer_fn \<Rightarrow> Env \<Rightarrow> u64 \<Rightarrow> Tier \<Rightarrow> Address \<Rightarrow> i128 \<Rightarrow> RiskPoolStore \<Rightarrow> 't \<Rightarrow>
     (RiskPoolError, i128 \<times> RiskPoolStore \<times> 't) result" where
  "deposit tk env pool_id tier src amount s t =
     (if \<not> require_auth env src then Inl Trap
      else if amount \<le> 0 then Inl (Err InvalidAmount)
      else
        bind_ok (read_config s pool_id) (\<lambda>config.
        let cap = (case tier of Junior \<Rightarrow> junior_cap (cfg_tranche config)
                              | Senior \<Rightarrow> senior_cap (cfg_tranche config));
            tr = read_tranche s pool_id tier in
        bind_ok (ok_or (checked_add (deposited tr) amount) RpOverflow) (\<lambda>new_deposited.
        if cap > 0 \<and> new_deposited > cap then Inl (Err TrancheCapExceeded)
        else
          bind_ok (if receipt_supply tr = 0 then Inr amount
                   else ok_or (mul_div amount (receipt_supply tr) (deposited tr)) RpOverflow)
            (\<lambda>minted.
          if minted \<le> 0 then Inl (Err InvalidAmount)
          else
            bind_ok (or_trap (tk (call_env env (cfg_token config)) (cfg_token config)
                                 src (current_contract env) amount t)) (\<lambda>t.
            bind_ok (ok_or (checked_add (receipt_supply tr) minted) RpOverflow) (\<lambda>new_supply.
            let s = write_tranche pool_id tier
                      \<lparr>deposited = new_deposited, receipt_supply = new_supply\<rparr> s;
                receipt_key = (pool_id, tier, src) in
            bind_ok (ok_or (checked_add (read_receipt s receipt_key) minted) RpOverflow)
              (\<lambda>new_balance.
            let s = write_receipt receipt_key new_balance s in
            bind_ok (read_solvency s pool_id) (\<lambda>sol.
            bind_ok (ok_or (checked_add (reserves sol) amount) RpOverflow) (\<lambda>new_reserves.
            let s = write_solvency pool_id (sol\<lparr>reserves := new_reserves\<rparr>) s in
            Inr (minted, rp_publish (Deposited pool_id tier src amount minted) s, t))))))))))"

definition withdraw ::
    "'t transfer_fn \<Rightarrow> Env \<Rightarrow> u64 \<Rightarrow> Tier \<Rightarrow> Address \<Rightarrow> i128 \<Rightarrow> RiskPoolStore \<Rightarrow> 't \<Rightarrow>
     (RiskPoolError, i128 \<times> RiskPoolStore \<times> 't) result" where
  "withdraw tk env pool_id tier holder receipt_amount s t =
     (if \<not> require_auth env holder then Inl Trap
      else if receipt_amount \<le> 0 then Inl (Err InvalidAmount)
      else
        bind_ok (read_config s pool_id) (\<lambda>config.
        let receipt_key = (pool_id, tier, holder);
            balance = read_receipt s receipt_key in
        if receipt_amount > balance then Inl (Err InsufficientReceipts)
        else let tr = read_tranche s pool_id tier in
        if receipt_supply tr \<le> 0 then Inl (Err InsufficientReceipts)
        else
          bind_ok (ok_or (mul_div receipt_amount (deposited tr) (receipt_supply tr)) RpOverflow)
            (\<lambda>underlying.
          if underlying \<le> 0 then Inl (Err InvalidAmount)
          else
            bind_ok (read_solvency s pool_id) (\<lambda>sol.
            if tier = Senior \<and> committed sol > 0 then Inl (Err TrancheWithdrawBlocked)
            else if underlying > reserves sol then Inl (Err InsufficientReserves)
            else
              bind_ok (ok_or (checked_sub (reserves sol) underlying) RpOverflow) (\<lambda>new_reserves.
              if new_reserves < committed sol then Inl (Err SolvencyViolated)
              else
                bind_ok (ok_or (checked_sub (deposited tr) underlying) RpOverflow)
                  (\<lambda>new_deposited.
                bind_ok (ok_or (checked_sub (receipt_supply tr) receipt_amount) RpOverflow)
                  (\<lambda>new_supply.
                let s = write_tranche pool_id tier
                          \<lparr>deposited = new_deposited, receipt_supply = new_supply\<rparr> s in
                bind_ok (ok_or (checked_sub balance receipt_amount) RpOverflow) (\<lambda>new_balance.
                let s = write_receipt receipt_key new_balance s;
                    s = write_solvency pool_id (sol\<lparr>reserves := new_reserves\<rparr>) s in
                bind_ok (or_trap (tk (call_env env (cfg_token config)) (cfg_token config)
                                     (current_contract env) holder underlying t)) (\<lambda>t.
                Inr (underlying,
                     rp_publish (Withdrawn pool_id tier holder receipt_amount underlying) s,
                     t))))))))))"

section \<open>Seasons\<close>

definition open_season ::
    "Env \<Rightarrow> u64 \<Rightarrow> RiskPoolStore \<Rightarrow> (RiskPoolError, u64 \<times> RiskPoolStore) result" where
  "open_season env pool_id s =
     bind_ok (rp_require_admin env s) (\<lambda>_.
     bind_ok (read_config s pool_id) (\<lambda>config.
     bind_ok (ok_or (checked_uadd (unwrap_or (SeasonCountOf s pool_id) 0) 1) RpOverflow)
       (\<lambda>season_id.
     let s = s\<lparr>SeasonCountOf := (SeasonCountOf s)(pool_id \<mapsto> season_id)\<rparr> in
     bind_ok (ok_or (checked_uadd (timestamp env) (cfg_season_length config)) RpOverflow)
       (\<lambda>closes.
     let new = \<lparr>season_state = Open, opened_at = timestamp env, closes_at = closes,
                premiums_in = 0, payouts_committed = 0, payouts_paid = 0\<rparr>;
         s = write_season pool_id season_id new s in
     Inr (season_id,
          rp_publish (SeasonOpened pool_id season_id (timestamp env) closes) s)))))"

definition transition_season ::
    "Env \<Rightarrow> u64 \<Rightarrow> u64 \<Rightarrow> SeasonState \<Rightarrow> SeasonState \<Rightarrow> RiskPoolStore \<Rightarrow>
     (RiskPoolError, RiskPoolStore) result" where
  "transition_season env pool_id season_id from_state to_state s =
     bind_ok (rp_require_admin env s) (\<lambda>_.
     bind_ok (read_season s pool_id season_id) (\<lambda>se.
     if season_state se \<noteq> from_state then Inl (Err InvalidSeasonState)
     else let s = write_season pool_id season_id (se\<lparr>season_state := to_state\<rparr>) s in
     Inr (rp_publish (SeasonStateChanged pool_id season_id to_state) s)))"

definition activate_season ::
    "Env \<Rightarrow> u64 \<Rightarrow> u64 \<Rightarrow> RiskPoolStore \<Rightarrow> (RiskPoolError, RiskPoolStore) result" where
  "activate_season env pool_id season_id s = transition_season env pool_id season_id Open Active s"

definition close_season ::
    "Env \<Rightarrow> u64 \<Rightarrow> u64 \<Rightarrow> RiskPoolStore \<Rightarrow> (RiskPoolError, RiskPoolStore) result" where
  "close_season env pool_id season_id s = transition_season env pool_id season_id Active Closed s"

definition collect_premium ::
    "'t transfer_fn \<Rightarrow> Env \<Rightarrow> u64 \<Rightarrow> u64 \<Rightarrow> Address \<Rightarrow> i128 \<Rightarrow> RiskPoolStore \<Rightarrow> 't \<Rightarrow>
     (RiskPoolError, i128 \<times> RiskPoolStore \<times> 't) result" where
  "collect_premium tk env pool_id season_id src amount s t =
     (if \<not> require_auth env src then Inl Trap
      else if amount \<le> 0 then Inl (Err InvalidAmount)
      else
        bind_ok (read_config s pool_id) (\<lambda>config.
        bind_ok (read_season s pool_id season_id) (\<lambda>se.
        if season_state se \<noteq> Open \<and> season_state se \<noteq> Active then Inl (Err SeasonNotOpen)
        else
          bind_ok (read_treasury s pool_id) (\<lambda>tre.
          bind_ok (accrue_fee amount (protocol_bps (cfg_fee config)) (protocol_fees tre)
                     (protocol_cap (cfg_fee config))) (\<lambda>protocol_fee.
          bind_ok (accrue_fee amount (publisher_bps (cfg_fee config)) (publisher_fees tre)
                     (publisher_cap (cfg_fee config))) (\<lambda>publisher_fee.
          bind_ok (ok_or (Option.bind (checked_sub amount protocol_fee)
                            (\<lambda>v. checked_sub v publisher_fee)) RpOverflow) (\<lambda>net.
          bind_ok (or_trap (tk (call_env env (cfg_token config)) (cfg_token config)
                               src (current_contract env) amount t)) (\<lambda>t.
          bind_ok (ok_or (checked_add (protocol_fees tre) protocol_fee) RpOverflow)
            (\<lambda>new_protocol.
          bind_ok (ok_or (checked_add (publisher_fees tre) publisher_fee) RpOverflow)
            (\<lambda>new_publisher.
          let s = write_treasury pool_id
                    \<lparr>protocol_fees = new_protocol, publisher_fees = new_publisher\<rparr> s in
          bind_ok (ok_or (checked_add (premiums_in se) net) RpOverflow) (\<lambda>new_premiums.
          let s = write_season pool_id season_id (se\<lparr>premiums_in := new_premiums\<rparr>) s in
          bind_ok (read_solvency s pool_id) (\<lambda>sol.
          bind_ok (ok_or (checked_add (reserves sol) net) RpOverflow) (\<lambda>new_reserves.
          let s = write_solvency pool_id (sol\<lparr>reserves := new_reserves\<rparr>) s in
          Inr (net,
               rp_publish (PremiumCollected pool_id season_id src amount net
                             protocol_fee publisher_fee) s,
               t))))))))))))))"

definition refund_premium ::
    "'t transfer_fn \<Rightarrow> Env \<Rightarrow> u64 \<Rightarrow> u64 \<Rightarrow> Address \<Rightarrow> i128 \<Rightarrow> RiskPoolStore \<Rightarrow> 't \<Rightarrow>
     (RiskPoolError, i128 \<times> RiskPoolStore \<times> 't) result" where
  "refund_premium tk env pool_id season_id dst net s t =
     bind_ok (require_policy_contract env s) (\<lambda>_.
     if net \<le> 0 then Inl (Err InvalidAmount)
     else
       bind_ok (read_config s pool_id) (\<lambda>config.
       bind_ok (read_season s pool_id season_id) (\<lambda>se.
       if season_state se \<noteq> Open \<and> season_state se \<noteq> Active then Inl (Err SeasonNotOpen)
       else if net > premiums_in se then Inl (Err InvalidAmount)
       else
         bind_ok (read_solvency s pool_id) (\<lambda>sol.
         if net > reserves sol then Inl (Err InsufficientReserves)
         else
           bind_ok (ok_or (checked_sub (reserves sol) net) RpOverflow) (\<lambda>new_reserves.
           if new_reserves < committed sol then Inl (Err SolvencyViolated)
           else
             bind_ok (ok_or (checked_sub (premiums_in se) net) RpOverflow) (\<lambda>new_premiums.
             let s = write_season pool_id season_id (se\<lparr>premiums_in := new_premiums\<rparr>) s;
                 s = write_solvency pool_id (sol\<lparr>reserves := new_reserves\<rparr>) s in
             bind_ok (or_trap (tk (call_env env (cfg_token config)) (cfg_token config)
                                  (current_contract env) dst net t)) (\<lambda>t.
             Inr (net, rp_publish (PremiumRefunded pool_id season_id dst net) s, t))))))))"

definition pay_out ::
    "'t transfer_fn \<Rightarrow> Env \<Rightarrow> u64 \<Rightarrow> u64 \<Rightarrow> Address \<Rightarrow> i128 \<Rightarrow> RiskPoolStore \<Rightarrow> 't \<Rightarrow>
     (RiskPoolError, i128 \<times> RiskPoolStore \<times> 't) result" where
  "pay_out tk env pool_id season_id dst amount s t =
     bind_ok (require_payout_vault env s) (\<lambda>_.
     if amount \<le> 0 then Inl (Err InvalidAmount)
     else
       bind_ok (read_config s pool_id) (\<lambda>config.
       bind_ok (read_season s pool_id season_id) (\<lambda>se.
       if season_state se \<noteq> Active \<and> season_state se \<noteq> Closed
       then Inl (Err InvalidSeasonState)
       else
         bind_ok (read_solvency s pool_id) (\<lambda>sol.
         if amount > reserves sol then Inl (Err InsufficientReserves)
         else
           bind_ok (ok_or (checked_sub (reserves sol) amount) RpOverflow) (\<lambda>new_reserves.
           if new_reserves < committed sol then Inl (Err SolvencyViolated)
           else
             bind_ok (ok_or (checked_add (payouts_paid se) amount) RpOverflow) (\<lambda>new_paid.
             let s = write_season pool_id season_id (se\<lparr>payouts_paid := new_paid\<rparr>) s;
                 s = write_solvency pool_id (sol\<lparr>reserves := new_reserves\<rparr>) s in
             bind_ok (or_trap (tk (call_env env (cfg_token config)) (cfg_token config)
                                  (current_contract env) dst amount t)) (\<lambda>t.
             Inr (amount, rp_publish (PayoutReleased pool_id season_id dst amount) s, t))))))))"

section \<open>Settlement\<close>

definition credit_junior_surplus ::
    "u64 \<Rightarrow> i128 \<Rightarrow> RiskPoolStore \<Rightarrow> (RiskPoolError, RiskPoolStore) result" where
  "credit_junior_surplus pool_id surplus s =
     (let junior = read_tranche s pool_id Junior in
      bind_ok (ok_or (checked_add (deposited junior) surplus) RpOverflow) (\<lambda>new_deposited.
      Inr (write_tranche pool_id Junior (junior\<lparr>deposited := new_deposited\<rparr>) s)))"

definition absorb_loss ::
    "u64 \<Rightarrow> i128 \<Rightarrow> RiskPoolStore \<Rightarrow> (RiskPoolError, RiskPoolStore) result" where
  "absorb_loss pool_id loss s =
     (let junior = read_tranche s pool_id Junior;
          from_junior = min loss (deposited junior) in
      bind_ok (ok_or (checked_sub (deposited junior) from_junior) RpOverflow) (\<lambda>new_junior.
      let s = write_tranche pool_id Junior (junior\<lparr>deposited := new_junior\<rparr>) s in
      bind_ok (ok_or (checked_sub loss from_junior) RpOverflow) (\<lambda>remainder.
      if remainder > 0 then
        let senior = read_tranche s pool_id Senior;
            from_senior = min remainder (deposited senior) in
        bind_ok (ok_or (checked_sub (deposited senior) from_senior) RpOverflow) (\<lambda>new_senior.
        Inr (write_tranche pool_id Senior (senior\<lparr>deposited := new_senior\<rparr>) s))
      else Inr s)))"

definition settle_season ::
    "Env \<Rightarrow> u64 \<Rightarrow> u64 \<Rightarrow> RiskPoolStore \<Rightarrow> (RiskPoolError, i128 \<times> RiskPoolStore) result" where
  "settle_season env pool_id season_id s =
     bind_ok (rp_require_admin env s) (\<lambda>_.
     bind_ok (read_season s pool_id season_id) (\<lambda>se.
     if season_state se \<noteq> Closed then Inl (Err InvalidSeasonState)
     else
       bind_ok (ok_or (checked_sub (premiums_in se) (payouts_paid se)) RpOverflow) (\<lambda>net.
       bind_ok (if net > 0 then credit_junior_surplus pool_id net s
                else if net < 0 then
                  bind_ok (ok_or (checked_neg net) RpOverflow) (\<lambda>loss.
                  absorb_loss pool_id loss s)
                else Inr s) (\<lambda>s.
       let s = write_season pool_id season_id (se\<lparr>season_state := Settled\<rparr>) s in
       Inr (net, rp_publish (SeasonSettled pool_id season_id (premiums_in se)
                               (payouts_paid se) net) s)))))"

end
