(* ===== verification/RiskPool_Store.thy ===== *)
theory RiskPool_Store
  imports RiskPool
begin

text \<open>
  How the reads of the risk pool's store see its writes, what a successful invocation of each
  entry point has checked and written, and the arithmetic of receipts, fees and premiums.
\<close>

section \<open>Reading after writing\<close>

lemma write_tranche_fields [store_simps]:
  "Admin (write_tranche p tier v s) = Admin s"
  "PolicyContract (write_tranche p tier v s) = PolicyContract s"
  "PayoutVault (write_tranche p tier v s) = PayoutVault s"
  "PoolCount (write_tranche p tier v s) = PoolCount s"
  "SeasonCountOf (write_tranche p tier v s) = SeasonCountOf s"
  "PoolConfigOf (write_tranche p tier v s) = PoolConfigOf s"
  "TrancheOf (write_tranche p tier v s) = (TrancheOf s)((p, tier) \<mapsto> v)"
  "ReceiptOf (write_tranche p tier v s) = ReceiptOf s"
  "SeasonOf (write_tranche p tier v s) = SeasonOf s"
  "TreasuryOf (write_tranche p tier v s) = TreasuryOf s"
  "SolvencyOf (write_tranche p tier v s) = SolvencyOf s"
  "rp_events (write_tranche p tier v s) = rp_events s"
  by (simp_all add: write_tranche_def)

lemma write_receipt_fields [store_simps]:
  "Admin (write_receipt k v s) = Admin s"
  "PolicyContract (write_receipt k v s) = PolicyContract s"
  "PayoutVault (write_receipt k v s) = PayoutVault s"
  "PoolCount (write_receipt k v s) = PoolCount s"
  "SeasonCountOf (write_receipt k v s) = SeasonCountOf s"
  "PoolConfigOf (write_receipt k v s) = PoolConfigOf s"
  "TrancheOf (write_receipt k v s) = TrancheOf s"
  "ReceiptOf (write_receipt k v s) = (ReceiptOf s)(k \<mapsto> v)"
  "SeasonOf (write_receipt k v s) = SeasonOf s"
  "TreasuryOf (write_receipt k v s) = TreasuryOf s"
  "SolvencyOf (write_receipt k v s) = SolvencyOf s"
  "rp_events (write_receipt k v s) = rp_events s"
  by (simp_all add: write_receipt_def)

lemma write_solvency_fields [store_simps]:
  "Admin (write_solvency p v s) = Admin s"
  "PolicyContract (write_solvency p v s) = PolicyContract s"
  "PayoutVault (write_solvency p v s) = PayoutVault s"
  "PoolCount (write_solvency p v s) = PoolCount s"
  "SeasonCountOf (write_solvency p v s) = SeasonCountOf s"
  "PoolConfigOf (write_solvency p v s) = PoolConfigOf s"
  "TrancheOf (write_solvency p v s) = TrancheOf s"
  "ReceiptOf (write_solvency p v s) = ReceiptOf s"
  "SeasonOf (write_solvency p v s) = SeasonOf s"
  "TreasuryOf (write_solvency p v s) = TreasuryOf s"
  "SolvencyOf (write_solvency p v s) = (SolvencyOf s)(p \<mapsto> v)"
  "rp_events (write_solvency p v s) = rp_events s"
  by (simp_all add: write_solvency_def)

lemma write_season_fields [store_simps]:
  "Admin (write_season p sid v s) = Admin s"
  "PolicyContract (write_season p sid v s) = PolicyContract s"
  "PayoutVault (write_season p sid v s) = PayoutVault s"
  "PoolCount (write_season p sid v s) = PoolCount s"
  "SeasonCountOf (write_season p sid v s) = SeasonCountOf s"
  "PoolConfigOf (write_season p sid v s) = PoolConfigOf s"
  "TrancheOf (write_season p sid v s) = TrancheOf s"
  "ReceiptOf (write_season p sid v s) = ReceiptOf s"
  "SeasonOf (write_season p sid v s) = (SeasonOf s)((p, sid) \<mapsto> v)"
  "TreasuryOf (write_season p sid v s) = TreasuryOf s"
  "SolvencyOf (write_season p sid v s) = SolvencyOf s"
  "rp_events (write_season p sid v s) = rp_events s"
  by (simp_all add: write_season_def)

lemma write_treasury_fields [store_simps]:
  "Admin (write_treasury p v s) = Admin s"
  "PolicyContract (write_treasury p v s) = PolicyContract s"
  "PayoutVault (write_treasury p v s) = PayoutVault s"
  "PoolCount (write_treasury p v s) = PoolCount s"
  "SeasonCountOf (write_treasury p v s) = SeasonCountOf s"
  "PoolConfigOf (write_treasury p v s) = PoolConfigOf s"
  "TrancheOf (write_treasury p v s) = TrancheOf s"
  "ReceiptOf (write_treasury p v s) = ReceiptOf s"
  "SeasonOf (write_treasury p v s) = SeasonOf s"
  "TreasuryOf (write_treasury p v s) = (TreasuryOf s)(p \<mapsto> v)"
  "SolvencyOf (write_treasury p v s) = SolvencyOf s"
  "rp_events (write_treasury p v s) = rp_events s"
  by (simp_all add: write_treasury_def)

lemma rp_publish_fields [store_simps]:
  "Admin (rp_publish e s) = Admin s"
  "PolicyContract (rp_publish e s) = PolicyContract s"
  "PayoutVault (rp_publish e s) = PayoutVault s"
  "PoolCount (rp_publish e s) = PoolCount s"
  "SeasonCountOf (rp_publish e s) = SeasonCountOf s"
  "PoolConfigOf (rp_publish e s) = PoolConfigOf s"
  "TrancheOf (rp_publish e s) = TrancheOf s"
  "ReceiptOf (rp_publish e s) = ReceiptOf s"
  "SeasonOf (rp_publish e s) = SeasonOf s"
  "TreasuryOf (rp_publish e s) = TreasuryOf s"
  "SolvencyOf (rp_publish e s) = SolvencyOf s"
  "rp_events (rp_publish e s) = rp_events s @ [e]"
  by (simp_all add: rp_publish_def)

lemma read_tranche_write [store_simps]:
  "read_tranche (write_tranche p tier v s) q tier' =
     (if q = p \<and> tier' = tier then v else read_tranche s q tier')"
  "read_tranche (write_receipt k x s) q tier' = read_tranche s q tier'"
  "read_tranche (write_solvency p sol s) q tier' = read_tranche s q tier'"
  "read_tranche (write_season p sid se s) q tier' = read_tranche s q tier'"
  "read_tranche (write_treasury p tre s) q tier' = read_tranche s q tier'"
  "read_tranche (rp_publish e s) q tier' = read_tranche s q tier'"
  by (simp_all add: read_tranche_def store_simps)

lemma read_receipt_write [store_simps]:
  "read_receipt (write_receipt k x s) k' = (if k' = k then x else read_receipt s k')"
  "read_receipt (write_tranche p tier v s) k' = read_receipt s k'"
  "read_receipt (write_solvency p sol s) k' = read_receipt s k'"
  "read_receipt (write_season p sid se s) k' = read_receipt s k'"
  "read_receipt (write_treasury p tre s) k' = read_receipt s k'"
  "read_receipt (rp_publish e s) k' = read_receipt s k'"
  by (simp_all add: read_receipt_def store_simps)

lemmas rp_reads = read_config_def read_solvency_def read_season_def read_treasury_def

lemmas rp_guards [ok_simps] =
  rp_require_admin_def require_policy_contract_def require_payout_vault_def

section \<open>What success means\<close>

text \<open>One elimination rule per entry point: the guards that held, and the store written.\<close>

lemma deposit_ok:
  assumes "deposit tk env p tier src a s t = Inr (m, s', t')"
  obtains config sol tr where
    "require_auth env src" "0 < a" "PoolConfigOf s p = Some config" "SolvencyOf s p = Some sol"
    "tr = read_tranche s p tier"
    "m = (if receipt_supply tr = 0 then a else (a * receipt_supply tr) sdiv deposited tr)"
    "0 < m" "receipt_supply tr = 0 \<or> deposited tr \<noteq> 0"
    "0 < (case tier of Junior \<Rightarrow> junior_cap (cfg_tranche config)
                     | Senior \<Rightarrow> senior_cap (cfg_tranche config)) \<Longrightarrow>
       deposited tr + a \<le> (case tier of Junior \<Rightarrow> junior_cap (cfg_tranche config)
                                      | Senior \<Rightarrow> senior_cap (cfg_tranche config))"
    "in_i128 (deposited tr + a)" "in_i128 (receipt_supply tr + m)"
    "in_i128 (read_receipt s (p, tier, src) + m)" "in_i128 (reserves sol + a)"
    "tk (call_env env (cfg_token config)) (cfg_token config) src (current_contract env) a t
       = Some t'"
    "s' = rp_publish (Deposited p tier src a m)
            (write_solvency p (sol\<lparr>reserves := reserves sol + a\<rparr>)
              (write_receipt (p, tier, src) (read_receipt s (p, tier, src) + m)
                (write_tranche p tier
                  \<lparr>deposited = deposited tr + a, receipt_supply = receipt_supply tr + m\<rparr> s)))"
  using assms
  by (auto simp: deposit_def Let_def ok_simps rp_reads store_simps mul_div_def
      bind_eq_Some_conv intro!: that split: if_splits)

lemma withdraw_ok:
  assumes "withdraw tk env p tier holder r s t = Inr (u, s', t')"
  obtains config sol tr where
    "require_auth env holder" "0 < r" "PoolConfigOf s p = Some config" "SolvencyOf s p = Some sol"
    "tr = read_tranche s p tier" "r \<le> read_receipt s (p, tier, holder)" "0 < receipt_supply tr"
    "u = (r * deposited tr) sdiv receipt_supply tr" "0 < u"
    "tier = Senior \<Longrightarrow> committed sol \<le> 0" "u \<le> reserves sol" "committed sol \<le> reserves sol - u"
    "in_i128 (reserves sol - u)" "in_i128 (deposited tr - u)" "in_i128 (receipt_supply tr - r)"
    "in_i128 (read_receipt s (p, tier, holder) - r)"
    "tk (call_env env (cfg_token config)) (cfg_token config) (current_contract env) holder u t
       = Some t'"
    "s' = rp_publish (Withdrawn p tier holder r u)
            (write_solvency p (sol\<lparr>reserves := reserves sol - u\<rparr>)
              (write_receipt (p, tier, holder) (read_receipt s (p, tier, holder) - r)
                (write_tranche p tier
                  \<lparr>deposited = deposited tr - u, receipt_supply = receipt_supply tr - r\<rparr> s)))"
  using assms
  by (auto simp: withdraw_def Let_def ok_simps rp_reads store_simps mul_div_def
      bind_eq_Some_conv intro!: that split: if_splits)

lemma validate_config_ok [ok_simps]:
  "validate_config c = Inr u \<longleftrightarrow>
     cfg_regions c \<noteq> [] \<and> cfg_season_length c \<noteq> 0 \<and>
     base_bps (cfg_premium c) \<le> 10000 \<and> coverage_slope_bps (cfg_premium c) \<le> 10000 \<and>
     0 \<le> junior_cap (cfg_tranche c) \<and> 0 \<le> senior_cap (cfg_tranche c) \<and>
     0 \<le> protocol_cap (cfg_fee c) \<and> 0 \<le> publisher_cap (cfg_fee c) \<and>
     uint (protocol_bps (cfg_fee c)) + uint (publisher_bps (cfg_fee c)) \<le> 10000"
  (is "?L \<longleftrightarrow> ?R")
proof -
  let ?a = "protocol_bps (cfg_fee c)" and ?b = "publisher_bps (cfg_fee c)"
  have sum: "uint (?a + ?b) = uint ?a + uint ?b" if "uint ?a + uint ?b < 2 ^ 32"
    using that uint_add_lem [of ?a ?b] by simp
  have "uint ?a \<le> 10000 \<and> uint ?b \<le> 10000" if "uint ?a + uint ?b \<le> 10000"
    using that uint_ge_0 [of ?a] uint_ge_0 [of ?b] by linarith
  with sum show ?thesis
    by (auto simp: validate_config_def ok_simps word_le_def word_less_def not_less not_le)
qed

lemma create_pool_ok:
  assumes "create_pool env c s = Inr (i, s')"
  obtains a where
    "Admin s = Some a" "require_auth env a" "validate_config c = Inr ()"
    "checked_uadd (unwrap_or (PoolCount s) 0) 1 = Some i"
    "s' = rp_publish (PoolCreated i)
            (write_treasury i \<lparr>protocol_fees = 0, publisher_fees = 0\<rparr>
              (write_solvency i \<lparr>reserves = 0, committed = 0\<rparr>
                (write_tranche i Senior \<lparr>deposited = 0, receipt_supply = 0\<rparr>
                  (write_tranche i Junior \<lparr>deposited = 0, receipt_supply = 0\<rparr>
                    (s\<lparr>PoolCount := Some i, PoolConfigOf := (PoolConfigOf s)(i \<mapsto> c)\<rparr>)))))"
  using assms unfolding create_pool_def
  by (auto simp: Let_def bind_ok_Inr ok_or_Inr rp_guards require_stored_Inr intro!: that)

lemma open_season_ok:
  assumes "open_season env p s = Inr (i, s')"
  obtains a config closes where
    "Admin s = Some a" "require_auth env a" "PoolConfigOf s p = Some config"
    "checked_uadd (unwrap_or (SeasonCountOf s p) 0) 1 = Some i"
    "checked_uadd (timestamp env) (cfg_season_length config) = Some closes"
    "s' = rp_publish (SeasonOpened p i (timestamp env) closes)
            (write_season p i
              \<lparr>season_state = Open, opened_at = timestamp env, closes_at = closes,
               premiums_in = 0, payouts_committed = 0, payouts_paid = 0\<rparr>
              (s\<lparr>SeasonCountOf := (SeasonCountOf s)(p \<mapsto> i)\<rparr>))"
  using assms unfolding open_season_def
  by (auto simp: Let_def bind_ok_Inr ok_or_Inr rp_guards require_stored_Inr rp_reads intro!: that)

lemma transition_season_ok:
  assumes "transition_season env p i x y s = Inr s'"
  obtains a se where
    "Admin s = Some a" "require_auth env a" "SeasonOf s (p, i) = Some se" "season_state se = x"
    "s' = rp_publish (SeasonStateChanged p i y) (write_season p i (se\<lparr>season_state := y\<rparr>) s)"
  using assms unfolding transition_season_def
  by (auto simp: Let_def ok_simps rp_reads intro!: that)

lemma collect_premium_ok:
  assumes "collect_premium tk env p i src a s t = Inr (net, s', t')"
  obtains config se tre sol f g where
    "require_auth env src" "0 < a" "PoolConfigOf s p = Some config"
    "SeasonOf s (p, i) = Some se" "season_state se \<in> {Open, Active}"
    "TreasuryOf s p = Some tre" "SolvencyOf s p = Some sol"
    "accrue_fee a (protocol_bps (cfg_fee config)) (protocol_fees tre)
       (protocol_cap (cfg_fee config)) = Inr f"
    "accrue_fee a (publisher_bps (cfg_fee config)) (publisher_fees tre)
       (publisher_cap (cfg_fee config)) = Inr g"
    "net = a - f - g" "in_i128 (protocol_fees tre + f)" "in_i128 (publisher_fees tre + g)"
    "in_i128 (premiums_in se + net)" "in_i128 (reserves sol + net)"
    "tk (call_env env (cfg_token config)) (cfg_token config) src (current_contract env) a t
       = Some t'"
    "s' = rp_publish (PremiumCollected p i src a net f g)
            (write_solvency p (sol\<lparr>reserves := reserves sol + net\<rparr>)
              (write_season p i (se\<lparr>premiums_in := premiums_in se + net\<rparr>)
                (write_treasury p
                  \<lparr>protocol_fees = protocol_fees tre + f, publisher_fees = publisher_fees tre + g\<rparr>
                  s)))"
  using assms
  by (auto simp: collect_premium_def Let_def ok_simps rp_reads store_simps
      bind_eq_Some_conv intro!: that)

lemma refund_premium_ok:
  assumes "refund_premium tk env p i dst n s t = Inr (v, s', t')"
  obtains pc config se sol where
    "PolicyContract s = Some pc" "require_auth env pc" "v = n" "0 < n"
    "PoolConfigOf s p = Some config"
    "SeasonOf s (p, i) = Some se" "season_state se \<in> {Open, Active}" "n \<le> premiums_in se"
    "SolvencyOf s p = Some sol" "n \<le> reserves sol" "committed sol \<le> reserves sol - n"
    "in_i128 (reserves sol - n)" "in_i128 (premiums_in se - n)"
    "tk (call_env env (cfg_token config)) (cfg_token config) (current_contract env) dst n t
       = Some t'"
    "s' = rp_publish (PremiumRefunded p i dst n)
            (write_solvency p (sol\<lparr>reserves := reserves sol - n\<rparr>)
              (write_season p i (se\<lparr>premiums_in := premiums_in se - n\<rparr>) s))"
  using assms
  by (auto simp: refund_premium_def Let_def ok_simps rp_reads store_simps intro!: that)

lemma pay_out_ok:
  assumes "pay_out tk env p i dst n s t = Inr (v, s', t')"
  obtains pv config se sol where
    "PayoutVault s = Some pv" "require_auth env pv" "v = n" "0 < n"
    "PoolConfigOf s p = Some config"
    "SeasonOf s (p, i) = Some se" "season_state se \<in> {Active, Closed}"
    "SolvencyOf s p = Some sol" "n \<le> reserves sol" "committed sol \<le> reserves sol - n"
    "in_i128 (reserves sol - n)" "in_i128 (payouts_paid se + n)"
    "tk (call_env env (cfg_token config)) (cfg_token config) (current_contract env) dst n t
       = Some t'"
    "s' = rp_publish (PayoutReleased p i dst n)
            (write_solvency p (sol\<lparr>reserves := reserves sol - n\<rparr>)
              (write_season p i (se\<lparr>payouts_paid := payouts_paid se + n\<rparr>) s))"
  using assms
  by (auto simp: pay_out_def Let_def ok_simps rp_reads store_simps intro!: that)

lemma credit_junior_surplus_ok [ok_simps]:
  "credit_junior_surplus p n s = Inr s' \<longleftrightarrow>
     in_i128 (deposited (read_tranche s p Junior) + n) \<and>
     s' = write_tranche p Junior ((read_tranche s p Junior)
            \<lparr>deposited := deposited (read_tranche s p Junior) + n\<rparr>) s"
  by (auto simp: credit_junior_surplus_def Let_def ok_simps)

text \<open>The part of a loss each tranche bears: junior first, then senior.\<close>

definition junior_share :: "RiskPoolStore \<Rightarrow> u64 \<Rightarrow> i128 \<Rightarrow> i128" where
  "junior_share s p loss = min loss (deposited (read_tranche s p Junior))"

definition senior_share :: "RiskPoolStore \<Rightarrow> u64 \<Rightarrow> i128 \<Rightarrow> i128" where
  "senior_share s p loss =
     (if junior_share s p loss < loss
      then min (loss - junior_share s p loss) (deposited (read_tranche s p Senior)) else 0)"

lemma absorb_loss_ok:
  assumes "absorb_loss p loss s = Inr s'"
  obtains
    "s' = (let s1 = write_tranche p Junior ((read_tranche s p Junior)
             \<lparr>deposited := deposited (read_tranche s p Junior) - junior_share s p loss\<rparr>) s
           in if junior_share s p loss < loss
              then write_tranche p Senior ((read_tranche s p Senior)
                \<lparr>deposited := deposited (read_tranche s p Senior) - senior_share s p loss\<rparr>) s1
              else s1)"
    "in_i128 (deposited (read_tranche s p Junior) - junior_share s p loss)"
    "junior_share s p loss < loss \<Longrightarrow>
       in_i128 (deposited (read_tranche s p Senior) - senior_share s p loss)"
  using assms
  by (auto simp: absorb_loss_def Let_def ok_simps store_simps junior_share_def senior_share_def
      intro!: that split: if_splits)

text \<open>What settlement does to the tranches, read back.\<close>

lemma absorb_loss_reads:
  assumes "absorb_loss p loss s = Inr s'"
  shows "read_tranche s' p Junior = (read_tranche s p Junior)
           \<lparr>deposited := deposited (read_tranche s p Junior) - junior_share s p loss\<rparr>"
    and "read_tranche s' p Senior = (read_tranche s p Senior)
           \<lparr>deposited := deposited (read_tranche s p Senior) - senior_share s p loss\<rparr>"
    and "q \<noteq> p \<Longrightarrow> TrancheOf s' (q, tier) = TrancheOf s (q, tier)"
  using assms
  by (auto elim!: absorb_loss_ok simp: Let_def store_simps senior_share_def)

lemma absorb_loss_frame:
  assumes "absorb_loss p loss s = Inr s'"
  shows "Admin s' = Admin s" "PolicyContract s' = PolicyContract s" "PayoutVault s' = PayoutVault s"
    "PoolCount s' = PoolCount s" "SeasonCountOf s' = SeasonCountOf s"
    "PoolConfigOf s' = PoolConfigOf s" "ReceiptOf s' = ReceiptOf s" "SeasonOf s' = SeasonOf s"
    "TreasuryOf s' = TreasuryOf s" "SolvencyOf s' = SolvencyOf s" "rp_events s' = rp_events s"
  using assms by (auto elim!: absorb_loss_ok simp: Let_def store_simps)

text \<open>The tranche step of a settlement, and the three cases of its success.\<close>

definition settle_tranches :: "u64 \<Rightarrow> i128 \<Rightarrow> RiskPoolStore \<Rightarrow> (RiskPoolError, RiskPoolStore) result"
  where "settle_tranches p net s =
    (if net > 0 then credit_junior_surplus p net s
     else if net < 0 then bind_ok (ok_or (checked_neg net) RpOverflow) (\<lambda>loss. absorb_loss p loss s)
     else Inr s)"

lemma settle_tranches_cases:
  assumes "settle_tranches p net s = Inr s1"
  obtains (surplus) "0 < net" "credit_junior_surplus p net s = Inr s1"
  | (loss) "net < 0" "absorb_loss p (- net) s = Inr s1"
  | (even) "net = 0" "s1 = s"
  using assms
  by (auto simp: settle_tranches_def bind_ok_Inr ok_or_Inr checked_neg_Some split: if_splits)

lemma settle_tranches_frame:
  assumes "settle_tranches p net s = Inr s1"
  shows "Admin s1 = Admin s" "PolicyContract s1 = PolicyContract s" "PayoutVault s1 = PayoutVault s"
    "PoolCount s1 = PoolCount s" "SeasonCountOf s1 = SeasonCountOf s"
    "PoolConfigOf s1 = PoolConfigOf s" "ReceiptOf s1 = ReceiptOf s" "SeasonOf s1 = SeasonOf s"
    "TreasuryOf s1 = TreasuryOf s" "SolvencyOf s1 = SolvencyOf s" "rp_events s1 = rp_events s"
    "q \<noteq> p \<Longrightarrow> TrancheOf s1 (q, tier) = TrancheOf s (q, tier)"
  using assms
  by (cases rule: settle_tranches_cases;
      auto simp: credit_junior_surplus_ok store_simps absorb_loss_frame absorb_loss_reads)+

lemma settle_season_ok:
  assumes "settle_season env p i s = Inr (net, s')"
  obtains a se s1 where
    "Admin s = Some a" "require_auth env a" "SeasonOf s (p, i) = Some se"
    "season_state se = Closed" "net = premiums_in se - payouts_paid se" "in_i128 net"
    "settle_tranches p net s = Inr s1"
    "s' = rp_publish (SeasonSettled p i (premiums_in se) (payouts_paid se) net)
            (write_season p i (se\<lparr>season_state := Settled\<rparr>) s1)"
  using assms unfolding settle_season_def settle_tranches_def [symmetric]
  by (auto simp: Let_def bind_ok_Inr if_Inl_Inr ok_or_Inr rp_guards require_stored_Inr rp_reads
      checked_sub_Some intro!: that split: if_splits)

end
