(* ===== verification/RiskPool_Inv.thy ===== *)
theory RiskPool_Inv
  imports RiskPool_Store
begin

text \<open>
  The invariant of the risk pool. It is stated per pool, because every entry point writes one
  pool only (\<open>same_pool\<close>); each section proves that one group of entry points keeps it. The
  last section builds the step relation of the contract and interprets the state machine locale.
\<close>

section \<open>Season states are ordered by the lifecycle\<close>

fun season_rank :: "SeasonState \<Rightarrow> nat" where
  "season_rank Open = 0"
| "season_rank Active = 1"
| "season_rank Closed = 2"
| "season_rank Settled = 3"

lemma season_rank_inj: "season_rank x = season_rank y \<Longrightarrow> x = y"
  by (cases x; cases y) simp_all

instantiation SeasonState :: linorder
begin

definition less_eq_SeasonState :: "SeasonState \<Rightarrow> SeasonState \<Rightarrow> bool" where
  "x \<le> y \<longleftrightarrow> season_rank x \<le> season_rank y"

definition less_SeasonState :: "SeasonState \<Rightarrow> SeasonState \<Rightarrow> bool" where
  "x < y \<longleftrightarrow> season_rank x < season_rank y"

instance
  by standard (auto simp: less_eq_SeasonState_def less_SeasonState_def intro: season_rank_inj)

end

section \<open>The invariant of one pool\<close>

definition tranche_ok :: "RiskPoolStore \<Rightarrow> u64 \<Rightarrow> Tier \<Rightarrow> bool" where
  "tranche_ok s p tier \<longleftrightarrow>
     0 \<le> deposited (read_tranche s p tier) \<and> in_i128 (deposited (read_tranche s p tier)) \<and>
     0 \<le> receipt_supply (read_tranche s p tier) \<and>
     in_i128 (receipt_supply (read_tranche s p tier)) \<and>
     (\<forall>h. 0 \<le> read_receipt s (p, tier, h) \<and> in_i128 (read_receipt s (p, tier, h))) \<and>
     (\<Sum>h\<in>UNIV. read_receipt s (p, tier, h)) = receipt_supply (read_tranche s p tier)"

definition season_ok :: "Season \<Rightarrow> bool" where
  "season_ok se \<longleftrightarrow> 0 \<le> premiums_in se \<and> in_i128 (premiums_in se) \<and>
     payouts_committed se = 0 \<and> 0 \<le> payouts_paid se \<and> in_i128 (payouts_paid se)"

definition solvency_ok :: "SolvencyState \<Rightarrow> bool" where
  "solvency_ok sol \<longleftrightarrow> committed sol = 0 \<and> 0 \<le> reserves sol \<and> in_i128 (reserves sol)"

text \<open>An accrued fee stays within its cap; a cap of zero means uncapped.\<close>

definition fee_ok :: "i128 \<Rightarrow> i128 \<Rightarrow> bool" where
  "fee_ok cap fees \<longleftrightarrow> 0 \<le> fees \<and> in_i128 fees \<and> (cap \<noteq> 0 \<longrightarrow> fees \<le> cap)"

definition treasury_ok :: "PoolConfig \<Rightarrow> TreasuryState \<Rightarrow> bool" where
  "treasury_ok c tre \<longleftrightarrow> fee_ok (protocol_cap (cfg_fee c)) (protocol_fees tre) \<and>
     fee_ok (publisher_cap (cfg_fee c)) (publisher_fees tre)"

text \<open>
  The books of a pool: the capital of both tranches plus the running result of every season that
  is not settled yet. Settlement moves a season's result into the tranches.
\<close>

definition season_result :: "Season option \<Rightarrow> int" where
  "season_result x = (case x of None \<Rightarrow> 0 | Some se \<Rightarrow>
     if season_state se = Settled then 0 else premiums_in se - payouts_paid se)"

definition open_books :: "RiskPoolStore \<Rightarrow> u64 \<Rightarrow> int" where
  "open_books s p = (\<Sum>i\<in>UNIV. season_result (SeasonOf s (p, i)))"

definition books :: "RiskPoolStore \<Rightarrow> u64 \<Rightarrow> int" where
  "books s p = deposited (read_tranche s p Junior) + deposited (read_tranche s p Senior)
     + open_books s p"

definition absent_pool :: "RiskPoolStore \<Rightarrow> u64 \<Rightarrow> bool" where
  "absent_pool s p \<longleftrightarrow> PoolConfigOf s p = None \<and> SolvencyOf s p = None \<and> TreasuryOf s p = None \<and>
     (\<forall>tier. TrancheOf s (p, tier) = None) \<and> (\<forall>tier h. ReceiptOf s (p, tier, h) = None) \<and>
     (\<forall>i. SeasonOf s (p, i) = None) \<and> SeasonCountOf s p = None"

definition present_pool :: "RiskPoolStore \<Rightarrow> u64 \<Rightarrow> bool" where
  "present_pool s p \<longleftrightarrow> (\<exists>c sol tre. PoolConfigOf s p = Some c \<and> SolvencyOf s p = Some sol \<and>
     TreasuryOf s p = Some tre \<and> validate_config c = Inr () \<and> solvency_ok sol \<and>
     treasury_ok c tre \<and> reserves sol \<le> books s p \<and>
     p \<le> unwrap_or (PoolCount s) 0 \<and> (\<forall>tier. tranche_ok s p tier) \<and>
     (\<forall>i se. SeasonOf s (p, i) = Some se \<longrightarrow>
        season_ok se \<and> i \<le> unwrap_or (SeasonCountOf s p) 0))"

definition pool_inv :: "RiskPoolStore \<Rightarrow> u64 \<Rightarrow> bool" where
  "pool_inv s p \<longleftrightarrow> absent_pool s p \<or> present_pool s p"

definition rp_inv :: "RiskPoolStore \<Rightarrow> bool" where
  "rp_inv s \<longleftrightarrow> (\<forall>p. pool_inv s p)"

lemma pool_invE:
  assumes "pool_inv s p" and "PoolConfigOf s p = Some c"
  obtains sol tre where "SolvencyOf s p = Some sol" "TreasuryOf s p = Some tre"
    "validate_config c = Inr ()" "solvency_ok sol" "treasury_ok c tre" "reserves sol \<le> books s p"
    "p \<le> unwrap_or (PoolCount s) 0" "\<forall>tier. tranche_ok s p tier"
    "\<forall>i se. SeasonOf s (p, i) = Some se \<longrightarrow>
        season_ok se \<and> i \<le> unwrap_or (SeasonCountOf s p) 0"
  using assms by (auto simp: pool_inv_def absent_pool_def present_pool_def)

lemma pool_inv_season: "pool_inv s p \<Longrightarrow> SeasonOf s (p, i) = Some se \<Longrightarrow> PoolConfigOf s p \<noteq> None"
  by (auto simp: pool_inv_def absent_pool_def present_pool_def)

lemma pool_inv_solvency: "pool_inv s p \<Longrightarrow> SolvencyOf s p = Some sol \<Longrightarrow> PoolConfigOf s p \<noteq> None"
  by (auto simp: pool_inv_def absent_pool_def present_pool_def)

lemma pool_inv_treasury: "pool_inv s p \<Longrightarrow> TreasuryOf s p = Some tre \<Longrightarrow> PoolConfigOf s p \<noteq> None"
  by (auto simp: pool_inv_def absent_pool_def present_pool_def)

section \<open>Frames\<close>

text \<open>Two stores agree on everything they keep about a pool.\<close>

definition same_pool :: "RiskPoolStore \<Rightarrow> RiskPoolStore \<Rightarrow> u64 \<Rightarrow> bool" where
  "same_pool s s' q \<longleftrightarrow> PoolConfigOf s' q = PoolConfigOf s q \<and>
     SeasonCountOf s' q = SeasonCountOf s q \<and> TreasuryOf s' q = TreasuryOf s q \<and>
     SolvencyOf s' q = SolvencyOf s q \<and> (\<forall>tier. TrancheOf s' (q, tier) = TrancheOf s (q, tier)) \<and>
     (\<forall>tier h. ReceiptOf s' (q, tier, h) = ReceiptOf s (q, tier, h)) \<and>
     (\<forall>i. SeasonOf s' (q, i) = SeasonOf s (q, i))"

lemma same_pool_refl: "same_pool s s q"
  by (simp add: same_pool_def)

lemma same_pool_trans: "same_pool s s' q \<Longrightarrow> same_pool s' s'' q \<Longrightarrow> same_pool s s'' q"
  by (simp add: same_pool_def)

lemma same_pool_reads:
  assumes "same_pool s s' q"
  shows "read_tranche s' q tier = read_tranche s q tier"
    "read_receipt s' (q, tier, h) = read_receipt s (q, tier, h)"
    "books s' q = books s q"
  using assms
  by (simp_all add: same_pool_def read_tranche_def read_receipt_def books_def open_books_def)

lemma pool_inv_same:
  assumes "same_pool s s' q" and "unwrap_or (PoolCount s) 0 \<le> unwrap_or (PoolCount s') 0"
    and "pool_inv s q"
  shows "pool_inv s' q"
proof -
  have "absent_pool s' q" if "absent_pool s q"
    using that assms(1) by (simp add: absent_pool_def same_pool_def)
  moreover have "present_pool s' q" if "present_pool s q"
  proof -
    have "tranche_ok s' q tier = tranche_ok s q tier" for tier
      by (simp add: tranche_ok_def same_pool_reads [OF assms(1)])
    with that show ?thesis
      using assms(1,2) unfolding present_pool_def
      by (auto simp: same_pool_reads [OF assms(1)] same_pool_def intro: order_trans)
  qed
  ultimately show ?thesis using assms(3) by (auto simp: pool_inv_def)
qed

text \<open>An entry point that touches pool \<open>p\<close> only keeps the invariant if it keeps it at \<open>p\<close>.\<close>

lemma rp_inv_local:
  assumes "rp_inv s" and "\<And>q. q \<noteq> p \<Longrightarrow> same_pool s s' q"
    and "unwrap_or (PoolCount s) 0 \<le> unwrap_or (PoolCount s') 0" and "pool_inv s' p"
  shows "rp_inv s'"
  unfolding rp_inv_def
proof
  fix q
  show "pool_inv s' q"
    using assms pool_inv_same [of s s' q] by (cases "q = p") (auto simp: rp_inv_def)
qed

end
