(* ===== verification/RiskPool_Keep.thy ===== *)
theory RiskPool_Keep
  imports RiskPool_Inv
begin

text \<open>
  Every entry point of the risk pool keeps its invariant, and touches no pool but its own.
\<close>

section \<open>Fee and share arithmetic\<close>

lemma accrue_fee_bounds:
  assumes ok: "accrue_fee a bps acc cap = Inr f" and a: "0 \<le> a" and fee: "fee_ok cap acc"
  shows "0 \<le> f" and "f \<le> a * uint bps div 10000" and "cap \<noteq> 0 \<longrightarrow> acc + f \<le> cap"
proof -
  from ok obtain d where d: "apply_bps a bps = Some d"
    and f: "f = (if cap = 0 then d else min d (max (unwrap_or (checked_sub cap acc) 0) 0))"
    by (auto simp: accrue_fee_def bind_ok_Inr ok_or_Inr Let_def split: if_splits)
  have d': "d = a * uint bps div 10000" "0 \<le> d" using apply_bps_floor [OF d a] by simp_all
  from f d' show "0 \<le> f" and "f \<le> a * uint bps div 10000" by auto
  show "cap \<noteq> 0 \<longrightarrow> acc + f \<le> cap"
  proof
    assume cap: "cap \<noteq> 0"
    with fee have le: "0 \<le> acc" "acc \<le> cap" by (auto simp: fee_ok_def)
    have "unwrap_or (checked_sub cap acc) 0 \<le> cap - acc"
      using le by (auto simp: checked_sub_def checked_def)
    then have "max (unwrap_or (checked_sub cap acc) 0) 0 \<le> cap - acc" using le by auto
    then show "acc + f \<le> cap" using f cap by auto
  qed
qed

text \<open>Two fees at rates of together at most one hundred percent leave a non-negative rest.\<close>

lemma two_fees_le:
  fixes a b c :: int
  assumes "0 \<le> a" and "b + c \<le> 10000"
  shows "a * b div 10000 + a * c div 10000 \<le> a"
proof -
  have "(a * b div 10000 + a * c div 10000) * 10000
      \<le> a * b + a * c"
    using div_mult_mod_eq [of "a * b" 10000] div_mult_mod_eq [of "a * c" 10000]
      pos_mod_sign [of 10000 "a * b"] pos_mod_sign [of 10000 "a * c"] by simp
  also have "a * b + a * c = a * (b + c)" by (simp add: distrib_left)
  also have "\<dots> \<le> a * 10000" using assms by (simp add: mult_left_mono)
  finally show ?thesis by simp
qed

text \<open>A pro rata share of at most the whole supply is at most the whole capital.\<close>

lemma pro_rata_le:
  fixes r d n :: int
  assumes "0 \<le> d" and "r \<le> n" and "0 < n"
  shows "r * d div n \<le> d"
proof -
  have "r * d \<le> n * d" using assms by (simp add: mult_right_mono)
  then have "r * d div n \<le> n * d div n" using assms(3) by (rule zdiv_mono1)
  then show ?thesis using assms(3) by simp
qed

section \<open>One tranche\<close>

lemma tranche_ok_same:
  assumes "tranche_ok s p tier" and "read_tranche s' p tier = read_tranche s p tier"
    and "\<And>h. read_receipt s' (p, tier, h) = read_receipt s (p, tier, h)"
  shows "tranche_ok s' p tier"
  using assms by (simp add: tranche_ok_def)

lemma tranche_ok_supply_le:
  assumes "tranche_ok s p tier"
  shows "read_receipt s (p, tier, h) \<le> receipt_supply (read_tranche s p tier)"
  using assms sum_ge_single [of "\<lambda>h. read_receipt s (p, tier, h)" h] by (simp add: tranche_ok_def)

text \<open>Capital changes, receipts do not.\<close>

lemma tranche_ok_capital:
  assumes "tranche_ok s p tier" and "read_tranche s' p tier = (read_tranche s p tier)\<lparr>deposited := d\<rparr>"
    and "\<And>h. read_receipt s' (p, tier, h) = read_receipt s (p, tier, h)"
    and "0 \<le> d" "in_i128 d"
  shows "tranche_ok s' p tier"
  using assms by (simp add: tranche_ok_def)

text \<open>\<open>x\<close> receipts are minted to (or, negative, burnt from) one holder.\<close>

lemma tranche_ok_move:
  assumes ok: "tranche_ok s p tier"
    and tr: "read_tranche s' p tier =
      \<lparr>deposited = d, receipt_supply = receipt_supply (read_tranche s p tier) + x\<rparr>"
    and rc: "\<And>h. read_receipt s' (p, tier, h) =
      (if h = who then read_receipt s (p, tier, who) + x else read_receipt s (p, tier, h))"
    and d: "0 \<le> d" "in_i128 d"
    and x: "0 \<le> read_receipt s (p, tier, who) + x" "in_i128 (read_receipt s (p, tier, who) + x)"
      "in_i128 (receipt_supply (read_tranche s p tier) + x)"
  shows "tranche_ok s' p tier"
proof -
  let ?sup = "receipt_supply (read_tranche s p tier)"
  have "(\<Sum>h\<in>UNIV. read_receipt s' (p, tier, h)) = ?sup + x"
    using ok unfolding rc by (simp add: sum_point_update tranche_ok_def)
  moreover have "0 \<le> ?sup + x"
    using tranche_ok_supply_le [OF ok, of who] x(1) by simp
  ultimately show ?thesis
    using ok d x unfolding tranche_ok_def tr by (simp add: rc)
qed

section \<open>Books\<close>

lemma books_tranche:
  assumes "SeasonOf s' = SeasonOf s"
    and "read_tranche s' p tier = tr'"
    and "\<And>tier'. tier' \<noteq> tier \<Longrightarrow> read_tranche s' p tier' = read_tranche s p tier'"
  shows "books s' p = books s p + (deposited tr' - deposited (read_tranche s p tier))"
  using assms by (cases tier) (simp_all add: books_def open_books_def)

lemma books_season:
  assumes "\<And>tier. read_tranche s' p tier = read_tranche s p tier"
    and "\<And>j. j \<noteq> i \<Longrightarrow> SeasonOf s' (p, j) = SeasonOf s (p, j)"
  shows "books s' p = books s p - season_result (SeasonOf s (p, i)) + season_result (SeasonOf s' (p, i))"
proof -
  have "open_books s' p = open_books s p - season_result (SeasonOf s (p, i))
          + season_result (SeasonOf s' (p, i))"
    unfolding open_books_def by (rule sum_point_eq) (simp add: assms(2))
  then show ?thesis using assms(1) by (simp add: books_def)
qed

lemma present_poolI:
  assumes "PoolConfigOf s p = Some c" "SolvencyOf s p = Some sol" "TreasuryOf s p = Some tre"
    "validate_config c = Inr ()" "solvency_ok sol" "treasury_ok c tre" "reserves sol \<le> books s p"
    "p \<le> unwrap_or (PoolCount s) 0" "\<And>tier. tranche_ok s p tier"
    "\<And>i se. SeasonOf s (p, i) = Some se \<Longrightarrow>
       season_ok se \<and> i \<le> unwrap_or (SeasonCountOf s p) 0"
  shows "pool_inv s p"
  using assms by (auto simp: pool_inv_def present_pool_def)

lemma rp_invE:
  assumes "rp_inv s" and "PoolConfigOf s p = Some c"
  obtains sol tre where "SolvencyOf s p = Some sol" "TreasuryOf s p = Some tre"
    "validate_config c = Inr ()" "solvency_ok sol" "treasury_ok c tre" "reserves sol \<le> books s p"
    "p \<le> unwrap_or (PoolCount s) 0" "\<forall>tier. tranche_ok s p tier"
    "\<forall>i se. SeasonOf s (p, i) = Some se \<longrightarrow>
        season_ok se \<and> i \<le> unwrap_or (SeasonCountOf s p) 0"
  using assms pool_invE [of s p c] unfolding rp_inv_def by blast

lemma rp_solE:
  assumes "rp_inv s" and "PoolConfigOf s p = Some c" and "SolvencyOf s p = Some sol"
  obtains tre where "TreasuryOf s p = Some tre"
    "validate_config c = Inr ()" "solvency_ok sol" "treasury_ok c tre" "reserves sol \<le> books s p"
    "p \<le> unwrap_or (PoolCount s) 0" "\<forall>tier. tranche_ok s p tier"
    "\<forall>i se. SeasonOf s (p, i) = Some se \<longrightarrow>
        season_ok se \<and> i \<le> unwrap_or (SeasonCountOf s p) 0"
proof -
  obtain sol' tre where "SolvencyOf s p = Some sol'" and *: "TreasuryOf s p = Some tre"
      "validate_config c = Inr ()" "solvency_ok sol'" "treasury_ok c tre" "reserves sol' \<le> books s p"
      "p \<le> unwrap_or (PoolCount s) 0" "\<forall>tier. tranche_ok s p tier"
      "\<forall>i se. SeasonOf s (p, i) = Some se \<longrightarrow>
        season_ok se \<and> i \<le> unwrap_or (SeasonCountOf s p) 0"
    using assms(1,2) by (rule rp_invE)
  then have "sol' = sol" using assms(3) by simp
  with * show ?thesis by (intro that) simp_all
qed

section \<open>Deposits and withdrawals\<close>

lemma deposit_frame:
  assumes "deposit tk env p tier src a s t = Inr (m, s', t')"
  shows "q \<noteq> p \<Longrightarrow> same_pool s s' q" "PoolCount s' = PoolCount s" "Admin s' = Admin s"
    "SeasonOf s' = SeasonOf s"
  using assms by (auto elim!: deposit_ok simp: same_pool_def store_simps)

lemma deposit_books:
  assumes "deposit tk env p tier src a s t = Inr (m, s', t')"
  shows "books s' p = books s p + a"
proof -
  from assms have A: "deposited (read_tranche s' p tier) = deposited (read_tranche s p tier) + a"
    and B: "\<And>tier'. tier' \<noteq> tier \<Longrightarrow> read_tranche s' p tier' = read_tranche s p tier'"
    by (auto elim!: deposit_ok simp: store_simps)
  show ?thesis using books_tranche [OF deposit_frame(4) [OF assms] refl B] A by simp
qed

lemma deposit_keeps:
  assumes d: "deposit tk env p tier src a s t = Inr (m, s', t')" and inv: "rp_inv s"
  shows "rp_inv s'"
proof (rule rp_inv_local [OF inv, of p])
  show "\<And>q. q \<noteq> p \<Longrightarrow> same_pool s s' q" and "unwrap_or (PoolCount s) 0 \<le> unwrap_or (PoolCount s') 0"
    using deposit_frame [OF d] by simp_all
  from d obtain config sol tr where h: "0 < a" "PoolConfigOf s p = Some config"
      "SolvencyOf s p = Some sol" "tr = read_tranche s p tier" "0 < m"
      "in_i128 (deposited tr + a)" "in_i128 (receipt_supply tr + m)"
      "in_i128 (read_receipt s (p, tier, src) + m)" "in_i128 (reserves sol + a)"
      "s' = rp_publish (Deposited p tier src a m)
            (write_solvency p (sol\<lparr>reserves := reserves sol + a\<rparr>)
              (write_receipt (p, tier, src) (read_receipt s (p, tier, src) + m)
                (write_tranche p tier
                  \<lparr>deposited = deposited tr + a, receipt_supply = receipt_supply tr + m\<rparr> s)))"
    by (rule deposit_ok)
  obtain tre where i: "TreasuryOf s p = Some tre"
      "validate_config config = Inr ()" "solvency_ok sol" "treasury_ok config tre"
      "reserves sol \<le> books s p" "p \<le> unwrap_or (PoolCount s) 0" "\<forall>tier. tranche_ok s p tier"
      "\<forall>i se. SeasonOf s (p, i) = Some se \<longrightarrow>
        season_ok se \<and> i \<le> unwrap_or (SeasonCountOf s p) 0"
    by (rule rp_solE [OF inv h(2,3)])
  have "0 \<le> read_receipt s (p, tier, src)" "0 \<le> deposited tr"
    using i(7) [rule_format, of tier] h(4) by (auto simp: tranche_ok_def)
  with h have move: "tranche_ok s' p tier"
    by (intro tranche_ok_move [OF i(7) [rule_format, of tier], where x = m and who = src and d = "deposited tr + a"])
      (simp_all add: store_simps)
  have other: "tranche_ok s' p tier'" if "tier' \<noteq> tier" for tier'
    using that h(10) by (intro tranche_ok_same [OF i(7) [rule_format]]) (simp_all add: store_simps)
  have tr: "tranche_ok s' p tier'" for tier'
    using move other by (cases "tier' = tier") simp_all
  show "pool_inv s' p"
    by (rule present_poolI [of s' p config "sol\<lparr>reserves := reserves sol + a\<rparr>" tre])
      (use h i tr deposit_books [OF d] in \<open>auto simp: store_simps solvency_ok_def\<close>)
qed

lemma withdraw_frame:
  assumes "withdraw tk env p tier holder r s t = Inr (u, s', t')"
  shows "q \<noteq> p \<Longrightarrow> same_pool s s' q" "PoolCount s' = PoolCount s" "Admin s' = Admin s"
    "SeasonOf s' = SeasonOf s"
  using assms by (auto elim!: withdraw_ok simp: same_pool_def store_simps)

lemma withdraw_books:
  assumes "withdraw tk env p tier holder r s t = Inr (u, s', t')"
  shows "books s' p = books s p - u"
proof -
  from assms have A: "deposited (read_tranche s' p tier) = deposited (read_tranche s p tier) - u"
    and B: "\<And>tier'. tier' \<noteq> tier \<Longrightarrow> read_tranche s' p tier' = read_tranche s p tier'"
    by (auto elim!: withdraw_ok simp: store_simps)
  show ?thesis using books_tranche [OF withdraw_frame(4) [OF assms] refl B] A by simp
qed

text \<open>A withdrawal pays no more than the capital of its tranche.\<close>

lemma withdraw_le_capital:
  assumes w: "withdraw tk env p tier holder r s t = Inr (u, s', t')" and ok: "tranche_ok s p tier"
  shows "u \<le> deposited (read_tranche s p tier)"
proof -
  let ?tr = "read_tranche s p tier"
  from w have h: "0 < r" "r \<le> read_receipt s (p, tier, holder)" "0 < receipt_supply ?tr"
      "u = (r * deposited ?tr) sdiv receipt_supply ?tr"
    by (auto elim!: withdraw_ok)
  have "0 \<le> deposited ?tr" using ok by (simp add: tranche_ok_def)
  moreover have "r \<le> receipt_supply ?tr"
    using h(2) tranche_ok_supply_le [OF ok, of holder] by simp
  ultimately show ?thesis using h by (simp add: pro_rata_le)
qed

lemma withdraw_keeps:
  assumes w: "withdraw tk env p tier holder r s t = Inr (u, s', t')" and inv: "rp_inv s"
  shows "rp_inv s'"
proof (rule rp_inv_local [OF inv, of p])
  show "\<And>q. q \<noteq> p \<Longrightarrow> same_pool s s' q" and "unwrap_or (PoolCount s) 0 \<le> unwrap_or (PoolCount s') 0"
    using withdraw_frame [OF w] by simp_all
  from w obtain config sol tr where h: "0 < r" "PoolConfigOf s p = Some config"
      "SolvencyOf s p = Some sol" "tr = read_tranche s p tier"
      "r \<le> read_receipt s (p, tier, holder)" "u \<le> reserves sol"
      "in_i128 (reserves sol - u)" "in_i128 (deposited tr - u)" "in_i128 (receipt_supply tr - r)"
      "in_i128 (read_receipt s (p, tier, holder) - r)"
      "s' = rp_publish (Withdrawn p tier holder r u)
            (write_solvency p (sol\<lparr>reserves := reserves sol - u\<rparr>)
              (write_receipt (p, tier, holder) (read_receipt s (p, tier, holder) - r)
                (write_tranche p tier
                  \<lparr>deposited = deposited tr - u, receipt_supply = receipt_supply tr - r\<rparr> s)))"
    by (rule withdraw_ok)
  obtain tre where i: "TreasuryOf s p = Some tre"
      "validate_config config = Inr ()" "solvency_ok sol" "treasury_ok config tre"
      "reserves sol \<le> books s p" "p \<le> unwrap_or (PoolCount s) 0" "\<forall>tier. tranche_ok s p tier"
      "\<forall>i se. SeasonOf s (p, i) = Some se \<longrightarrow>
        season_ok se \<and> i \<le> unwrap_or (SeasonCountOf s p) 0"
    by (rule rp_solE [OF inv h(2,3)])
  have "u \<le> deposited tr" using withdraw_le_capital [OF w i(7) [rule_format]] h(4) by simp
  with h have move: "tranche_ok s' p tier"
    by (intro tranche_ok_move [OF i(7) [rule_format, of tier], where x = "- r" and who = holder
          and d = "deposited tr - u"]) (simp_all add: store_simps)
  have other: "tranche_ok s' p tier'" if "tier' \<noteq> tier" for tier'
    using that h(11) by (intro tranche_ok_same [OF i(7) [rule_format]]) (simp_all add: store_simps)
  have tr: "tranche_ok s' p tier'" for tier'
    using move other by (cases "tier' = tier") simp_all
  show "pool_inv s' p"
    by (rule present_poolI [of s' p config "sol\<lparr>reserves := reserves sol - u\<rparr>" tre])
      (use h i tr withdraw_books [OF w] in \<open>auto simp: store_simps solvency_ok_def\<close>)
qed

section \<open>Premiums, refunds and payouts\<close>

text \<open>
  The three have one shape: the season's result and the reserves move by the same amount. A refund
  and a payout leave the treasury as it is.
\<close>

lemma write_treasury_same: "TreasuryOf s p = Some tre \<Longrightarrow> write_treasury p tre s = s"
  by (simp add: write_treasury_def fun_upd_idem)

lemma season_move_keeps:
  assumes inv: "rp_inv s" and c: "PoolConfigOf s p = Some c" and se: "SeasonOf s (p, i) = Some se"
    and sol: "SolvencyOf s p = Some sol"
    and s': "s' = rp_publish e (write_solvency p (sol\<lparr>reserves := reserves sol + x\<rparr>)
                (write_season p i se' (write_treasury p tre' s)))"
    and st: "season_state se' = season_state se" "season_state se \<noteq> Settled"
    and res: "premiums_in se' - payouts_paid se' = premiums_in se - payouts_paid se + x"
    and ok: "season_ok se'" "0 \<le> reserves sol + x" "in_i128 (reserves sol + x)" "treasury_ok c tre'"
  shows "rp_inv s'"
proof (rule rp_inv_local [OF inv, of p])
  show "\<And>q. q \<noteq> p \<Longrightarrow> same_pool s s' q" and "unwrap_or (PoolCount s) 0 \<le> unwrap_or (PoolCount s') 0"
    by (simp_all add: s' same_pool_def store_simps)
  obtain tre where i: "TreasuryOf s p = Some tre"
      "validate_config c = Inr ()" "solvency_ok sol" "treasury_ok c tre" "reserves sol \<le> books s p"
      "p \<le> unwrap_or (PoolCount s) 0" "\<forall>tier. tranche_ok s p tier"
      "\<forall>i se. SeasonOf s (p, i) = Some se \<longrightarrow>
        season_ok se \<and> i \<le> unwrap_or (SeasonCountOf s p) 0"
    by (rule rp_solE [OF inv c sol])
  have "books s' p = books s p - season_result (SeasonOf s (p, i)) + season_result (SeasonOf s' (p, i))"
    by (rule books_season) (simp_all add: s' store_simps)
  then have bk: "books s' p = books s p + x"
    using se st res by (simp add: s' store_simps season_result_def)
  have tr: "tranche_ok s' p tier" for tier
    by (rule tranche_ok_same [OF i(7) [rule_format]]) (simp_all add: s' store_simps)
  show "pool_inv s' p"
    by (rule present_poolI [of s' p c "sol\<lparr>reserves := reserves sol + x\<rparr>" tre'])
      (use c se i tr bk ok in \<open>auto simp: s' store_simps solvency_ok_def split: if_splits\<close>)
qed

lemma collect_premium_frame:
  assumes "collect_premium tk env p i src a s t = Inr (n, s', t')"
  shows "q \<noteq> p \<Longrightarrow> same_pool s s' q" "PoolCount s' = PoolCount s" "Admin s' = Admin s"
  using assms by (auto elim!: collect_premium_ok simp: same_pool_def store_simps)

lemma refund_premium_frame:
  assumes "refund_premium tk env p i dst n s t = Inr (v, s', t')"
  shows "q \<noteq> p \<Longrightarrow> same_pool s s' q" "PoolCount s' = PoolCount s" "Admin s' = Admin s"
  using assms by (auto elim!: refund_premium_ok simp: same_pool_def store_simps)

lemma pay_out_frame:
  assumes "pay_out tk env p i dst n s t = Inr (v, s', t')"
  shows "q \<noteq> p \<Longrightarrow> same_pool s s' q" "PoolCount s' = PoolCount s" "Admin s' = Admin s"
  using assms by (auto elim!: pay_out_ok simp: same_pool_def store_simps)

text \<open>The split of a premium: two fees within their caps, and a non-negative rest.\<close>

lemma premium_split:
  assumes f: "accrue_fee a (protocol_bps (cfg_fee c)) (protocol_fees tre) (protocol_cap (cfg_fee c))
        = Inr f"
    and g: "accrue_fee a (publisher_bps (cfg_fee c)) (publisher_fees tre) (publisher_cap (cfg_fee c))
        = Inr g"
    and a: "0 < a" and tre: "treasury_ok c tre" and c: "validate_config c = Inr ()"
  shows "0 \<le> f" "0 \<le> g" "f + g \<le> a"
    "protocol_cap (cfg_fee c) \<noteq> 0 \<longrightarrow> protocol_fees tre + f \<le> protocol_cap (cfg_fee c)"
    "publisher_cap (cfg_fee c) \<noteq> 0 \<longrightarrow> publisher_fees tre + g \<le> publisher_cap (cfg_fee c)"
proof -
  from tre have fo: "fee_ok (protocol_cap (cfg_fee c)) (protocol_fees tre)"
    and go: "fee_ok (publisher_cap (cfg_fee c)) (publisher_fees tre)"
    by (simp_all add: treasury_ok_def)
  note F = accrue_fee_bounds [OF f _ fo] and G = accrue_fee_bounds [OF g _ go]
  from F G a show "0 \<le> f" "0 \<le> g"
    "protocol_cap (cfg_fee c) \<noteq> 0 \<longrightarrow> protocol_fees tre + f \<le> protocol_cap (cfg_fee c)"
    "publisher_cap (cfg_fee c) \<noteq> 0 \<longrightarrow> publisher_fees tre + g \<le> publisher_cap (cfg_fee c)"
    by simp_all
  have "a * uint (protocol_bps (cfg_fee c)) div 10000 + a * uint (publisher_bps (cfg_fee c)) div 10000
      \<le> a"
    using a c by (intro two_fees_le) (auto simp: validate_config_ok)
  with F(2) G(2) a show "f + g \<le> a" by simp
qed

lemma collect_premium_keeps:
  assumes d: "collect_premium tk env p i src a s t = Inr (n, s', t')" and inv: "rp_inv s"
  shows "rp_inv s'"
proof -
  from d obtain c se tre sol f g where h: "0 < a" "PoolConfigOf s p = Some c"
      "SeasonOf s (p, i) = Some se" "season_state se \<in> {Open, Active}"
      "TreasuryOf s p = Some tre" "SolvencyOf s p = Some sol"
      "accrue_fee a (protocol_bps (cfg_fee c)) (protocol_fees tre) (protocol_cap (cfg_fee c)) = Inr f"
      "accrue_fee a (publisher_bps (cfg_fee c)) (publisher_fees tre) (publisher_cap (cfg_fee c)) = Inr g"
      "n = a - f - g" "in_i128 (protocol_fees tre + f)" "in_i128 (publisher_fees tre + g)"
      "in_i128 (premiums_in se + n)" "in_i128 (reserves sol + n)"
      "s' = rp_publish (PremiumCollected p i src a n f g)
            (write_solvency p (sol\<lparr>reserves := reserves sol + n\<rparr>)
              (write_season p i (se\<lparr>premiums_in := premiums_in se + n\<rparr>)
                (write_treasury p
                  \<lparr>protocol_fees = protocol_fees tre + f, publisher_fees = publisher_fees tre + g\<rparr>
                  s)))"
    by (rule collect_premium_ok)
  have i: "validate_config c = Inr ()" "solvency_ok sol" "treasury_ok c tre" "season_ok se"
    using rp_solE [OF inv h(2,6)] h(3,5) by fastforce+
  note split = premium_split [OF h(7,8,1) i(3,1)]
  show ?thesis
    by (rule season_move_keeps [OF inv h(2,3,6) h(14)])
      (use h(4,9-13) i split in \<open>auto simp: season_ok_def solvency_ok_def treasury_ok_def fee_ok_def\<close>)
qed

lemma refund_premium_keeps:
  assumes d: "refund_premium tk env p i dst n s t = Inr (v, s', t')" and inv: "rp_inv s"
  shows "rp_inv s'"
proof -
  from d obtain c se sol where h: "0 < n" "PoolConfigOf s p = Some c"
      "SeasonOf s (p, i) = Some se" "season_state se \<in> {Open, Active}" "n \<le> premiums_in se"
      "SolvencyOf s p = Some sol" "n \<le> reserves sol" "in_i128 (reserves sol - n)"
      "in_i128 (premiums_in se - n)"
      "s' = rp_publish (PremiumRefunded p i dst n)
            (write_solvency p (sol\<lparr>reserves := reserves sol - n\<rparr>)
              (write_season p i (se\<lparr>premiums_in := premiums_in se - n\<rparr>) s))"
    by (rule refund_premium_ok)
  obtain tre where i: "solvency_ok sol" "season_ok se" "TreasuryOf s p = Some tre"
      "treasury_ok c tre"
    using rp_solE [OF inv h(2,6)] h(3) by metis
  show ?thesis
    by (rule season_move_keeps [OF inv h(2,3,6), where x = "- n" and tre' = tre
            and se' = "se\<lparr>premiums_in := premiums_in se - n\<rparr>"])
      (use h i in \<open>auto simp: season_ok_def solvency_ok_def write_treasury_same\<close>)
qed

lemma pay_out_keeps:
  assumes d: "pay_out tk env p i dst n s t = Inr (v, s', t')" and inv: "rp_inv s"
  shows "rp_inv s'"
proof -
  from d obtain c se sol where h: "0 < n" "PoolConfigOf s p = Some c"
      "SeasonOf s (p, i) = Some se" "season_state se \<in> {Active, Closed}"
      "SolvencyOf s p = Some sol" "n \<le> reserves sol" "in_i128 (reserves sol - n)"
      "in_i128 (payouts_paid se + n)"
      "s' = rp_publish (PayoutReleased p i dst n)
            (write_solvency p (sol\<lparr>reserves := reserves sol - n\<rparr>)
              (write_season p i (se\<lparr>payouts_paid := payouts_paid se + n\<rparr>) s))"
    by (rule pay_out_ok)
  obtain tre where i: "solvency_ok sol" "season_ok se" "TreasuryOf s p = Some tre"
      "treasury_ok c tre"
    using rp_solE [OF inv h(2,5)] h(3) by metis
  show ?thesis
    by (rule season_move_keeps [OF inv h(2,3,5), where x = "- n" and tre' = tre
            and se' = "se\<lparr>payouts_paid := payouts_paid se + n\<rparr>"])
      (use h i in \<open>auto simp: season_ok_def solvency_ok_def write_treasury_same\<close>)
qed

section \<open>Configuration, pool creation and seasons\<close>

lemma set_address_keeps:
  assumes "rp_inv s" and "s' = s\<lparr>PolicyContract := x\<rparr> \<or> s' = s\<lparr>PayoutVault := x\<rparr>"
  shows "rp_inv s'"
proof -
  have "same_pool s s' q" for q
    using assms(2) by (auto simp: same_pool_def)
  moreover have "PoolCount s' = PoolCount s" using assms(2) by auto
  ultimately show ?thesis
    using assms(1) pool_inv_same [of s s'] by (simp add: rp_inv_def)
qed

lemma create_pool_frame:
  assumes "create_pool env c s = Inr (i, s')"
  shows "q \<noteq> i \<Longrightarrow> same_pool s s' q" "Admin s' = Admin s"
    "unwrap_or (PoolCount s) 0 < i" "PoolCount s' = Some i"
  using assms checked_uadd_1_gt [of "unwrap_or (PoolCount s) 0" i]
  by (auto elim!: create_pool_ok simp: same_pool_def store_simps)

text \<open>The allocated id is larger than every pool's, so the entries of the new pool are fresh.\<close>

lemma create_pool_fresh:
  assumes "create_pool env c s = Inr (i, s')" and "rp_inv s"
  shows "absent_pool s i"
  using assms(2) create_pool_frame(3) [OF assms(1)]
  by (auto simp: rp_inv_def pool_inv_def present_pool_def dest: spec [of _ i])

lemma create_pool_keeps:
  assumes d: "create_pool env c s = Inr (i, s')" and inv: "rp_inv s"
  shows "rp_inv s'"
proof (rule rp_inv_local [OF inv, of i])
  show "\<And>q. q \<noteq> i \<Longrightarrow> same_pool s s' q" and "unwrap_or (PoolCount s) 0 \<le> unwrap_or (PoolCount s') 0"
    using create_pool_frame [OF d] by simp_all
  from create_pool_fresh [OF d inv] have no: "\<And>k. SeasonOf s (i, k) = None"
      "\<And>tier h. ReceiptOf s (i, tier, h) = None"
    by (simp_all add: absent_pool_def)
  from d obtain v where h: "validate_config c = Inr ()" "s' = rp_publish (PoolCreated i)
            (write_treasury i \<lparr>protocol_fees = 0, publisher_fees = 0\<rparr>
              (write_solvency i \<lparr>reserves = 0, committed = 0\<rparr>
                (write_tranche i Senior \<lparr>deposited = 0, receipt_supply = 0\<rparr>
                  (write_tranche i Junior \<lparr>deposited = 0, receipt_supply = 0\<rparr>
                    (s\<lparr>PoolCount := Some i, PoolConfigOf := (PoolConfigOf s)(i \<mapsto> c)\<rparr>)))))"
    by (rule create_pool_ok)
  have tier: "tranche_ok s' i tier" for tier
    by (cases tier) (simp_all add: tranche_ok_def h(2) store_simps read_receipt_def no)
  have "books s' i = 0"
    by (simp add: books_def open_books_def season_result_def h(2) store_simps no)
  then show "pool_inv s' i"
    by (intro present_poolI [of s' i c "\<lparr>reserves = 0, committed = 0\<rparr>"
          "\<lparr>protocol_fees = 0, publisher_fees = 0\<rparr>"])
      (use h(1) tier no in \<open>auto simp: h(2) store_simps solvency_ok_def treasury_ok_def fee_ok_def
        validate_config_ok\<close>)
qed

text \<open>A change of seasons that keeps every season's result keeps the books.\<close>

lemma season_write_keeps:
  assumes inv: "rp_inv s" and c: "PoolConfigOf s p = Some c"
    and s': "s' = rp_publish e (write_season p i se' (s\<lparr>SeasonCountOf := m\<rparr>))"
    and m: "unwrap_or (SeasonCountOf s p) 0 \<le> unwrap_or (m p) 0" "i \<le> unwrap_or (m p) 0"
      "\<And>q. q \<noteq> p \<Longrightarrow> m q = SeasonCountOf s q"
    and res: "season_result (Some se') = season_result (SeasonOf s (p, i))"
    and ok: "season_ok se'"
  shows "rp_inv s'"
proof (rule rp_inv_local [OF inv, of p])
  show "\<And>q. q \<noteq> p \<Longrightarrow> same_pool s s' q" and "unwrap_or (PoolCount s) 0 \<le> unwrap_or (PoolCount s') 0"
    by (simp_all add: s' same_pool_def store_simps m)
  obtain sol tre where f: "SolvencyOf s p = Some sol" "TreasuryOf s p = Some tre"
      "validate_config c = Inr ()" "solvency_ok sol" "treasury_ok c tre" "reserves sol \<le> books s p"
      "p \<le> unwrap_or (PoolCount s) 0" "\<forall>tier. tranche_ok s p tier"
      "\<forall>i se. SeasonOf s (p, i) = Some se \<longrightarrow>
        season_ok se \<and> i \<le> unwrap_or (SeasonCountOf s p) 0"
    by (rule rp_invE [OF inv c])
  have rd: "read_tranche s' p tier = read_tranche s p tier"
      "read_receipt s' (p, tier, h) = read_receipt s (p, tier, h)" for tier h
    by (simp_all add: s' store_simps) (simp_all add: read_tranche_def read_receipt_def)
  have "books s' p = books s p - season_result (SeasonOf s (p, i)) + season_result (SeasonOf s' (p, i))"
    by (rule books_season) (simp_all add: rd, simp add: s' store_simps)
  then have bk: "books s' p = books s p" using res by (simp add: s' store_simps)
  have tr: "tranche_ok s' p tier" for tier
    by (rule tranche_ok_same [OF f(8) [rule_format]]) (simp_all add: rd)
  have se: "season_ok x \<and> k \<le> unwrap_or (SeasonCountOf s' p) 0"
    if "SeasonOf s' (p, k) = Some x" for k x
    using that f(9) ok m(1,2) by (auto simp: s' store_simps split: if_splits intro: order_trans)
  show "pool_inv s' p"
    by (rule present_poolI [of s' p c sol tre])
      (use c f tr bk se in \<open>auto simp: s' store_simps\<close>)
qed

lemma open_season_keeps:
  assumes d: "open_season env p s = Inr (i, s')" and inv: "rp_inv s"
  shows "rp_inv s'" and "SeasonOf s (p, i) = None" and "q \<noteq> p \<Longrightarrow> same_pool s s' q"
    and "PoolCount s' = PoolCount s"
proof -
  from d obtain a c closes where h: "PoolConfigOf s p = Some c"
      "checked_uadd (unwrap_or (SeasonCountOf s p) 0) 1 = Some i"
      "s' = rp_publish (SeasonOpened p i (timestamp env) closes)
            (write_season p i
              \<lparr>season_state = Open, opened_at = timestamp env, closes_at = closes,
               premiums_in = 0, payouts_committed = 0, payouts_paid = 0\<rparr>
              (s\<lparr>SeasonCountOf := (SeasonCountOf s)(p \<mapsto> i)\<rparr>))"
    by (rule open_season_ok)
  have gt: "unwrap_or (SeasonCountOf s p) 0 < i" by (rule checked_uadd_1_gt [OF h(2)])
  show none: "SeasonOf s (p, i) = None"
  proof (rule ccontr)
    assume "SeasonOf s (p, i) \<noteq> None"
    then show False using rp_invE [OF inv h(1)] gt by (metis not_Some_eq not_le)
  qed
  show "rp_inv s'"
    by (rule season_write_keeps [OF inv h(1) h(3)])
      (use gt none in \<open>auto simp: season_result_def season_ok_def\<close>)
  show "q \<noteq> p \<Longrightarrow> same_pool s s' q" and "PoolCount s' = PoolCount s"
    by (simp_all add: h(3) same_pool_def store_simps)
qed

lemma transition_season_keeps:
  assumes d: "transition_season env p i x y s = Inr s'" and inv: "rp_inv s"
    and ns: "x \<noteq> Settled" "y \<noteq> Settled"
  shows "rp_inv s'" and "q \<noteq> p \<Longrightarrow> same_pool s s' q" and "PoolCount s' = PoolCount s"
proof -
  from d obtain a se where h: "SeasonOf s (p, i) = Some se" "season_state se = x"
      "s' = rp_publish (SeasonStateChanged p i y) (write_season p i (se\<lparr>season_state := y\<rparr>) s)"
    by (rule transition_season_ok)
  obtain c where c: "PoolConfigOf s p = Some c"
    using pool_inv_season [OF _ h(1)] inv by (auto simp: rp_inv_def)
  have s': "s' = rp_publish (SeasonStateChanged p i y)
      (write_season p i (se\<lparr>season_state := y\<rparr>) (s\<lparr>SeasonCountOf := SeasonCountOf s\<rparr>))"
    by (simp add: h(3))
  have "season_ok se \<and> i \<le> unwrap_or (SeasonCountOf s p) 0"
    using rp_invE [OF inv c] h(1) by metis
  then show "rp_inv s'"
    by (intro season_write_keeps [OF inv c s'])
      (use h ns in \<open>auto simp: season_result_def season_ok_def\<close>)
  show "q \<noteq> p \<Longrightarrow> same_pool s s' q" and "PoolCount s' = PoolCount s"
    by (simp_all add: h(3) same_pool_def store_simps)
qed

section \<open>Settlement\<close>

text \<open>The part of a result no tranche could bear.\<close>

definition unabsorbed :: "RiskPoolStore \<Rightarrow> u64 \<Rightarrow> i128 \<Rightarrow> int" where
  "unabsorbed s p net =
     (if net < 0 then - net - junior_share s p (- net) - senior_share s p (- net) else 0)"

lemma shares_bounds:
  assumes "0 \<le> deposited (read_tranche s p Junior)" "0 \<le> deposited (read_tranche s p Senior)" "0 \<le> loss"
  shows "0 \<le> junior_share s p loss" "junior_share s p loss \<le> deposited (read_tranche s p Junior)"
    "0 \<le> senior_share s p loss" "senior_share s p loss \<le> deposited (read_tranche s p Senior)"
    "junior_share s p loss + senior_share s p loss \<le> loss"
  using assms by (auto simp: junior_share_def senior_share_def min_def)

lemma settle_tranches_effect:
  assumes st: "settle_tranches p net s = Inr s1"
    and ok: "\<And>tier. tranche_ok s p tier"
  shows "tranche_ok s1 p tier"
    and "deposited (read_tranche s1 p Junior) + deposited (read_tranche s1 p Senior) =
         deposited (read_tranche s p Junior) + deposited (read_tranche s p Senior)
         + net + unabsorbed s p net"
    and "0 \<le> unabsorbed s p net"
proof -
  have rc: "read_receipt s1 k = read_receipt s k" for k
    using settle_tranches_frame(7) [OF st] by (simp add: read_receipt_def)
  have pos: "0 \<le> deposited (read_tranche s p x)" "in_i128 (deposited (read_tranche s p x))" for x
    using ok [of x] by (simp_all add: tranche_ok_def)
  note sh = shares_bounds [OF pos(1) pos(1), of "- net"]
  show "tranche_ok s1 p tier"
    using st
  proof (cases rule: settle_tranches_cases)
    case surplus
    let ?J = "read_tranche s p Junior"
    have J: "tranche_ok s1 p Junior"
      using surplus pos(1) [of Junior]
      by (intro tranche_ok_capital [OF ok, where d = "deposited ?J + net"])
        (auto simp: rc credit_junior_surplus_ok store_simps)
    have S: "tranche_ok s1 p Senior"
      using surplus by (intro tranche_ok_same [OF ok])
        (auto simp: rc credit_junior_surplus_ok store_simps)
    show ?thesis using J S by (cases tier) simp_all
  next
    case loss
    note rd = absorb_loss_reads [OF loss(2)]
    have J: "tranche_ok s1 p Junior"
      using sh(1,2) loss(1) pos in_i128_between [OF pos(2) [of Junior]]
      by (intro tranche_ok_capital [OF ok rd(1)]) (simp_all add: rc)
    have S: "tranche_ok s1 p Senior"
      using sh(3,4) loss(1) pos in_i128_between [OF pos(2) [of Senior]]
      by (intro tranche_ok_capital [OF ok rd(2)]) (simp_all add: rc)
    show ?thesis using J S by (cases tier) simp_all
  next
    case even
    with ok show ?thesis by simp
  qed
  show "deposited (read_tranche s1 p Junior) + deposited (read_tranche s1 p Senior) =
         deposited (read_tranche s p Junior) + deposited (read_tranche s p Senior)
         + net + unabsorbed s p net"
    using st by (cases rule: settle_tranches_cases)
      (auto simp: credit_junior_surplus_ok store_simps absorb_loss_reads unabsorbed_def)
  show "0 \<le> unabsorbed s p net"
    using sh(5) by (cases "net < 0") (simp_all add: unabsorbed_def)
qed

lemma settle_season_keeps:
  assumes d: "settle_season env p i s = Inr (net, s')" and inv: "rp_inv s"
  shows "rp_inv s'" and "q \<noteq> p \<Longrightarrow> same_pool s s' q" and "PoolCount s' = PoolCount s"
    and "books s' p = books s p + unabsorbed s p net"
proof -
  from d obtain se s1 where h: "SeasonOf s (p, i) = Some se" "season_state se = Closed"
      "net = premiums_in se - payouts_paid se" "settle_tranches p net s = Inr s1"
      "s' = rp_publish (SeasonSettled p i (premiums_in se) (payouts_paid se) net)
            (write_season p i (se\<lparr>season_state := Settled\<rparr>) s1)"
    by (rule settle_season_ok)
  note fr = settle_tranches_frame [OF h(4)]
  obtain c where c: "PoolConfigOf s p = Some c"
    using pool_inv_season [OF _ h(1)] inv by (auto simp: rp_inv_def)
  obtain sol tre where f: "SolvencyOf s p = Some sol" "TreasuryOf s p = Some tre"
      "validate_config c = Inr ()" "solvency_ok sol" "treasury_ok c tre" "reserves sol \<le> books s p"
      "p \<le> unwrap_or (PoolCount s) 0" "\<forall>tier. tranche_ok s p tier"
      "\<forall>i se. SeasonOf s (p, i) = Some se \<longrightarrow>
        season_ok se \<and> i \<le> unwrap_or (SeasonCountOf s p) 0"
    by (rule rp_invE [OF inv c])
  note eff = settle_tranches_effect [OF h(4) f(8) [rule_format]]
  have tr: "tranche_ok s' p tier" for tier
    by (rule tranche_ok_same [OF eff(1)]) (simp_all add: h(5) store_simps)
  have "open_books s' p = open_books s p - season_result (SeasonOf s (p, i))
      + season_result (SeasonOf s' (p, i))"
    unfolding open_books_def by (rule sum_point_eq) (simp add: h(5) store_simps fr)
  then show bk: "books s' p = books s p + unabsorbed s p net"
    using eff(2) h(1-3) by (simp add: books_def h(5) store_simps season_result_def)
  show fq: "q \<noteq> p \<Longrightarrow> same_pool s s' q" for q
    by (simp add: h(5) same_pool_def store_simps fr)
  show pc: "PoolCount s' = PoolCount s" by (simp add: h(5) store_simps fr)
  have "pool_inv s' p"
    by (rule present_poolI [of s' p c sol tre])
      (use h(1) c f tr bk eff(3) in \<open>auto simp: h(5) store_simps fr season_ok_def split: if_splits\<close>)
  then show "rp_inv s'"
    by (intro rp_inv_local [OF inv fq]) (simp_all add: pc)
qed

end
