(* ===== verification/RiskPool_Run.thy ===== *)
theory RiskPool_Run
  imports RiskPool_Keep
begin

text \<open>
  Runs of the risk pool: the step relation has one rule per entry point that writes, and one for
  the moves of the token ledger that other contracts make between two invocations (\<open>ext\<close>). The
  state machine locale is interpreted on it three times: for the invariant of the store, for the
  custody of the tokens, and (through its relational rule) for what only ever moves forward.
\<close>

section \<open>Steps\<close>

inductive rp_step ::
    "'t transfer_fn \<Rightarrow> ('t \<Rightarrow> 't \<Rightarrow> bool) \<Rightarrow> Address \<Rightarrow>
     RiskPoolStore \<times> 't \<Rightarrow> RiskPoolStore \<times> 't \<Rightarrow> bool"
  for tk ext me where
  rp_set_policy_contract:
    "host_env me env \<Longrightarrow> set_policy_contract env a s = Inr s' \<Longrightarrow> rp_step tk ext me (s, t) (s', t)"
| rp_set_payout_vault:
    "host_env me env \<Longrightarrow> set_payout_vault env a s = Inr s' \<Longrightarrow> rp_step tk ext me (s, t) (s', t)"
| rp_create_pool:
    "host_env me env \<Longrightarrow> create_pool env c s = Inr (i, s') \<Longrightarrow> rp_step tk ext me (s, t) (s', t)"
| rp_deposit:
    "host_env me env \<Longrightarrow> deposit tk env p tier src a s t = Inr (m, s', t') \<Longrightarrow>
     rp_step tk ext me (s, t) (s', t')"
| rp_withdraw:
    "host_env me env \<Longrightarrow> withdraw tk env p tier h r s t = Inr (u, s', t') \<Longrightarrow>
     rp_step tk ext me (s, t) (s', t')"
| rp_open_season:
    "host_env me env \<Longrightarrow> open_season env p s = Inr (i, s') \<Longrightarrow> rp_step tk ext me (s, t) (s', t)"
| rp_activate_season:
    "host_env me env \<Longrightarrow> activate_season env p i s = Inr s' \<Longrightarrow> rp_step tk ext me (s, t) (s', t)"
| rp_close_season:
    "host_env me env \<Longrightarrow> close_season env p i s = Inr s' \<Longrightarrow> rp_step tk ext me (s, t) (s', t)"
| rp_collect_premium:
    "host_env me env \<Longrightarrow> collect_premium tk env p i src a s t = Inr (n, s', t') \<Longrightarrow>
     rp_step tk ext me (s, t) (s', t')"
| rp_refund_premium:
    "host_env me env \<Longrightarrow> refund_premium tk env p i dst a s t = Inr (n, s', t') \<Longrightarrow>
     rp_step tk ext me (s, t) (s', t')"
| rp_pay_out:
    "host_env me env \<Longrightarrow> pay_out tk env p i dst a s t = Inr (n, s', t') \<Longrightarrow>
     rp_step tk ext me (s, t) (s', t')"
| rp_settle_season:
    "host_env me env \<Longrightarrow> settle_season env p i s = Inr (n, s') \<Longrightarrow> rp_step tk ext me (s, t) (s', t)"
| rp_ledger: "ext t t' \<Longrightarrow> rp_step tk ext me (s, t) (s, t')"

inductive_cases rp_stepE: "rp_step tk ext me (s, t) (s', t')"

definition rp_init :: "RiskPoolStore \<times> 't \<Rightarrow> bool" where
  "rp_init st \<longleftrightarrow> (\<exists>a. fst st = rp_constructor a)"

text \<open>The states the deployed contract reaches.\<close>

definition rp_reachable ::
    "'t transfer_fn \<Rightarrow> ('t \<Rightarrow> 't \<Rightarrow> bool) \<Rightarrow> Address \<Rightarrow> RiskPoolStore \<Rightarrow> 't \<Rightarrow> bool" where
  "rp_reachable tk ext me s t \<longleftrightarrow> (\<exists>a t0. (rp_step tk ext me)\<^sup>*\<^sup>* (rp_constructor a, t0) (s, t))"

lemma rp_reachable_step:
  "rp_reachable tk ext me s t \<Longrightarrow> rp_step tk ext me (s, t) (s', t') \<Longrightarrow> rp_reachable tk ext me s' t'"
  unfolding rp_reachable_def by (blast intro: rtranclp.rtrancl_into_rtrancl)

lemma set_policy_contract_Inr [ok_simps]:
  "set_policy_contract env a s = Inr s' \<longleftrightarrow>
     (\<exists>adm. Admin s = Some adm \<and> require_auth env adm) \<and> s' = s\<lparr>PolicyContract := Some a\<rparr>"
  by (auto simp: set_policy_contract_def ok_simps)

lemma set_payout_vault_Inr [ok_simps]:
  "set_payout_vault env a s = Inr s' \<longleftrightarrow>
     (\<exists>adm. Admin s = Some adm \<and> require_auth env adm) \<and> s' = s\<lparr>PayoutVault := Some a\<rparr>"
  by (auto simp: set_payout_vault_def ok_simps)

lemmas season_moves = activate_season_def close_season_def

section \<open>The invariant\<close>

lemma rp_inv_constructor: "rp_inv (rp_constructor a)"
  by (simp add: rp_inv_def pool_inv_def absent_pool_def rp_constructor_def rp_empty_def)

lemma set_policy_contract_keeps:
  "set_policy_contract env a s = Inr s' \<Longrightarrow> rp_inv s \<Longrightarrow> rp_inv s'"
  by (auto simp: set_policy_contract_Inr intro: set_address_keeps)

lemma set_payout_vault_keeps:
  "set_payout_vault env a s = Inr s' \<Longrightarrow> rp_inv s \<Longrightarrow> rp_inv s'"
  by (auto simp: set_payout_vault_Inr intro: set_address_keeps)

lemma activate_season_keeps: "activate_season env p i s = Inr s' \<Longrightarrow> rp_inv s \<Longrightarrow> rp_inv s'"
  by (auto simp: season_moves intro: transition_season_keeps(1))

lemma close_season_keeps: "close_season env p i s = Inr s' \<Longrightarrow> rp_inv s \<Longrightarrow> rp_inv s'"
  by (auto simp: season_moves intro: transition_season_keeps(1))

lemmas rp_keeps = set_policy_contract_keeps set_payout_vault_keeps create_pool_keeps deposit_keeps
  withdraw_keeps open_season_keeps(1) activate_season_keeps close_season_keeps
  collect_premium_keeps refund_premium_keeps pay_out_keeps settle_season_keeps(1)

lemma rp_step_inv: "rp_step tk ext me (s, t) (s', t') \<Longrightarrow> rp_inv s \<Longrightarrow> rp_inv s'"
  by (erule rp_stepE) (blast intro: rp_keeps)+

interpretation rp: state_machine rp_init "rp_step tk ext me" "\<lambda>st. rp_inv (fst st)" for tk ext me
proof
  fix st :: "RiskPoolStore \<times> 'a"
  assume "rp_init st"
  then show "rp_inv (fst st)" by (auto simp: rp_init_def rp_inv_constructor)
next
  fix st st' :: "RiskPoolStore \<times> 'a"
  assume "rp_step tk ext me st st'" and "rp_inv (fst st)"
  then show "rp_inv (fst st')" by (cases st; cases st') (auto intro: rp_step_inv)
qed

lemma rp_reachable_inv: "rp_reachable tk ext me s t \<Longrightarrow> rp_inv s"
  using rp.reachable_inv [of _ tk ext me "(s, t)"]
  by (fastforce simp: rp_reachable_def rp_init_def)

text \<open>What the invariant says of a pool in a reachable state.\<close>

lemma rp_reachableE:
  assumes "rp_reachable tk ext me s t" and "PoolConfigOf s p = Some c"
  obtains sol tre where "SolvencyOf s p = Some sol" "TreasuryOf s p = Some tre"
    "validate_config c = Inr ()" "solvency_ok sol" "treasury_ok c tre" "reserves sol \<le> books s p"
    "p \<le> unwrap_or (PoolCount s) 0" "\<forall>tier. tranche_ok s p tier"
    "\<forall>i se. SeasonOf s (p, i) = Some se \<longrightarrow>
        season_ok se \<and> i \<le> unwrap_or (SeasonCountOf s p) 0"
  using rp_invE [OF rp_reachable_inv [OF assms(1)] assms(2)] .

lemma rp_reachable_solvency:
  assumes "rp_reachable tk ext me s t" and "SolvencyOf s p = Some sol"
  obtains c where "PoolConfigOf s p = Some c" "solvency_ok sol" "reserves sol \<le> books s p"
proof -
  have inv: "rp_inv s" by (rule rp_reachable_inv [OF assms(1)])
  then obtain c where c: "PoolConfigOf s p = Some c"
    using pool_inv_solvency [OF _ assms(2)] by (auto simp: rp_inv_def)
  show ?thesis by (rule rp_solE [OF inv c assms(2)]) (rule that [OF c])
qed

section \<open>What only moves forward\<close>

text \<open>
  Along a run the configuration of a pool never changes, its accrued fees never shrink, and each
  season keeps its window and only advances in its lifecycle; a settled season is never written.
\<close>

definition season_advances :: "Season \<Rightarrow> Season \<Rightarrow> bool" where
  "season_advances x y \<longleftrightarrow> season_state x \<le> season_state y \<and> opened_at y = opened_at x \<and>
     closes_at y = closes_at x \<and> payouts_paid x \<le> payouts_paid y \<and>
     (season_state x = Settled \<longrightarrow> y = x)"

definition rp_forward :: "RiskPoolStore \<times> 't \<Rightarrow> RiskPoolStore \<times> 't \<Rightarrow> bool" where
  "rp_forward st st' \<longleftrightarrow>
     (\<forall>p c. PoolConfigOf (fst st) p = Some c \<longrightarrow> PoolConfigOf (fst st') p = Some c) \<and>
     (\<forall>p x. TreasuryOf (fst st) p = Some x \<longrightarrow> (\<exists>y. TreasuryOf (fst st') p = Some y \<and>
        protocol_fees x \<le> protocol_fees y \<and> publisher_fees x \<le> publisher_fees y)) \<and>
     (\<forall>k x. SeasonOf (fst st) k = Some x \<longrightarrow>
        (\<exists>y. SeasonOf (fst st') k = Some y \<and> season_advances x y))"

lemma season_advances_refl: "season_advances x x"
  by (simp add: season_advances_def)

lemma season_advances_trans: "season_advances x y \<Longrightarrow> season_advances y z \<Longrightarrow> season_advances x z"
  by (auto simp: season_advances_def)

lemma rp_forward_refl: "rp_forward st st"
  by (auto simp: rp_forward_def season_advances_refl)

lemma rp_forward_trans: "rp_forward x y \<Longrightarrow> rp_forward y z \<Longrightarrow> rp_forward x z"
  unfolding rp_forward_def by (meson order_trans season_advances_trans)

lemma rp_step_forward:
  assumes "rp_step tk ext me (s, t) (s', t')" and inv: "rp_inv s"
  shows "rp_forward (s, t) (s', t')"
proof -
  note fs = rp_forward_def season_advances_def less_eq_SeasonState_def store_simps
  have pool: "absent_pool s i" if "create_pool env c s = Inr (i, s')" for env c i
    using create_pool_fresh [OF that inv] .
  have none: "SeasonOf s (p, i) = None" if "open_season env p s = Inr (i, s')" for env p i
    using open_season_keeps(2) [OF that inv] .
  have split: "0 \<le> f \<and> 0 \<le> g" if "PoolConfigOf s p = Some c" "TreasuryOf s p = Some tre" "0 < a"
      "accrue_fee a (protocol_bps (cfg_fee c)) (protocol_fees tre) (protocol_cap (cfg_fee c)) = Inr f"
      "accrue_fee a (publisher_bps (cfg_fee c)) (publisher_fees tre) (publisher_cap (cfg_fee c)) = Inr g"
    for p c tre a f g
    using rp_invE [OF inv that(1)] that premium_split [of a c tre f g] by (metis option.inject)
  from assms(1) show ?thesis
  proof (elim rp_stepE)
    fix env c i
    assume h: "create_pool env c s = Inr (i, s')"
    then show ?thesis using pool [OF h]
      by (auto elim!: create_pool_ok simp: fs absent_pool_def)
  next
    fix env p i
    assume h: "open_season env p s = Inr (i, s')"
    then show ?thesis using none [OF h] by (auto elim!: open_season_ok simp: fs)
  next
    fix env p i src a n
    assume h: "collect_premium tk env p i src a s t = Inr (n, s', t')"
    then show ?thesis using split by (auto elim!: collect_premium_ok simp: fs)
  qed (auto elim!: deposit_ok withdraw_ok transition_season_ok refund_premium_ok pay_out_ok
      settle_season_ok simp: fs set_policy_contract_Inr set_payout_vault_Inr season_moves
      settle_tranches_frame)
qed

lemma rp_run_forward:
  assumes "rp_reachable tk ext me s t" and "(rp_step tk ext me)\<^sup>*\<^sup>* (s, t) (s', t')"
  shows "rp_forward (s, t) (s', t')"
proof (rule rp.run_relates [OF rp_forward_refl rp_forward_trans _ assms(2)])
  show "rp_inv (fst (s, t))" using rp_reachable_inv [OF assms(1)] by simp
  fix x y :: "RiskPoolStore \<times> 'a"
  assume "rp_step tk ext me x y" and "rp_inv (fst x)"
  then show "rp_forward x y" by (cases x; cases y) (auto intro: rp_step_forward)
qed

section \<open>Custody\<close>

text \<open>
  What the contract owes in a token: the reserves and the accrued fees of the pools in it. The
  token ledger holds at least that for the contract, in every reachable state.
\<close>

definition pool_held :: "RiskPoolStore \<Rightarrow> Address \<Rightarrow> u64 \<Rightarrow> int" where
  "pool_held s tok p = (case PoolConfigOf s p of None \<Rightarrow> 0 | Some c \<Rightarrow>
     if cfg_token c = tok then
       (case SolvencyOf s p of None \<Rightarrow> 0 | Some sol \<Rightarrow> reserves sol) +
       (case TreasuryOf s p of None \<Rightarrow> 0 | Some tre \<Rightarrow> protocol_fees tre + publisher_fees tre)
     else 0)"

definition held :: "RiskPoolStore \<Rightarrow> Address \<Rightarrow> int" where
  "held s tok = (\<Sum>p\<in>UNIV. pool_held s tok p)"

definition custody :: "'t balance_fn \<Rightarrow> Address \<Rightarrow> RiskPoolStore \<times> 't \<Rightarrow> bool" where
  "custody bal me st \<longleftrightarrow> (\<forall>tok. held (fst st) tok \<le> bal (snd st) tok me)"

lemma pool_held_cong:
  assumes "PoolConfigOf s' q = PoolConfigOf s q" "SolvencyOf s' q = SolvencyOf s q"
    "TreasuryOf s' q = TreasuryOf s q"
  shows "pool_held s' tok q = pool_held s tok q"
  using assms by (auto simp: pool_held_def split: option.split)

lemma pool_held_same: "same_pool s s' q \<Longrightarrow> pool_held s' tok q = pool_held s tok q"
  by (auto simp: pool_held_def same_pool_def split: option.split)

lemma custody_move:
  assumes cu: "custody bal me (s, t)" and off: "\<And>q. q \<noteq> p \<Longrightarrow> same_pool s s' q"
    and at: "\<And>tok. pool_held s' tok p - pool_held s tok p \<le> bal t' tok me - bal t tok me"
  shows "custody bal me (s', t')"
  unfolding custody_def
proof
  fix tok
  have "held s' tok = held s tok - pool_held s tok p + pool_held s' tok p"
    unfolding held_def by (rule sum_point_eq) (simp add: off pool_held_same)
  moreover have "held s tok \<le> bal t tok me" using cu by (simp add: custody_def)
  ultimately show "held (fst (s', t')) tok \<le> bal (snd (s', t')) tok me"
    using at [of tok] by simp
qed

lemma custody_same:
  assumes "custody bal me (s, t)" and "\<And>q. q \<noteq> p \<Longrightarrow> same_pool s s' q"
    and "\<And>tok. pool_held s' tok p = pool_held s tok p"
  shows "custody bal me (s', t)"
  using assms by (intro custody_move [of bal me s t p s' t]) simp_all

lemma deposit_custody:
  assumes sac: "sac_transfer tk bal" and env: "host_env me env"
    and d: "deposit tk env p tier src a s t = Inr (m, s', t')" and cu: "custody bal me (s, t)"
    and inv: "rp_inv s"
  shows "custody bal me (s', t')"
proof (rule custody_move [OF cu, of p])
  show "q \<noteq> p \<Longrightarrow> same_pool s s' q" for q by (rule deposit_frame(1) [OF d])
  show "pool_held s' tok p - pool_held s tok p \<le> bal t' tok me - bal t tok me" for tok
    using d
  proof (rule deposit_ok)
    fix c sol tr
    assume h: "require_auth env src" "PoolConfigOf s p = Some c" "SolvencyOf s p = Some sol"
      "tk (call_env env (cfg_token c)) (cfg_token c) src (current_contract env) a t = Some t'"
      "s' = rp_publish (Deposited p tier src a m)
            (write_solvency p (sol\<lparr>reserves := reserves sol + a\<rparr>)
              (write_receipt (p, tier, src) (read_receipt s (p, tier, src) + m)
                (write_tranche p tier
                  \<lparr>deposited = deposited tr + a, receipt_supply = receipt_supply tr + m\<rparr> s)))"
    have "src \<noteq> me" by (rule host_env_not_me [OF env h(1)])
    moreover have "current_contract env = me" using env by (simp add: host_env_def)
    ultimately show ?thesis
      using sac_transferD [OF sac h(4), of tok me] h(2,3)
      by (simp add: h(5) pool_held_def store_simps split: option.split)
  qed
qed

lemma withdraw_custody:
  assumes sac: "sac_transfer tk bal" and env: "host_env me env"
    and d: "withdraw tk env p tier holder r s t = Inr (u, s', t')" and cu: "custody bal me (s, t)"
  shows "custody bal me (s', t')"
proof (rule custody_move [OF cu, of p])
  show "q \<noteq> p \<Longrightarrow> same_pool s s' q" for q by (rule withdraw_frame(1) [OF d])
  show "pool_held s' tok p - pool_held s tok p \<le> bal t' tok me - bal t tok me" for tok
    using d
  proof (rule withdraw_ok)
    fix c sol tr
    assume h: "0 < u" "PoolConfigOf s p = Some c" "SolvencyOf s p = Some sol"
      "tk (call_env env (cfg_token c)) (cfg_token c) (current_contract env) holder u t = Some t'"
      "s' = rp_publish (Withdrawn p tier holder r u)
            (write_solvency p (sol\<lparr>reserves := reserves sol - u\<rparr>)
              (write_receipt (p, tier, holder) (read_receipt s (p, tier, holder) - r)
                (write_tranche p tier
                  \<lparr>deposited = deposited tr - u, receipt_supply = receipt_supply tr - r\<rparr> s)))"
    have "current_contract env = me" using env by (simp add: host_env_def)
    then show ?thesis
      using sac_transferD [OF sac h(4), of tok me] h(1-3)
      by (simp add: h(5) pool_held_def store_simps split: option.split)
  qed
qed

lemma collect_premium_custody:
  assumes sac: "sac_transfer tk bal" and env: "host_env me env"
    and d: "collect_premium tk env p i src a s t = Inr (n, s', t')" and cu: "custody bal me (s, t)"
  shows "custody bal me (s', t')"
proof (rule custody_move [OF cu, of p])
  show "q \<noteq> p \<Longrightarrow> same_pool s s' q" for q by (rule collect_premium_frame(1) [OF d])
  show "pool_held s' tok p - pool_held s tok p \<le> bal t' tok me - bal t tok me" for tok
    using d
  proof (rule collect_premium_ok)
    fix c se tre sol f g
    assume h: "require_auth env src" "PoolConfigOf s p = Some c" "SolvencyOf s p = Some sol"
      "TreasuryOf s p = Some tre" "n = a - f - g"
      "tk (call_env env (cfg_token c)) (cfg_token c) src (current_contract env) a t = Some t'"
      "s' = rp_publish (PremiumCollected p i src a n f g)
            (write_solvency p (sol\<lparr>reserves := reserves sol + n\<rparr>)
              (write_season p i (se\<lparr>premiums_in := premiums_in se + n\<rparr>)
                (write_treasury p
                  \<lparr>protocol_fees = protocol_fees tre + f, publisher_fees = publisher_fees tre + g\<rparr>
                  s)))"
    have "src \<noteq> me" by (rule host_env_not_me [OF env h(1)])
    moreover have "current_contract env = me" using env by (simp add: host_env_def)
    ultimately show ?thesis
      using sac_transferD [OF sac h(6), of tok me] h(2-5)
      by (simp add: h(7) pool_held_def store_simps split: option.split)
  qed
qed

text \<open>A refund and a payout both send \<open>n\<close> and take \<open>n\<close> off the reserves.\<close>

lemma outflow_custody:
  assumes sac: "sac_transfer tk bal" and env: "host_env me env" and cu: "custody bal me (s, t)"
    and h: "PoolConfigOf s p = Some c" "SolvencyOf s p = Some sol" "0 < n"
      "tk (call_env env (cfg_token c)) (cfg_token c) (current_contract env) dst n t = Some t'"
      "s' = rp_publish e (write_solvency p (sol\<lparr>reserves := reserves sol - n\<rparr>)
              (write_season p i se' s))"
  shows "custody bal me (s', t')"
proof (rule custody_move [OF cu, of p])
  show "q \<noteq> p \<Longrightarrow> same_pool s s' q" for q by (simp add: h(5) same_pool_def store_simps)
  have "current_contract env = me" using env by (simp add: host_env_def)
  then show "pool_held s' tok p - pool_held s tok p \<le> bal t' tok me - bal t tok me" for tok
    using sac_transferD [OF sac h(4), of tok me] h(1-3)
    by (simp add: h(5) pool_held_def store_simps split: option.split)
qed

lemma refund_premium_custody:
  assumes "sac_transfer tk bal" "host_env me env" "custody bal me (s, t)"
    and d: "refund_premium tk env p i dst n s t = Inr (v, s', t')"
  shows "custody bal me (s', t')"
  using d by (rule refund_premium_ok) (rule outflow_custody [OF assms(1-3)])

lemma pay_out_custody:
  assumes "sac_transfer tk bal" "host_env me env" "custody bal me (s, t)"
    and d: "pay_out tk env p i dst n s t = Inr (v, s', t')"
  shows "custody bal me (s', t')"
  using d by (rule pay_out_ok) (rule outflow_custody [OF assms(1-3)])

text \<open>The remaining entry points move no tokens and leave what is owed as it is.\<close>

lemma quiet_custody:
  assumes "rp_inv s" and "custody bal me (s, t)"
  shows "create_pool env c s = Inr (i, s') \<Longrightarrow> custody bal me (s', t)"
    and "open_season env p s = Inr (i, s') \<Longrightarrow> custody bal me (s', t)"
    and "transition_season env p i x y s = Inr s' \<Longrightarrow> custody bal me (s', t)"
    and "settle_season env p i s = Inr (n, s') \<Longrightarrow> custody bal me (s', t)"
proof -
  assume h: "create_pool env c s = Inr (i, s')"
  show "custody bal me (s', t)"
    using assms(2) create_pool_frame(1) [OF h]
    by (rule custody_same)
      (use h create_pool_fresh [OF h assms(1)] in
        \<open>auto elim!: create_pool_ok simp: pool_held_def store_simps absent_pool_def\<close>)
next
  assume h: "open_season env p s = Inr (i, s')"
  show "custody bal me (s', t)"
    using assms(2) open_season_keeps(3) [OF h assms(1)]
    by (rule custody_same) (use h in \<open>auto elim!: open_season_ok intro!: pool_held_cong simp: store_simps\<close>)
next
  assume h: "transition_season env p i x y s = Inr s'"
  show "custody bal me (s', t)"
    using assms(2)
    by (rule custody_same [of bal me s t p])
      (use h in \<open>auto elim!: transition_season_ok intro!: pool_held_cong
        simp: same_pool_def store_simps\<close>)
next
  assume h: "settle_season env p i s = Inr (n, s')"
  show "custody bal me (s', t)"
    using assms(2) settle_season_keeps(2) [OF h assms(1)]
    by (rule custody_same)
      (use h in \<open>auto elim!: settle_season_ok intro!: pool_held_cong
        simp: store_simps settle_tranches_frame\<close>)
qed

lemma custody_address:
  "custody bal me (s\<lparr>PolicyContract := x\<rparr>, t) = custody bal me (s, t)"
  "custody bal me (s\<lparr>PayoutVault := x\<rparr>, t) = custody bal me (s, t)"
proof -
  have "pool_held (s\<lparr>PolicyContract := x\<rparr>) tok p = pool_held s tok p"
    and "pool_held (s\<lparr>PayoutVault := x\<rparr>) tok p = pool_held s tok p" for tok p
    by (rule pool_held_cong; simp)+
  then show "custody bal me (s\<lparr>PolicyContract := x\<rparr>, t) = custody bal me (s, t)"
    and "custody bal me (s\<lparr>PayoutVault := x\<rparr>, t) = custody bal me (s, t)"
    by (simp_all add: custody_def held_def)
qed

lemma rp_step_custody:
  assumes sac: "sac_transfer tk bal" and ext: "\<And>x y tok. ext x y \<Longrightarrow> bal x tok me \<le> bal y tok me"
    and st: "rp_step tk ext me (s, t) (s', t')" and inv: "rp_inv s" and cu: "custody bal me (s, t)"
  shows "custody bal me (s', t')"
proof -
  note keep = deposit_custody [OF sac _ _ cu inv] withdraw_custody [OF sac _ _ cu]
    collect_premium_custody [OF sac _ _ cu] refund_premium_custody [OF sac _ cu]
    pay_out_custody [OF sac _ cu] quiet_custody [OF inv cu]
  show ?thesis
    using st
  proof (elim rp_stepE)
    assume "s' = s" "ext t t'"
    then show ?thesis using cu ext unfolding custody_def by (auto intro: order_trans)
  qed (use cu in \<open>(simp add: custody_address set_policy_contract_Inr set_payout_vault_Inr season_moves;
         fail) | (simp only: season_moves, blast intro: keep) | (blast intro: keep)\<close>)+
qed

lemma rp_run_custody:
  assumes sac: "sac_transfer tk bal" and ext: "\<And>x y tok. ext x y \<Longrightarrow> bal x tok me \<le> bal y tok me"
    and start: "\<And>tok. 0 \<le> bal t0 tok me"
    and run: "(rp_step tk ext me)\<^sup>*\<^sup>* (rp_constructor a, t0) (s, t)"
  shows "custody bal me (s, t)"
proof -
  have none: "pool_held (rp_constructor a) tok p = 0" for tok p
    by (simp add: pool_held_def rp_constructor_def rp_empty_def)
  have "state_machine (\<lambda>x. x = (rp_constructor a, t0)) (rp_step tk ext me)
      (\<lambda>x. rp_inv (fst x) \<and> custody bal me x)"
  proof
    fix x assume "x = (rp_constructor a, t0)"
    then show "rp_inv (fst x) \<and> custody bal me x"
      using start by (simp add: rp_inv_constructor custody_def held_def none)
  next
    fix x y assume "rp_step tk ext me x y" and "rp_inv (fst x) \<and> custody bal me x"
    then show "rp_inv (fst y) \<and> custody bal me y"
      using rp_step_inv rp_step_custody [of tk bal ext me, OF sac ext]
      by (cases x; cases y) auto
  qed
  from state_machine.reachable_inv [OF this refl run] show ?thesis by simp
qed

end
