(* ===== verification/Demo_Parties.thy ===== *)
theory Demo_Parties
  imports Host
begin

text \<open>
  The parties of the concrete runs that witness the theorems: two accounts, the five contracts and
  a token. The ledger of token balances of these runs is the \<open>book\<close> of the theory Host.
\<close>

definition demo_admin :: Address where "demo_admin = AccountId 1"
definition demo_farmer :: Address where "demo_farmer = AccountId 2"
definition demo_pool :: Address where "demo_pool = ContractId 1"
definition demo_policy :: Address where "demo_policy = ContractId 2"
definition demo_vault :: Address where "demo_vault = ContractId 3"
definition demo_oracle :: Address where "demo_oracle = ContractId 4"
definition demo_engine :: Address where "demo_engine = ContractId 5"
definition demo_token :: Address where "demo_token = ContractId 9"

text \<open>Every account signs; a contract authorizes only what it calls itself.\<close>

definition demo_signed :: "Address \<Rightarrow> Address \<Rightarrow> bool" where
  "demo_signed c a = (case a of AccountId _ \<Rightarrow> True | ContractId _ \<Rightarrow> False)"

lemmas demo_addresses = demo_admin_def demo_farmer_def demo_pool_def demo_policy_def
  demo_vault_def demo_oracle_def demo_engine_def demo_token_def

end
