(* ===== verification/RiskPool_Demo.thy ===== *)
theory RiskPool_Demo
  imports RiskPool_Run Demo_Parties
begin

text \<open>
  One concrete run of the risk pool, used to witness the theorems: a pool with fees is created,
  a junior deposit is made, a season is opened and activated, a premium is collected, a payout is
  released, and the season is closed and settled at a loss that takes the whole junior capital. The token is the ledger of balances
  of the theory Host.
\<close>

definition demo_env :: "u64 \<Rightarrow> Address option \<Rightarrow> Env" where
  "demo_env now caller = \<lparr>timestamp = now, current_contract = demo_pool, invoker = caller,
     signed = demo_signed\<rparr>"

definition demo_config :: PoolConfig where
  "demo_config = \<lparr>cfg_token = demo_token, cfg_regions = [''KE_NAK''], cfg_season_length = 100,
     cfg_premium = \<lparr>base_bps = 100, coverage_slope_bps = 10\<rparr>,
     cfg_tranche = \<lparr>junior_cap = 0, senior_cap = 5000\<rparr>,
     cfg_fee = \<lparr>protocol_bps = 500, publisher_bps = 200, protocol_cap = 20, publisher_cap = 0\<rparr>,
     cfg_transferable = False\<rparr>"

text \<open>The ledger at the start: the farmer holds ten thousand units of the token.\<close>

definition demo_ledger :: book where
  "demo_ledger = (\<lambda>tok a. if tok = demo_token \<and> a = demo_farmer then 10000 else 0)"

definition demo_pay :: "Address \<Rightarrow> Address \<Rightarrow> i128 \<Rightarrow> book \<Rightarrow> book" where
  "demo_pay src dst amt t = (\<lambda>tok a. t tok a - (if tok = demo_token \<and> a = src then amt else 0)
                                            + (if tok = demo_token \<and> a = dst then amt else 0))"

definition demo_ext :: "book \<Rightarrow> book \<Rightarrow> bool" where
  "demo_ext t t' \<longleftrightarrow> False"

lemmas demo_defs = demo_addresses demo_signed_def demo_env_def demo_config_def call_env_def
  require_auth_def host_env_def no_self_auth_def

section \<open>The stores of the run\<close>

definition demo1 :: RiskPoolStore where
  "demo1 = (rp_constructor demo_admin)
     \<lparr>PolicyContract := Some demo_policy, PayoutVault := Some demo_vault\<rparr>"

definition demo2 :: RiskPoolStore where
  "demo2 = rp_publish (PoolCreated 1)
     (write_treasury 1 \<lparr>protocol_fees = 0, publisher_fees = 0\<rparr>
       (write_solvency 1 \<lparr>reserves = 0, committed = 0\<rparr>
         (write_tranche 1 Senior \<lparr>deposited = 0, receipt_supply = 0\<rparr>
           (write_tranche 1 Junior \<lparr>deposited = 0, receipt_supply = 0\<rparr>
             (demo1\<lparr>PoolCount := Some 1, PoolConfigOf := (PoolConfigOf demo1)(1 \<mapsto> demo_config)\<rparr>)))))"

definition demo3 :: RiskPoolStore where
  "demo3 = rp_publish (Deposited 1 Junior demo_farmer 1000 1000)
     (write_solvency 1 \<lparr>reserves = 1000, committed = 0\<rparr>
       (write_receipt (1, Junior, demo_farmer) 1000
         (write_tranche 1 Junior \<lparr>deposited = 1000, receipt_supply = 1000\<rparr> demo2)))"

definition demo_season :: "SeasonState \<Rightarrow> i128 \<Rightarrow> i128 \<Rightarrow> Season" where
  "demo_season st prem paid = \<lparr>season_state = st, opened_at = 10, closes_at = 110,
     premiums_in = prem, payouts_committed = 0, payouts_paid = paid\<rparr>"

definition demo4 :: RiskPoolStore where
  "demo4 = rp_publish (SeasonOpened 1 1 10 110)
     (write_season 1 1 (demo_season Open 0 0)
       (demo3\<lparr>SeasonCountOf := (SeasonCountOf demo3)(1 \<mapsto> 1)\<rparr>))"

definition demo5 :: RiskPoolStore where
  "demo5 = rp_publish (SeasonStateChanged 1 1 Active)
     (write_season 1 1 (demo_season Active 0 0) demo4)"

text \<open>A premium of 500: a protocol fee of 25 cut to its cap of 20, a publisher fee of 10.\<close>

definition demo6 :: RiskPoolStore where
  "demo6 = rp_publish (PremiumCollected 1 1 demo_farmer 500 470 20 10)
     (write_solvency 1 \<lparr>reserves = 1470, committed = 0\<rparr>
       (write_season 1 1 (demo_season Active 470 0)
         (write_treasury 1 \<lparr>protocol_fees = 20, publisher_fees = 10\<rparr> demo5)))"

definition demo7 :: RiskPoolStore where
  "demo7 = rp_publish (PayoutReleased 1 1 demo_vault 1470)
     (write_solvency 1 \<lparr>reserves = 0, committed = 0\<rparr>
       (write_season 1 1 (demo_season Active 470 1470) demo6))"

definition demo8 :: RiskPoolStore where
  "demo8 = rp_publish (SeasonStateChanged 1 1 Closed)
     (write_season 1 1 (demo_season Closed 470 1470) demo7)"

text \<open>The loss of 1000 is borne by the junior tranche, whose capital it exhausts.\<close>

definition demo9 :: RiskPoolStore where
  "demo9 = rp_publish (SeasonSettled 1 1 470 1470 (- 1000))
     (write_season 1 1 (demo_season Settled 470 1470)
       (write_tranche 1 Junior \<lparr>deposited = 0, receipt_supply = 1000\<rparr> demo8))"

definition demo_ledger3 :: book where "demo_ledger3 = demo_pay demo_farmer demo_pool 1000 demo_ledger"
definition demo_ledger6 :: book where "demo_ledger6 = demo_pay demo_farmer demo_pool 500 demo_ledger3"
definition demo_ledger7 :: book where "demo_ledger7 = demo_pay demo_pool demo_vault 1470 demo_ledger6"

section \<open>What the stores hold\<close>

lemma demo2_reads:
  "Admin demo2 = Some demo_admin" "PoolConfigOf demo2 1 = Some demo_config"
  "SolvencyOf demo2 1 = Some \<lparr>reserves = 0, committed = 0\<rparr>"
  "TreasuryOf demo2 1 = Some \<lparr>protocol_fees = 0, publisher_fees = 0\<rparr>"
  "read_tranche demo2 1 tier = \<lparr>deposited = 0, receipt_supply = 0\<rparr>"
  "read_receipt demo2 k = 0" "SeasonCountOf demo2 1 = None"
  "PolicyContract demo2 = Some demo_policy" "PayoutVault demo2 = Some demo_vault"
  by (cases tier; simp add: demo2_def demo1_def rp_constructor_def rp_empty_def store_simps
      read_receipt_def)+

lemma demo3_reads:
  "Admin demo3 = Some demo_admin" "PoolConfigOf demo3 1 = Some demo_config"
  "SolvencyOf demo3 1 = Some \<lparr>reserves = 1000, committed = 0\<rparr>"
  "TreasuryOf demo3 1 = Some \<lparr>protocol_fees = 0, publisher_fees = 0\<rparr>"
  "read_tranche demo3 1 Junior = \<lparr>deposited = 1000, receipt_supply = 1000\<rparr>"
  "read_receipt demo3 (1, Junior, demo_farmer) = 1000" "SeasonCountOf demo3 1 = None"
  by (simp_all add: demo3_def demo2_reads store_simps)

lemma demo5_reads:
  "Admin demo5 = Some demo_admin" "PoolConfigOf demo5 1 = Some demo_config"
  "SolvencyOf demo5 1 = Some \<lparr>reserves = 1000, committed = 0\<rparr>"
  "TreasuryOf demo5 1 = Some \<lparr>protocol_fees = 0, publisher_fees = 0\<rparr>"
  "SeasonOf demo5 (1, 1) = Some (demo_season Active 0 0)"
  "SeasonOf demo4 (1, 1) = Some (demo_season Open 0 0)" "Admin demo4 = Some demo_admin"
  by (simp_all add: demo5_def demo4_def demo3_reads store_simps)

lemma demo6_reads:
  "Admin demo6 = Some demo_admin" "PoolConfigOf demo6 1 = Some demo_config"
  "SolvencyOf demo6 1 = Some \<lparr>reserves = 1470, committed = 0\<rparr>"
  "TreasuryOf demo6 1 = Some \<lparr>protocol_fees = 20, publisher_fees = 10\<rparr>"
  "SeasonOf demo6 (1, 1) = Some (demo_season Active 470 0)"
  "PayoutVault demo6 = Some demo_vault" "PolicyContract demo6 = Some demo_policy"
  by (simp_all add: demo6_def demo5_reads store_simps)
    (simp_all add: demo5_def demo4_def demo3_def store_simps demo2_reads)

lemma demo6_tranches:
  "read_tranche demo6 1 Junior = \<lparr>deposited = 1000, receipt_supply = 1000\<rparr>"
  "read_tranche demo6 1 Senior = \<lparr>deposited = 0, receipt_supply = 0\<rparr>"
proof -
  have "TrancheOf demo6 = TrancheOf demo3"
    by (simp add: demo6_def demo5_def demo4_def store_simps)
  then show "read_tranche demo6 1 Junior = \<lparr>deposited = 1000, receipt_supply = 1000\<rparr>"
    and "read_tranche demo6 1 Senior = \<lparr>deposited = 0, receipt_supply = 0\<rparr>"
    using demo3_reads(5) demo2_reads(5) [of Senior]
    by (simp_all add: read_tranche_def demo3_def store_simps)
qed

lemma demo8_reads:
  "Admin demo7 = Some demo_admin" "SeasonOf demo7 (1, 1) = Some (demo_season Active 470 1470)"
  "SolvencyOf demo7 1 = Some \<lparr>reserves = 0, committed = 0\<rparr>"
  "Admin demo8 = Some demo_admin" "SeasonOf demo8 (1, 1) = Some (demo_season Closed 470 1470)"
  "PoolConfigOf demo8 1 = Some demo_config"
  "SolvencyOf demo8 1 = Some \<lparr>reserves = 0, committed = 0\<rparr>"
  "read_tranche demo8 1 Junior = \<lparr>deposited = 1000, receipt_supply = 1000\<rparr>"
  "read_tranche demo8 1 Senior = \<lparr>deposited = 0, receipt_supply = 0\<rparr>"
  by (simp_all add: demo7_def demo8_def demo6_reads store_simps)
    (simp_all add: demo6_def demo5_def demo4_def demo3_def demo2_reads store_simps read_tranche_def,
     simp_all add: demo2_def store_simps)

section \<open>The run\<close>

lemma demo_create_pool: "create_pool (demo_env 5 None) demo_config demo1 = Inr (1, demo2)"
  by (simp add: create_pool_def rp_guards require_stored_def demo1_def demo2_def rp_constructor_def
      rp_empty_def demo_defs validate_config_def checked_uadd_def Let_def word_less_def)

lemma demo_deposit:
  "deposit book_transfer (demo_env 6 None) 1 Junior demo_farmer 1000 demo2 demo_ledger
     = Inr (1000, demo3, demo_ledger3)"
  by (simp add: deposit_def rp_reads demo2_reads demo_defs book_transfer_def Let_def
      checked_add_def checked_def in_i128_def store_simps demo_ledger_def demo3_def demo_ledger3_def
      demo_pay_def)

lemma demo_open: "open_season (demo_env 10 None) 1 demo3 = Inr (1, demo4)"
  by (simp add: open_season_def rp_guards require_stored_def rp_reads demo3_reads demo_defs
      checked_uadd_def Let_def demo4_def demo_season_def)

lemma demo_activate: "activate_season (demo_env 11 None) 1 1 demo4 = Inr demo5"
  by (simp add: season_moves transition_season_def rp_guards require_stored_def rp_reads
      demo5_reads demo_defs Let_def demo5_def demo_season_def)

lemma demo_collect:
  "collect_premium book_transfer (demo_env 12 None) 1 1 demo_farmer 500 demo5 demo_ledger3
     = Inr (470, demo6, demo_ledger6)"
  by (simp add: collect_premium_def rp_reads demo5_reads demo_defs book_transfer_def Let_def
      accrue_fee_def apply_bps_def BPS_DENOMINATOR_def checked_add_def checked_sub_def checked_mul_def
      checked_div_def checked_def in_i128_def store_simps demo_ledger_def demo_ledger3_def
      demo_ledger6_def demo_pay_def demo_season_def demo6_def)

lemma demo_pay_out:
  "pay_out book_transfer (demo_env 20 (Some demo_vault)) 1 1 demo_vault 1470 demo6 demo_ledger6
     = Inr (1470, demo7, demo_ledger7)"
  by (simp add: pay_out_def rp_guards require_stored_def rp_reads demo6_reads demo_defs
      book_transfer_def Let_def checked_add_def checked_sub_def checked_def in_i128_def store_simps
      demo_ledger_def demo_ledger3_def demo_ledger6_def demo_ledger7_def demo_pay_def
      demo_season_def demo7_def)

lemma demo_close: "close_season (demo_env 120 None) 1 1 demo7 = Inr demo8"
  by (simp add: season_moves transition_season_def rp_guards require_stored_def rp_reads
      demo8_reads demo_defs Let_def demo8_def demo_season_def)

lemma demo_settle: "settle_season (demo_env 121 None) 1 1 demo8 = Inr (- 1000, demo9)"
  by (simp add: settle_season_def rp_guards require_stored_def rp_reads demo8_reads demo_defs Let_def
      absorb_loss_def checked_sub_def checked_neg_def checked_def in_i128_def store_simps
      demo_season_def demo9_def)

lemma demo_host_env: "host_env demo_pool (demo_env now None)"
  "host_env demo_pool (demo_env now (Some demo_vault))"
  "host_env demo_pool (demo_env now (Some demo_policy))"
  by (simp_all add: demo_defs)

abbreviation demo_runs_to :: "RiskPoolStore \<Rightarrow> book \<Rightarrow> bool" where
  "demo_runs_to s t \<equiv> (rp_step book_transfer demo_ext demo_pool)\<^sup>*\<^sup>*
     (rp_constructor demo_admin, demo_ledger) (s, t)"

lemma demo_runs:
  "demo_runs_to demo2 demo_ledger" "demo_runs_to demo3 demo_ledger3" "demo_runs_to demo6 demo_ledger6"
  "demo_runs_to demo8 demo_ledger7" "demo_runs_to demo9 demo_ledger7" "demo_runs_to demo5 demo_ledger3"
proof -
  let ?S = "rp_step book_transfer demo_ext demo_pool"
  let ?s0 = "rp_constructor demo_admin"
  have "?S (?s0, demo_ledger) (?s0\<lparr>PolicyContract := Some demo_policy\<rparr>, demo_ledger)"
    by (rule rp_set_policy_contract [OF demo_host_env(1) [of 1]])
      (simp add: set_policy_contract_Inr rp_constructor_def rp_empty_def demo_defs)
  moreover have "?S (?s0\<lparr>PolicyContract := Some demo_policy\<rparr>, demo_ledger) (demo1, demo_ledger)"
    by (rule rp_set_payout_vault [OF demo_host_env(1) [of 2]])
      (simp add: set_payout_vault_Inr rp_constructor_def rp_empty_def demo_defs demo1_def)
  ultimately have 1: "?S\<^sup>*\<^sup>* (?s0, demo_ledger) (demo1, demo_ledger)" by simp
  note 2 = rtranclp.rtrancl_into_rtrancl [OF 1 rp_create_pool [OF demo_host_env(1) demo_create_pool]]
  note 3 = rtranclp.rtrancl_into_rtrancl [OF 2 rp_deposit [OF demo_host_env(1) demo_deposit]]
  note 4 = rtranclp.rtrancl_into_rtrancl [OF 3 rp_open_season [OF demo_host_env(1) demo_open]]
  note 5 = rtranclp.rtrancl_into_rtrancl [OF 4 rp_activate_season [OF demo_host_env(1) demo_activate]]
  note 6 = rtranclp.rtrancl_into_rtrancl [OF 5 rp_collect_premium [OF demo_host_env(1) demo_collect]]
  note 7 = rtranclp.rtrancl_into_rtrancl [OF 6 rp_pay_out [OF demo_host_env(2) demo_pay_out]]
  note 8 = rtranclp.rtrancl_into_rtrancl [OF 7 rp_close_season [OF demo_host_env(1) demo_close]]
  note 9 = rtranclp.rtrancl_into_rtrancl [OF 8 rp_settle_season [OF demo_host_env(1) demo_settle]]
  show "demo_runs_to demo2 demo_ledger" by (rule 2)
  show "demo_runs_to demo3 demo_ledger3" by (rule 3)
  show "demo_runs_to demo6 demo_ledger6" by (rule 6)
  show "demo_runs_to demo8 demo_ledger7" by (rule 8)
  show "demo_runs_to demo9 demo_ledger7" by (rule 9)
  show "demo_runs_to demo5 demo_ledger3" by (rule 5)
qed

lemma demo_reachable:
  "rp_reachable book_transfer demo_ext demo_pool demo2 demo_ledger"
  "rp_reachable book_transfer demo_ext demo_pool demo3 demo_ledger3"
  "rp_reachable book_transfer demo_ext demo_pool demo6 demo_ledger6"
  "rp_reachable book_transfer demo_ext demo_pool demo8 demo_ledger7"
  "rp_reachable book_transfer demo_ext demo_pool demo9 demo_ledger7"
  "rp_reachable book_transfer demo_ext demo_pool demo5 demo_ledger3"
  unfolding rp_reachable_def using demo_runs by blast+

section \<open>A second deposit and its withdrawal\<close>

text \<open>Instead of opening a season the farmer deposits 7 more and withdraws them again.\<close>

lemmas demo_value_moves = deposit_def withdraw_def rp_reads demo_defs Let_def mul_div_def
  book_transfer_def checked_arith demo_pay_def demo_ledger_def demo_ledger3_def

definition demo3a :: RiskPoolStore where
  "demo3a = rp_publish (Deposited 1 Junior demo_farmer 7 7)
     (write_solvency 1 \<lparr>reserves = 1007, committed = 0\<rparr>
       (write_receipt (1, Junior, demo_farmer) 1007
         (write_tranche 1 Junior \<lparr>deposited = 1007, receipt_supply = 1007\<rparr> demo3)))"

definition demo3b :: RiskPoolStore where
  "demo3b = rp_publish (Withdrawn 1 Junior demo_farmer 7 7)
     (write_solvency 1 \<lparr>reserves = 1000, committed = 0\<rparr>
       (write_receipt (1, Junior, demo_farmer) 1000
         (write_tranche 1 Junior \<lparr>deposited = 1000, receipt_supply = 1000\<rparr> demo3a)))"

definition demo_ledger3a :: book where "demo_ledger3a = demo_pay demo_farmer demo_pool 7 demo_ledger3"
definition demo_ledger3b :: book where "demo_ledger3b = demo_pay demo_pool demo_farmer 7 demo_ledger3a"

lemma demo3a_reads:
  "PoolConfigOf demo3a 1 = Some demo_config"
  "SolvencyOf demo3a 1 = Some \<lparr>reserves = 1007, committed = 0\<rparr>"
  "read_tranche demo3a 1 Junior = \<lparr>deposited = 1007, receipt_supply = 1007\<rparr>"
  "read_receipt demo3a (1, Junior, demo_farmer) = 1007"
  by (simp_all add: demo3a_def demo3_reads store_simps)

lemma demo_deposit_more:
  "deposit book_transfer (demo_env 7 None) 1 Junior demo_farmer 7 demo3 demo_ledger3
     = Inr (7, demo3a, demo_ledger3a)"
  using demo3_reads(6)
  by (simp add: demo_value_moves demo3_reads store_simps demo3a_def demo_ledger3a_def)

lemma demo_withdraw:
  "withdraw book_transfer (demo_env 8 None) 1 Junior demo_farmer 7 demo3a demo_ledger3a
     = Inr (7, demo3b, demo_ledger3b)"
  using demo3a_reads(4)
  by (simp add: demo_value_moves demo3a_reads store_simps demo3b_def demo_ledger3a_def
      demo_ledger3b_def)

lemma demo_reachable_more:
  "rp_reachable book_transfer demo_ext demo_pool demo3a demo_ledger3a"
  by (rule rp_reachable_step [OF demo_reachable(2) rp_deposit [OF demo_host_env(1) demo_deposit_more]])

end
