(* ===== verification/RiskPool_Props.thy ===== *)
theory RiskPool_Props
  imports RiskPool_Demo
begin

text \<open>
  The properties of the risk pool, each with a witness on the concrete run of RiskPool_Demo.
\<close>

section \<open>Invariants of every reachable state\<close>

text \<open>Solvency (FR-POOL-5): in every reachable state of the contract the reserves of a pool
  cover its committed payouts, whatever the token contract does and whoever calls.\<close>

theorem solvency_invariant:
  assumes "rp_reachable tk ext me s t" and "SolvencyOf s p = Some sol"
  shows "0 \<le> committed sol \<and> committed sol \<le> reserves sol"
  using assms by (rule rp_reachable_solvency) (simp add: solvency_ok_def)

theorem solvency_invariant_witness:
  "SolvencyOf demo6 1 = Some \<lparr>reserves = 1470, committed = 0\<rparr> \<and> (0::i128) \<le> 0 \<and> (0::i128) \<le> 1470"
  using solvency_invariant [OF demo_reachable(3) demo6_reads(3)] demo6_reads(3) by simp

text \<open>Custody: when the token behaves as the asset contract documents and nobody else can debit
  the contract, the contract's balance in every token covers the reserves and the accrued fees of
  all its pools in that token.\<close>

theorem custody_invariant:
  assumes sac: "sac_transfer tk bal"
    and ext: "\<And>x y tok. ext x y \<Longrightarrow> bal x tok me \<le> bal y tok me"
    and start: "\<And>tok. 0 \<le> bal t0 tok me"
    and run: "(rp_step tk ext me)\<^sup>*\<^sup>* (rp_constructor a, t0) (s, t)"
  shows "(\<Sum>p\<in>UNIV. pool_held s tok p) \<le> bal t tok me"
  using rp_run_custody [of tk bal ext me, OF assms] by (simp add: custody_def held_def)

theorem custody_invariant_witness:
  "(\<Sum>p\<in>UNIV. pool_held demo6 demo_token p) \<le> book_balance demo_ledger6 demo_token demo_pool"
  by (rule custody_invariant [OF sac_transfer_book _ _ demo_runs(3)])
    (simp_all add: demo_ext_def book_balance_def demo_ledger_def)

text \<open>C10. Receipts: in every reachable state the receipts of a tranche are non-negative and add up
  to its supply, so the tranche's receipt ledger is neither inflated nor lossy.\<close>

theorem receipts_add_up:
  assumes "rp_reachable tk ext me s t" and "PoolConfigOf s p = Some c"
  shows "(\<Sum>h\<in>UNIV. read_receipt s (p, tier, h)) = receipt_supply (read_tranche s p tier) \<and>
    (\<forall>h. 0 \<le> read_receipt s (p, tier, h))"
  using assms by (rule rp_reachableE) (simp add: tranche_ok_def)

theorem receipts_add_up_witness:
  "(\<Sum>h\<in>UNIV. read_receipt demo3 (1, Junior, h)) = 1000 \<and>
    (\<forall>h. 0 \<le> read_receipt demo3 (1, Junior, h))"
  using receipts_add_up [OF demo_reachable(2) demo3_reads(2), of Junior] by (simp add: demo3_reads)

text \<open>C9. Accounting: in every reachable state the reserves of a pool are at most the capital of its
  two tranches plus the net result of its unsettled seasons. The pool never holds reserves that
  belong to no tranche and to no season.\<close>

theorem reserves_within_books:
  assumes "rp_reachable tk ext me s t" and "SolvencyOf s p = Some sol"
  shows "reserves sol \<le> deposited (read_tranche s p Junior) + deposited (read_tranche s p Senior)
    + (\<Sum>i\<in>UNIV. season_result (SeasonOf s (p, i)))"
  using assms by (rule rp_reachable_solvency) (simp add: books_def open_books_def)

theorem reserves_within_books_witness:
  "1470 \<le> 1000 + (\<Sum>i\<in>UNIV. season_result (SeasonOf demo6 (1, i)))"
  using reserves_within_books [OF demo_reachable(3) demo6_reads(3)]
  by (simp add: demo6_tranches)

text \<open>C39. The type invariant of the store (FR-POOL-7): in every reachable state every amount the store keeps
  of a pool (capital and receipts of its tranches and of every holder, reserves and committed amount,
  the premiums, paid and committed payouts of every season, both accrued fees) is a non-negative value
  inside the range of a 128-bit signed integer, and an accrued fee with a cap never exceeds it.\<close>

theorem stored_amounts_in_range:
  assumes "rp_reachable tk ext me s t" and "PoolConfigOf s p = Some c"
  shows "in_i128 (deposited (read_tranche s p tier)) \<and> 0 \<le> deposited (read_tranche s p tier) \<and>
    in_i128 (receipt_supply (read_tranche s p tier)) \<and> 0 \<le> receipt_supply (read_tranche s p tier) \<and>
    in_i128 (read_receipt s (p, tier, h)) \<and> 0 \<le> read_receipt s (p, tier, h) \<and>
    (\<exists>sol. SolvencyOf s p = Some sol \<and> in_i128 (reserves sol) \<and> 0 \<le> reserves sol \<and>
       in_i128 (committed sol) \<and> 0 \<le> committed sol) \<and>
    (\<forall>i se. SeasonOf s (p, i) = Some se \<longrightarrow> 0 \<le> premiums_in se \<and> in_i128 (premiums_in se) \<and>
       0 \<le> payouts_paid se \<and> in_i128 (payouts_paid se) \<and>
       0 \<le> payouts_committed se \<and> in_i128 (payouts_committed se)) \<and>
    (\<exists>tre. TreasuryOf s p = Some tre \<and>
       in_i128 (protocol_fees tre) \<and> 0 \<le> protocol_fees tre \<and>
       in_i128 (publisher_fees tre) \<and> 0 \<le> publisher_fees tre \<and>
       (protocol_cap (cfg_fee c) \<noteq> 0 \<longrightarrow> protocol_fees tre \<le> protocol_cap (cfg_fee c)) \<and>
       (publisher_cap (cfg_fee c) \<noteq> 0 \<longrightarrow> publisher_fees tre \<le> publisher_cap (cfg_fee c)))"
  using assms
  by (rule rp_reachableE)
    (auto simp: tranche_ok_def solvency_ok_def season_ok_def treasury_ok_def fee_ok_def in_i128_def)

theorem stored_amounts_in_range_witness:
  "in_i128 (deposited (read_tranche demo6 1 Junior)) \<and>
   (\<exists>sol. SolvencyOf demo6 1 = Some sol \<and> in_i128 (reserves sol) \<and> 0 \<le> reserves sol \<and>
      in_i128 (committed sol) \<and> 0 \<le> committed sol) \<and>
   TreasuryOf demo6 1 = Some \<lparr>protocol_fees = 20, publisher_fees = 10\<rparr> \<and>
   (20::i128) \<le> protocol_cap (cfg_fee demo_config)"
  using stored_amounts_in_range [OF demo_reachable(3) demo6_reads(2), of Junior demo_farmer] demo6_reads(4)
  by (simp add: demo_config_def)

text \<open>No payout is ever committed: \<open>committed\<close> and \<open>payouts_committed\<close> are zero in every
  reachable state, because no entry point raises them. So a withdrawal is never refused with
  \<^verbatim>\<open>TrancheWithdrawBlocked\<close> or \<^verbatim>\<open>SolvencyViolated\<close>, from either tranche, at any time.\<close>

theorem commitments_never_made:
  assumes "rp_reachable tk ext me s t"
  shows "(\<forall>p sol. SolvencyOf s p = Some sol \<longrightarrow> committed sol = 0) \<and>
    (\<forall>p i se. SeasonOf s (p, i) = Some se \<longrightarrow> payouts_committed se = 0) \<and>
    withdraw tk env p tier holder r s t' \<notin> {Inl (Err TrancheWithdrawBlocked), Inl (Err SolvencyViolated)}"
proof -
  have inv: "rp_inv s" by (rule rp_reachable_inv [OF assms])
  have sol: "committed x = 0" if "SolvencyOf s p = Some x" for p x
    using rp_reachable_solvency [OF assms that] by (simp add: solvency_ok_def) metis
  have se: "payouts_committed x = 0" if x: "SeasonOf s (p, i) = Some x" for p i x
  proof -
    obtain c where "PoolConfigOf s p = Some c"
      using pool_inv_season [OF _ x] inv by (auto simp: rp_inv_def)
    then show ?thesis
      by (rule rp_reachableE [OF assms]) (use x in \<open>auto simp: season_ok_def\<close>)
  qed
  have "withdraw tk env p tier holder r s t' \<noteq> Inl (Err TrancheWithdrawBlocked)"
    and "withdraw tk env p tier holder r s t' \<noteq> Inl (Err SolvencyViolated)"
    using sol
    by (auto simp: withdraw_def Let_def bind_ok_Inl rp_reads ok_or_def or_trap_def checked_sub_Some
        split: option.splits if_splits)
  with sol se show ?thesis by auto
qed

theorem commitments_never_made_witness:
  "committed \<lparr>reserves = 1470, committed = 0\<rparr> = 0 \<and>
   withdraw book_transfer (demo_env 30 None) 1 Senior demo_farmer 5 demo6 demo_ledger6
     \<noteq> Inl (Err TrancheWithdrawBlocked)"
  using commitments_never_made [OF demo_reachable(3),
      of "demo_env 30 None" 1 Senior demo_farmer 5 demo_ledger6] by simp

section \<open>What only moves forward\<close>

text \<open>C28. The lifecycle of seasons, configurations and fees: along every run from a reachable state a
  pool keeps its configuration, its accrued fees never decrease (no entry point sweeps them), and
  a season keeps its window, never moves back in Open, Active, Closed, Settled, never loses
  recorded payouts, and is never written again once it is settled.\<close>

theorem seasons_move_forward:
  assumes "rp_reachable tk ext me s t" and "(rp_step tk ext me)\<^sup>*\<^sup>* (s, t) (s', t')"
  shows "(\<forall>p c. PoolConfigOf s p = Some c \<longrightarrow> PoolConfigOf s' p = Some c) \<and>
    (\<forall>p x. TreasuryOf s p = Some x \<longrightarrow> (\<exists>y. TreasuryOf s' p = Some y \<and>
       protocol_fees x \<le> protocol_fees y \<and> publisher_fees x \<le> publisher_fees y)) \<and>
    (\<forall>k x. SeasonOf s k = Some x \<longrightarrow> (\<exists>y. SeasonOf s' k = Some y \<and>
       season_state x \<le> season_state y \<and> opened_at y = opened_at x \<and> closes_at y = closes_at x \<and>
       payouts_paid x \<le> payouts_paid y \<and> (season_state x = Settled \<longrightarrow> y = x)))"
  using rp_run_forward [OF assms] by (simp add: rp_forward_def season_advances_def)

theorem seasons_move_forward_witness:
  "\<exists>y. SeasonOf demo6 (1, 1) = Some y \<and> Active \<le> season_state y"
proof -
  have "(rp_step book_transfer demo_ext demo_pool)\<^sup>*\<^sup>* (demo5, demo_ledger3) (demo6, demo_ledger6)"
    by (rule r_into_rtranclp, rule rp_collect_premium [OF demo_host_env(1) demo_collect])
  moreover have "rp_reachable book_transfer demo_ext demo_pool demo5 demo_ledger3"
    by (rule demo_reachable(6))
  ultimately have "\<forall>k x. SeasonOf demo5 k = Some x \<longrightarrow>
      (\<exists>y. SeasonOf demo6 k = Some y \<and> season_state x \<le> season_state y)"
    using seasons_move_forward [of book_transfer demo_ext demo_pool demo5 demo_ledger3 demo6 demo_ledger6]
    by blast
  from this [rule_format, OF demo5_reads(5)] show ?thesis by (simp add: demo_season_def)
qed

section \<open>What each operation does\<close>

text \<open>The capital and the receipts of a tranche after its own deposits and withdrawals.\<close>

lemma deposit_tranche:
  assumes "deposit tk env p tier src a s t = Inr (m, s', t')"
  shows "read_tranche s' p tier = \<lparr>deposited = deposited (read_tranche s p tier) + a,
           receipt_supply = receipt_supply (read_tranche s p tier) + m\<rparr>"
    and "read_receipt s' (p, tier, h) =
      (if h = src then read_receipt s (p, tier, src) + m else read_receipt s (p, tier, h))"
  using assms by (auto elim!: deposit_ok simp: store_simps)

lemma withdraw_tranche:
  assumes "withdraw tk env p tier holder r s t = Inr (u, s', t')"
  shows "read_tranche s' p tier = \<lparr>deposited = deposited (read_tranche s p tier) - u,
           receipt_supply = receipt_supply (read_tranche s p tier) - r\<rparr>"
    and "read_receipt s' (p, tier, h) =
      (if h = holder then read_receipt s (p, tier, holder) - r else read_receipt s (p, tier, h))"
  using assms by (auto elim!: withdraw_ok simp: store_simps)

lemma deposit_solvency:
  assumes "deposit tk env p tier src a s t = Inr (m, s', t')" and "SolvencyOf s p = Some sol"
  shows "SolvencyOf s' p = Some (sol\<lparr>reserves := reserves sol + a\<rparr>)"
  using assms by (auto elim!: deposit_ok simp: store_simps)

lemma withdraw_solvency:
  assumes "withdraw tk env p tier holder r s t = Inr (u, s', t')" and "SolvencyOf s p = Some sol"
  shows "SolvencyOf s' p = Some (sol\<lparr>reserves := reserves sol - u\<rparr>)"
  using assms by (auto elim!: withdraw_ok simp: store_simps)

lemma div_mul_le: "0 < b \<Longrightarrow> a div b * b \<le> a" for a b :: int
  using div_mult_mod_eq [of a b] pos_mod_sign [of b a] by linarith

lemma tranche_nonneg:
  assumes "rp_reachable tk ext me s t" and "PoolConfigOf s p = Some c"
  shows "0 \<le> deposited (read_tranche s p tier)" and "0 \<le> receipt_supply (read_tranche s p tier)"
  using assms by (auto elim!: rp_reachableE simp: tranche_ok_def)

lemma deposit_minted:
  assumes run: "rp_reachable tk ext me s t"
    and d: "deposit tk env p tier src a s t = Inr (m, s', t')"
    and sup: "receipt_supply (read_tranche s p tier) \<noteq> 0"
  shows "0 < deposited (read_tranche s p tier)"
    and "m * deposited (read_tranche s p tier) \<le> a * receipt_supply (read_tranche s p tier)"
proof -
  let ?tr = "read_tranche s p tier"
  from d obtain c where h: "PoolConfigOf s p = Some c" "0 < a" "deposited ?tr \<noteq> 0"
      "m = (a * receipt_supply ?tr) sdiv deposited ?tr"
    using sup by (auto elim!: deposit_ok)
  note nn = tranche_nonneg [OF run h(1), of tier]
  show pos: "0 < deposited ?tr" using nn(1) h(3) by simp
  have "m = a * receipt_supply ?tr div deposited ?tr" using h(2,4) pos nn(2) by simp
  then show "m * deposited ?tr \<le> a * receipt_supply ?tr" by (simp add: div_mul_le [OF pos])
qed

text \<open>C11. Deposits are fair (FR-POOL-2): a deposit mints receipts to its depositor only, at no better
  than the current share price, so it never dilutes the holders of the tranche: with capital \<open>D\<close>
  and supply \<open>S\<close> before and \<open>D'\<close>, \<open>S'\<close> after, \<open>D / S \<le> D' / S'\<close> (stated without division). The
  first deposit of an empty tranche mints one receipt per unit.\<close>

theorem deposit_never_dilutes:
  assumes run: "rp_reachable tk ext me s t"
    and d: "deposit tk env p tier src a s t = Inr (m, s', t')"
  shows "(receipt_supply (read_tranche s p tier) \<noteq> 0 \<longrightarrow>
      deposited (read_tranche s p tier) * receipt_supply (read_tranche s' p tier)
        \<le> deposited (read_tranche s' p tier) * receipt_supply (read_tranche s p tier)) \<and>
    (receipt_supply (read_tranche s p tier) = 0 \<longrightarrow> m = a) \<and> 0 < m \<and>
    deposited (read_tranche s' p tier) = deposited (read_tranche s p tier) + a \<and>
    read_receipt s' (p, tier, src) = read_receipt s (p, tier, src) + m \<and>
    (\<forall>h. h \<noteq> src \<longrightarrow> read_receipt s' (p, tier, h) = read_receipt s (p, tier, h))"
proof -
  have "0 < m" "receipt_supply (read_tranche s p tier) = 0 \<longrightarrow> m = a"
    using d by (auto elim!: deposit_ok)
  then show ?thesis
    using deposit_minted(2) [OF run d] by (simp add: deposit_tranche [OF d] algebra_simps)
qed

theorem deposit_never_dilutes_witness:
  "read_receipt demo3 (1, Junior, demo_farmer) = read_receipt demo2 (1, Junior, demo_farmer) + 1000"
  using deposit_never_dilutes [OF demo_reachable(1) demo_deposit] by blast

text \<open>C12. Withdrawals are fair: a withdrawal pays its holder at most the share price of the receipts it
  burns, never more than the reserves or the capital of the tranche, and never lowers the share
  price of the receipts that remain.\<close>

theorem withdraw_never_overpays:
  assumes run: "rp_reachable tk ext me s t"
    and w: "withdraw tk env p tier holder r s t = Inr (u, s', t')"
  shows "u * receipt_supply (read_tranche s p tier) \<le> r * deposited (read_tranche s p tier) \<and>
    deposited (read_tranche s p tier) * receipt_supply (read_tranche s' p tier)
      \<le> deposited (read_tranche s' p tier) * receipt_supply (read_tranche s p tier) \<and>
    0 < u \<and> 0 \<le> deposited (read_tranche s' p tier) \<and>
    r \<le> read_receipt s (p, tier, holder) \<and>
    (\<exists>sol. SolvencyOf s p = Some sol \<and> u \<le> reserves sol \<and>
       SolvencyOf s' p = Some (sol\<lparr>reserves := reserves sol - u\<rparr>))"
proof -
  let ?tr = "read_tranche s p tier"
  from w obtain c sol where h: "PoolConfigOf s p = Some c" "SolvencyOf s p = Some sol" "0 < r"
      "0 < receipt_supply ?tr" "u = (r * deposited ?tr) sdiv receipt_supply ?tr" "0 < u"
      "r \<le> read_receipt s (p, tier, holder)" "u \<le> reserves sol"
      "SolvencyOf s' p = Some (sol\<lparr>reserves := reserves sol - u\<rparr>)"
    by (auto elim!: withdraw_ok simp: store_simps)
  have ok: "tranche_ok s p tier" by (rule rp_reachableE [OF run h(1)]) blast
  have "u = r * deposited ?tr div receipt_supply ?tr"
    using h(3-5) tranche_nonneg [OF run h(1), of tier] by simp
  then have "u * receipt_supply ?tr \<le> r * deposited ?tr" by (simp add: div_mul_le [OF h(4)])
  then show ?thesis
    using h withdraw_le_capital [OF w ok] by (simp add: withdraw_tranche [OF w] algebra_simps)
qed

theorem withdraw_never_overpays_witness:
  "(7::i128) * 1007 \<le> 7 * 1007 \<and> (7::i128) \<le> read_receipt demo3a (1, Junior, demo_farmer)"
  using withdraw_never_overpays [OF demo_reachable_more demo_withdraw] by (simp add: demo3a_reads)

text \<open>C32. Depositing and withdrawing straight away, in every reachable state: the receipts minted by a
  deposit, burnt at once, return at most the amount deposited if the tranche had receipts before; if it
  had none, they return the amount and with it all the capital the tranche held without an owner (a
  surplus that settlements credited to a junior tranche nobody had a share of). In both cases the receipts of
  every holder and the supply of the tranche are as before, and the reserves change by the difference.\<close>

theorem deposit_withdraw_roundtrip:
  assumes run: "rp_reachable tk ext me s t"
    and d: "deposit tk env p tier who a s t = Inr (m, s1, t1)"
    and w: "withdraw tk env' p tier who m s1 t1' = Inr (u, s2, t2)"
    and sol: "SolvencyOf s p = Some sol"
  shows "(receipt_supply (read_tranche s p tier) \<noteq> 0 \<longrightarrow> u \<le> a) \<and>
    (receipt_supply (read_tranche s p tier) = 0 \<longrightarrow> u = a + deposited (read_tranche s p tier)) \<and>
    (\<forall>h. read_receipt s2 (p, tier, h) = read_receipt s (p, tier, h)) \<and>
    receipt_supply (read_tranche s2 p tier) = receipt_supply (read_tranche s p tier) \<and>
    SolvencyOf s2 p = Some (sol\<lparr>reserves := reserves sol + a - u\<rparr>)"
proof -
  let ?D = "deposited (read_tranche s p tier)" and ?S = "receipt_supply (read_tranche s p tier)"
  from d obtain c where c: "PoolConfigOf s p = Some c" and a: "0 < a" "0 < m"
    by (auto elim!: deposit_ok)
  note D = deposit_tranche [OF d] and W = withdraw_tranche [OF w]
  have nn: "0 \<le> ?D" "0 \<le> ?S" using tranche_nonneg [OF run c, of tier] by simp_all
  have "u = (m * (?D + a)) sdiv (?S + m)" using w by (auto elim!: withdraw_ok simp: D)
  then have u: "u = m * (?D + a) div (?S + m)" using a nn by simp
  have "u \<le> a" if "?S \<noteq> 0"
  proof -
    have "m * (?D + a) \<le> a * (?S + m)" using deposit_minted(2) [OF run d that] by (simp add: algebra_simps)
    then have "m * (?D + a) div (?S + m) \<le> a * (?S + m) div (?S + m)"
      using a nn by (intro zdiv_mono1) simp_all
    with u show ?thesis using a nn by simp
  qed
  moreover have "u = a + ?D" if "?S = 0"
  proof -
    have "m = a" using d that by (auto elim!: deposit_ok)
    with u that a show ?thesis by simp
  qed
  moreover have "SolvencyOf s2 p = Some (sol\<lparr>reserves := reserves sol + a - u\<rparr>)"
    using withdraw_solvency [OF w deposit_solvency [OF d sol]] by simp
  ultimately show ?thesis by (simp add: D W)
qed

theorem deposit_withdraw_roundtrip_witness:
  "receipt_supply (read_tranche demo3b 1 Junior) = 1000 \<and> (7::i128) \<le> 7"
  using deposit_withdraw_roundtrip [OF demo_reachable(2) demo_deposit_more demo_withdraw
      demo3_reads(3)] by (simp add: demo3_reads)

text \<open>C8. The settlement waterfall (FR-POOL-2): settling closes the season's books. A profit goes to the
  junior tranche; a loss is taken from the junior capital first and from the senior capital only
  for what the junior tranche could not bear, each tranche losing at most what it has. Receipts,
  reserves and every other season stay as they are.\<close>

theorem settlement_waterfall:
  assumes run: "rp_reachable tk ext me s t"
    and d: "settle_season env p i s = Inr (net, s')"
  shows "\<exists>se. SeasonOf s (p, i) = Some se \<and> season_state se = Closed \<and>
    net = premiums_in se - payouts_paid se \<and>
    SeasonOf s' (p, i) = Some (se\<lparr>season_state := Settled\<rparr>) \<and>
    (let J = deposited (read_tranche s p Junior); J' = deposited (read_tranche s' p Junior);
         S = deposited (read_tranche s p Senior); S' = deposited (read_tranche s' p Senior) in
     J' = max 0 (J + net) \<and> S' = max 0 (S + min 0 (J + net)) \<and> (S' < S \<longrightarrow> J' = 0)) \<and>
    ReceiptOf s' = ReceiptOf s \<and> SolvencyOf s' = SolvencyOf s \<and>
    (\<forall>k. k \<noteq> (p, i) \<longrightarrow> SeasonOf s' k = SeasonOf s k)"
proof -
  from d obtain se s1 where h: "SeasonOf s (p, i) = Some se" "season_state se = Closed"
      "net = premiums_in se - payouts_paid se" "settle_tranches p net s = Inr s1"
      "s' = rp_publish (SeasonSettled p i (premiums_in se) (payouts_paid se) net)
            (write_season p i (se\<lparr>season_state := Settled\<rparr>) s1)"
    by (rule settle_season_ok)
  obtain c where c: "PoolConfigOf s p = Some c"
    using pool_inv_season [OF _ h(1)] rp_reachable_inv [OF run] by (auto simp: rp_inv_def)
  let ?J = "deposited (read_tranche s p Junior)" and ?S = "deposited (read_tranche s p Senior)"
  note nn = tranche_nonneg(1) [OF run c]
  have tr: "deposited (read_tranche s1 p Junior) = max 0 (?J + net)"
    "deposited (read_tranche s1 p Senior) = max 0 (?S + min 0 (?J + net))"
    using h(4) nn [of Junior] nn [of Senior]
    by (cases rule: settle_tranches_cases;
        auto simp: credit_junior_surplus_ok store_simps absorb_loss_reads junior_share_def
          senior_share_def)+
  show ?thesis
    using h(1-3) nn [of Junior] nn [of Senior]
    by (auto simp: h(5) store_simps tr settle_tranches_frame [OF h(4)] Let_def)
qed

theorem settlement_waterfall_witness:
  "deposited (read_tranche demo9 1 Junior) = 0 \<and> deposited (read_tranche demo9 1 Senior) = 0"
  using settlement_waterfall [OF demo_reachable(4) demo_settle] by (simp add: demo8_reads Let_def)

definition premium_rate :: "PremiumParams \<Rightarrow> i128 \<Rightarrow> int" where
  "premium_rate params coverage =
     uint (base_bps params) + uint (coverage_slope_bps params) * (coverage div COVERAGE_UNIT)"

lemma premium_rate_nonneg: "0 \<le> coverage \<Longrightarrow> 0 \<le> premium_rate params coverage"
  by (simp add: premium_rate_def COVERAGE_UNIT_def pos_imp_zdiv_nonneg_iff)

lemma ceil_div_bounds:
  fixes n d :: int
  assumes "0 < d"
  shows "n \<le> (n + d - 1) div d * d" and "((n + d - 1) div d - 1) * d < n"
proof -
  have "(n + d - 1) div d * d + (n + d - 1) mod d = n + d - 1" by (rule div_mult_mod_eq)
  moreover have "0 \<le> (n + d - 1) mod d" "(n + d - 1) mod d < d" using assms by simp_all
  moreover have "((n + d - 1) div d - 1) * d = (n + d - 1) div d * d - d"
    by (simp add: left_diff_distrib)
  ultimately show "n \<le> (n + d - 1) div d * d" and "((n + d - 1) div d - 1) * d < n" by linarith+
qed

lemma compute_premium_Inr:
  "compute_premium params c = Inr v \<Longrightarrow> 0 < c \<and> v = (c * premium_rate params c + 9999) div 10000"
proof -
  assume h: "compute_premium params c = Inr v"
  then have c: "0 < c" by (auto simp: compute_premium_def split: if_splits)
  then have q: "c sdiv COVERAGE_UNIT = c div COVERAGE_UNIT" by (simp add: COVERAGE_UNIT_def)
  have nn: "0 \<le> c * premium_rate params c + 9999"
    using c premium_rate_nonneg [of c params] by simp
  from h c q have "v = (c * premium_rate params c + 9999) sdiv 10000"
    by (auto simp: compute_premium_def Let_def bind_ok_Inr ok_or_Inr bind_eq_Some_conv
        checked_mul_Some checked_add_Some checked_div_Some BPS_DENOMINATOR_def premium_rate_def)
  with c nn show ?thesis by simp
qed

lemma premium_rate_le:
  assumes "0 < c" "c \<le> 10 ^ 20" "base_bps params \<le> 10000" "coverage_slope_bps params \<le> 10000"
  shows "uint (coverage_slope_bps params) * (c div COVERAGE_UNIT) \<le> 10 ^ 17"
    and "premium_rate params c \<le> 10 ^ 17 + 10000" and "c * premium_rate params c \<le> 10 ^ 20 * (10 ^ 17 + 10000)"
proof -
  have u: "uint (base_bps params) \<le> 10000" "uint (coverage_slope_bps params) \<le> 10000"
    using assms(3,4) by (simp_all add: word_le_def)
  have "c div COVERAGE_UNIT \<le> 10 ^ 20 div COVERAGE_UNIT"
    using assms(2) by (intro zdiv_mono1) (simp_all add: COVERAGE_UNIT_def)
  then have units: "0 \<le> c div COVERAGE_UNIT" "c div COVERAGE_UNIT \<le> 10 ^ 13"
    using assms(1) by (simp_all add: COVERAGE_UNIT_def pos_imp_zdiv_nonneg_iff)
  have "uint (coverage_slope_bps params) * (c div COVERAGE_UNIT) \<le> 10000 * 10 ^ 13"
    using u units by (intro mult_mono) simp_all
  then show s: "uint (coverage_slope_bps params) * (c div COVERAGE_UNIT) \<le> 10 ^ 17" by simp
  with u(1) show r: "premium_rate params c \<le> 10 ^ 17 + 10000" by (simp add: premium_rate_def)
  show "c * premium_rate params c \<le> 10 ^ 20 * (10 ^ 17 + 10000)"
    using assms(1,2) r premium_rate_nonneg [of c params] by (intro mult_mono) simp_all
qed

lemma compute_premium_total:
  assumes "0 < c" "c \<le> 10 ^ 20" "base_bps params \<le> 10000" "coverage_slope_bps params \<le> 10000"
  shows "compute_premium params c = Inr ((c * premium_rate params c + 9999) div 10000)"
proof -
  note le = premium_rate_le [OF assms]
  have q: "c sdiv COVERAGE_UNIT = c div COVERAGE_UNIT"
    using assms(1) by (simp add: COVERAGE_UNIT_def)
  have u: "0 \<le> uint (coverage_slope_bps params) * (c div COVERAGE_UNIT)"
    using assms(1) by (simp add: COVERAGE_UNIT_def pos_imp_zdiv_nonneg_iff)
  have nn: "0 \<le> premium_rate params c" "0 \<le> c * premium_rate params c"
    using assms(1) premium_rate_nonneg [of c params] by simp_all
  have "(c * premium_rate params c + 9999) div 10000 \<le> c * premium_rate params c + 9999"
    using nn by (intro div_10000_le_self) simp
  then have r: "in_i128 (uint (coverage_slope_bps params) * (c div COVERAGE_UNIT))"
    "in_i128 (premium_rate params c)" "in_i128 (c * premium_rate params c)"
    "in_i128 (c * premium_rate params c + 9999)"
    "in_i128 ((c * premium_rate params c + 9999) div 10000)"
    using le u nn by (simp_all add: in_i128_def)
  then show ?thesis
    using assms(1) nn
    by (simp add: compute_premium_def Let_def q BPS_DENOMINATOR_def checked_mul_def checked_add_def
        checked_div_def checked_def premium_rate_def [symmetric])
qed

text \<open>C34. Premiums round up (FR-POLICY-2): the premium of a coverage is the exact price, at the rate of
  the base plus the slope per whole unit of coverage, rounded up to the next unit, so a pool is
  never underpaid by rounding and overcharges by less than one unit; and with rates of at most one
  hundred percent it is computed for every coverage up to 10^20.\<close>

theorem premium_rounds_up:
  "(\<forall>v. compute_premium params c = Inr v \<longrightarrow>
      c * premium_rate params c \<le> v * 10000 \<and> (v - 1) * 10000 < c * premium_rate params c) \<and>
   (0 < c \<and> c \<le> 10 ^ 20 \<and> base_bps params \<le> 10000 \<and> coverage_slope_bps params \<le> 10000 \<longrightarrow>
      (\<exists>v. compute_premium params c = Inr v)) \<and>
   (c \<le> 0 \<longrightarrow> compute_premium params c = Inl (Err InvalidAmount))"
  using ceil_div_bounds [of 10000 "c * premium_rate params c"]
  by (auto simp: compute_premium_total dest: compute_premium_Inr)
    (simp add: compute_premium_def)

theorem premium_rounds_up_witness:
  "\<exists>v. compute_premium \<lparr>base_bps = 100, coverage_slope_bps = 10\<rparr> 12345678 = Inr v \<and>
     12345678 * 110 \<le> v * 10000 \<and> (v - 1) * 10000 < 12345678 * 110"
proof -
  let ?p = "\<lparr>base_bps = 100, coverage_slope_bps = 10\<rparr> :: PremiumParams"
  have r: "premium_rate ?p 12345678 = 110" by (simp add: premium_rate_def COVERAGE_UNIT_def)
  obtain v where "compute_premium ?p 12345678 = Inr v"
    using premium_rounds_up [of ?p 12345678] by auto
  then show ?thesis using premium_rounds_up [of ?p 12345678] r by auto
qed

lemma collect_premium_effect:
  assumes "collect_premium tk env p i src a s t = Inr (n, s', t')"
  obtains c se tre sol f g where
    "PoolConfigOf s p = Some c" "SeasonOf s (p, i) = Some se" "season_state se \<in> {Open, Active}"
    "TreasuryOf s p = Some tre" "SolvencyOf s p = Some sol" "0 < a" "n = a - f - g"
    "accrue_fee a (protocol_bps (cfg_fee c)) (protocol_fees tre) (protocol_cap (cfg_fee c)) = Inr f"
    "accrue_fee a (publisher_bps (cfg_fee c)) (publisher_fees tre) (publisher_cap (cfg_fee c)) = Inr g"
    "TreasuryOf s' p = Some \<lparr>protocol_fees = protocol_fees tre + f,
       publisher_fees = publisher_fees tre + g\<rparr>"
    "SeasonOf s' (p, i) = Some (se\<lparr>premiums_in := premiums_in se + n\<rparr>)"
    "SolvencyOf s' p = Some (sol\<lparr>reserves := reserves sol + n\<rparr>)"
  using assms by (elim collect_premium_ok) (auto simp: store_simps intro: that)

lemma refund_premium_effect:
  assumes "refund_premium tk env p i dst n s t = Inr (v, s', t')"
    and "SeasonOf s (p, i) = Some se" "SolvencyOf s p = Some sol"
  shows "v = n" "TreasuryOf s' = TreasuryOf s"
    "SeasonOf s' (p, i) = Some (se\<lparr>premiums_in := premiums_in se - n\<rparr>)"
    "SolvencyOf s' p = Some (sol\<lparr>reserves := reserves sol - n\<rparr>)"
  using assms by (auto elim!: refund_premium_ok simp: store_simps)

text \<open>C33. Collecting a premium splits it without loss into the net amount, which goes to the reserves
  and to the season, and the two fees, which go to the treasury; and refunding that net amount
  (FR-POLICY-7) is its exact inverse on the season and the reserves, while the fees stay accrued.\<close>

theorem collect_refund_roundtrip:
  assumes run: "rp_reachable tk ext me s t"
    and d: "collect_premium tk env p i src a s t = Inr (n, s1, t1)"
    and r: "refund_premium tk env' p i dst n s1 t1' = Inr (v, s2, t2)"
  shows "(\<exists>c tre f g. PoolConfigOf s p = Some c \<and> TreasuryOf s p = Some tre \<and>
      a = n + f + g \<and> 0 \<le> n \<and> 0 \<le> f \<and> 0 \<le> g \<and>
      f \<le> a * uint (protocol_bps (cfg_fee c)) div 10000 \<and>
      g \<le> a * uint (publisher_bps (cfg_fee c)) div 10000 \<and>
      TreasuryOf s2 p = Some \<lparr>protocol_fees = protocol_fees tre + f,
        publisher_fees = publisher_fees tre + g\<rparr>) \<and>
    v = n \<and> SeasonOf s2 (p, i) = SeasonOf s (p, i) \<and> SolvencyOf s2 p = SolvencyOf s p"
proof -
  from d obtain c se tre sol f g where h: "PoolConfigOf s p = Some c"
      "SeasonOf s (p, i) = Some se" "TreasuryOf s p = Some tre" "SolvencyOf s p = Some sol"
      "0 < a" "n = a - f - g"
      "accrue_fee a (protocol_bps (cfg_fee c)) (protocol_fees tre) (protocol_cap (cfg_fee c)) = Inr f"
      "accrue_fee a (publisher_bps (cfg_fee c)) (publisher_fees tre) (publisher_cap (cfg_fee c)) = Inr g"
      "TreasuryOf s1 p = Some \<lparr>protocol_fees = protocol_fees tre + f,
        publisher_fees = publisher_fees tre + g\<rparr>"
      "SeasonOf s1 (p, i) = Some (se\<lparr>premiums_in := premiums_in se + n\<rparr>)"
      "SolvencyOf s1 p = Some (sol\<lparr>reserves := reserves sol + n\<rparr>)"
    by (rule collect_premium_effect)
  note R = refund_premium_effect [OF r h(10,11)]
  have i: "validate_config c = Inr ()" "treasury_ok c tre"
    using rp_reachableE [OF run h(1)] h(3) by auto
  then have "fee_ok (protocol_cap (cfg_fee c)) (protocol_fees tre)"
    "fee_ok (publisher_cap (cfg_fee c)) (publisher_fees tre)" by (simp_all add: treasury_ok_def)
  then have le: "f \<le> a * uint (protocol_bps (cfg_fee c)) div 10000"
    "g \<le> a * uint (publisher_bps (cfg_fee c)) div 10000"
    using accrue_fee_bounds(2) [OF h(7)] accrue_fee_bounds(2) [OF h(8)] h(5) by simp_all
  show ?thesis
    using h premium_split(1-3) [OF h(7,8,5) i(2,1)] le R by (intro conjI exI [of _ c]) auto
qed

theorem collect_refund_roundtrip_witness:
  "\<exists>s2 t2. refund_premium book_transfer (demo_env 13 (Some demo_policy)) 1 1 demo_farmer 470 demo6
       demo_ledger6 = Inr (470, s2, t2) \<and> SolvencyOf s2 1 = SolvencyOf demo5 1"
proof -
  have "\<exists>s2 t2. refund_premium book_transfer (demo_env 13 (Some demo_policy)) 1 1 demo_farmer 470
      demo6 demo_ledger6 = Inr (470, s2, t2)"
    by (simp add: refund_premium_def rp_guards require_stored_def demo_value_moves demo6_reads
        demo_season_def demo_ledger6_def)
  then obtain s2 t2 where r: "refund_premium book_transfer (demo_env 13 (Some demo_policy)) 1 1
      demo_farmer 470 demo6 demo_ledger6 = Inr (470, s2, t2)" by blast
  show ?thesis
    using r collect_refund_roundtrip [OF demo_reachable(6) demo_collect r] by blast
qed

text \<open>C36. Payouts are released exactly when they should be: for a season in a reachable state, a payout
  succeeds if and only if the caller carries the wired vault's authorization, the amount is
  positive and covered by the reserves, the season is active or closed, the running total stays in
  range, and the token transfer succeeds; and then it takes the amount off the reserves, records
  it in the season, and changes nothing else but the event log.\<close>

theorem pay_out_exactly_when:
  assumes run: "rp_reachable tk ext me s t"
    and c: "PoolConfigOf s p = Some c" and se: "SeasonOf s (p, i) = Some se"
    and sol: "SolvencyOf s p = Some sol"
  shows "pay_out tk env p i dst n s t = Inr (v, s', t') \<longleftrightarrow>
    (\<exists>pv. PayoutVault s = Some pv \<and> require_auth env pv) \<and>
    0 < n \<and> n \<le> reserves sol \<and> season_state se \<in> {Active, Closed} \<and>
    in_i128 (payouts_paid se + n) \<and>
    tk (call_env env (cfg_token c)) (cfg_token c) (current_contract env) dst n t = Some t' \<and> v = n \<and>
    s' = s\<lparr>SeasonOf := (SeasonOf s)((p, i) \<mapsto> se\<lparr>payouts_paid := payouts_paid se + n\<rparr>),
           SolvencyOf := (SolvencyOf s)(p \<mapsto> sol\<lparr>reserves := reserves sol - n\<rparr>),
           rp_events := rp_events s @ [PayoutReleased p i dst n]\<rparr>"
proof -
  have so: "committed sol = 0" "in_i128 (reserves sol)"
    using rp_reachable_solvency [OF run sol] by (auto simp: solvency_ok_def)
  then have rng: "in_i128 (reserves sol - n)" if "0 < n" "n \<le> reserves sol"
    using that by (intro in_i128_between [OF so(2)]) simp_all
  show ?thesis
    using c se sol so rng
    by (auto simp: pay_out_def Let_def ok_simps rp_reads rp_publish_def write_season_def
        write_solvency_def)
qed

theorem pay_out_exactly_when_witness:
  "PayoutVault demo6 = Some demo_vault \<and> 1470 \<le> reserves \<lparr>reserves = 1470, committed = 0\<rparr> \<and>
   demo7 = demo6\<lparr>SeasonOf := (SeasonOf demo6)((1, 1) \<mapsto> demo_season Active 470 1470),
             SolvencyOf := (SolvencyOf demo6)(1 \<mapsto> \<lparr>reserves = 0, committed = 0\<rparr>),
             rp_events := rp_events demo6 @ [PayoutReleased 1 1 demo_vault 1470]\<rparr>"
  using pay_out_exactly_when [OF demo_reachable(3) demo6_reads(2,5,3),
      of "demo_env 20 (Some demo_vault)" demo_vault 1470 1470 demo7 demo_ledger7]
    demo_pay_out demo6_reads(6) by (simp add: demo_season_def)

text \<open>Pools are isolated (FR-POOL-1): every step of the contract leaves everything the contract
  keeps about all pools but one untouched: configuration, tranches, receipts, seasons, treasury
  and solvency.\<close>

theorem pools_are_isolated:
  assumes run: "rp_reachable tk ext me s t" and step: "rp_step tk ext me (s, t) (s', t')"
  shows "\<exists>p. \<forall>q. q \<noteq> p \<longrightarrow> same_pool s s' q"
proof -
  note inv = rp_reachable_inv [OF run]
  note frames = deposit_frame(1) withdraw_frame(1) collect_premium_frame(1) refund_premium_frame(1)
    pay_out_frame(1) create_pool_frame(1) open_season_keeps(3) [OF _ inv]
    transition_season_keeps(2) [OF _ inv] settle_season_keeps(2) [OF _ inv]
  have "same_pool s (s\<lparr>PolicyContract := x\<rparr>) q" "same_pool s (s\<lparr>PayoutVault := x\<rparr>) q" for x q
    by (simp_all add: same_pool_def)
  with step show ?thesis
    by (elim rp_stepE)
      (auto simp: set_policy_contract_Inr set_payout_vault_Inr season_moves same_pool_refl
        intro: frames)
qed

theorem pools_are_isolated_witness:
  "\<exists>p. \<forall>q. q \<noteq> p \<longrightarrow> same_pool demo5 demo6 q"
  by (rule pools_are_isolated [OF demo_reachable(6)
        rp_collect_premium [OF demo_host_env(1) demo_collect]])

text \<open>A tranche whose capital a settlement has taken completely while receipts remain accepts no
  deposit any more: every positive deposit is refused with \<^verbatim>\<open>Overflow\<close> (or with the cap error),
  because the share price divides by the capital. The pool cannot be recapitalized in that
  tranche. The run of RiskPool_Demo reaches such a state.\<close>

theorem wiped_tranche_rejects_deposits:
  assumes "read_tranche s p tier = \<lparr>deposited = 0, receipt_supply = n\<rparr>" and "n \<noteq> 0"
    and "PoolConfigOf s p = Some c" and "require_auth env src" and "0 < a" and "in_i128 a"
  shows "deposit tk env p tier src a s t \<in> {Inl (Err RpOverflow), Inl (Err TrancheCapExceeded)}"
  using assms by (auto simp: deposit_def read_config_def Let_def checked_add_def checked_def mul_div_def
      checked_div_def ok_or_def split: option.split)

theorem wiped_tranche_rejects_deposits_witness:
  "rp_reachable book_transfer demo_ext demo_pool demo9 demo_ledger7 \<and>
   deposit book_transfer (demo_env 130 None) 1 Junior demo_farmer 500 demo9 demo_ledger7
     \<in> {Inl (Err RpOverflow), Inl (Err TrancheCapExceeded)}"
proof
  show "rp_reachable book_transfer demo_ext demo_pool demo9 demo_ledger7" by (rule demo_reachable(5))
  show "deposit book_transfer (demo_env 130 None) 1 Junior demo_farmer 500 demo9 demo_ledger7
     \<in> {Inl (Err RpOverflow), Inl (Err TrancheCapExceeded)}"
    by (rule wiped_tranche_rejects_deposits [of _ _ _ 1000 demo_config])
      (simp_all add: demo9_def demo8_reads store_simps demo_defs in_i128_def)
qed

end
