(* ===== verification/OracleAdapter.thy ===== *)
theory OracleAdapter
  imports Host Common
begin

text \<open>
  The \<^verbatim>\<open>oracle-adapter\<close> contract (\<^verbatim>\<open>src/contracts/oracle-adapter/src/lib.rs\<close>): the publisher
  registry behind its timelock, the ring of signed observations, challenges, and the median.

  The XDR encoding of a payload and the ed25519 verification are host functions, not code of the
  repository: \<open>to_xdr\<close> and \<open>verify\<close> are parameters of \<open>submit\<close>.
\<close>

section \<open>Data\<close>

definition RING_SIZE :: u32 where "RING_SIZE = 16"
definition MIN_PUBLISHERS :: nat where "MIN_PUBLISHERS = 2"
definition DEFAULT_STALENESS_HOURS :: u64 where "DEFAULT_STALENESS_HOURS = 48"
definition REGISTRY_TIMELOCK_SECS :: u64 where "REGISTRY_TIMELOCK_SECS = 7 * 24 * 60 * 60"
definition SECONDS_PER_HOUR :: u64 where "SECONDS_PER_HOUR = 3600"

record PublisherInfo =
  active :: bool
  added_at :: u64

record PendingRegistry =
  pend_add :: bool
  eta :: u64

record Observation =
  obs_value :: i128
  obs_timestamp :: u64
  obs_publisher :: Bytes32
  accepted :: bool

record Head =
  next_seq :: u32
  obs_count :: u32

record ObservationPayload =
  payload_region :: Symbol
  payload_metric :: Symbol
  payload_timestamp :: u64
  payload_value :: i128

datatype OracleError =
    UnknownPublisher | BadSignature | ObservationStale | Challenged | RegistryTimelock
  | PublisherExists | NoPendingChange | PendingExists | InvalidObservation
  | OrUnauthorized | OrTimelockPending | OrNotInitialized | OrOverflow

fun or_error_code :: "OracleError \<Rightarrow> u32" where
  "or_error_code UnknownPublisher = 300"
| "or_error_code BadSignature = 301"
| "or_error_code ObservationStale = 302"
| "or_error_code Challenged = 303"
| "or_error_code RegistryTimelock = 304"
| "or_error_code PublisherExists = 305"
| "or_error_code NoPendingChange = 306"
| "or_error_code PendingExists = 307"
| "or_error_code InvalidObservation = 308"
| "or_error_code OrUnauthorized = 900"
| "or_error_code OrTimelockPending = 901"
| "or_error_code OrNotInitialized = 902"
| "or_error_code OrOverflow = 903"

datatype OracleEvent =
    PublisherProposed Bytes32 bool u64
  | PublisherRegistered Bytes32
  | PublisherRemoved Bytes32
  | PublisherProposalCancelled Bytes32
  | ObservationSubmitted Symbol Symbol u32 Bytes32
  | ObservationChallenged Symbol Symbol u32 u32
  | ObservationUnchallenged Symbol Symbol u32

text \<open>The store: the variants of \<^verbatim>\<open>DataKey\<close> in use, and the events published so far.\<close>

record OracleStore =
  OrAdmin :: "Address option"
  Publisher :: "Bytes32 \<rightharpoonup> PublisherInfo"
  PendingPublisher :: "Bytes32 \<rightharpoonup> PendingRegistry"
  Obs :: "Symbol \<times> Symbol \<times> u32 \<rightharpoonup> Observation"
  ObsHead :: "Symbol \<times> Symbol \<rightharpoonup> Head"
  Challenge :: "Symbol \<times> Symbol \<times> u32 \<rightharpoonup> u32"
  StalenessBound :: "u64 option"
  or_events :: "OracleEvent list"

definition or_empty :: OracleStore where
  "or_empty = \<lparr>OrAdmin = None, Publisher = Map.empty, PendingPublisher = Map.empty,
     Obs = Map.empty, ObsHead = Map.empty, Challenge = Map.empty, StalenessBound = None,
     or_events = []\<rparr>"

definition or_publish :: "OracleEvent \<Rightarrow> OracleStore \<Rightarrow> OracleStore" where
  "or_publish e s = s\<lparr>or_events := or_events s @ [e]\<rparr>"

section \<open>Store access\<close>

definition read_publisher :: "OracleStore \<Rightarrow> Bytes32 \<Rightarrow> PublisherInfo option" where
  "read_publisher s p = Publisher s p"

definition read_pending :: "OracleStore \<Rightarrow> Bytes32 \<Rightarrow> PendingRegistry option" where
  "read_pending s p = PendingPublisher s p"

definition read_obs :: "OracleStore \<Rightarrow> Symbol \<Rightarrow> Symbol \<Rightarrow> u32 \<Rightarrow> Observation option" where
  "read_obs s region metric seq = Obs s (region, metric, seq)"

definition read_head :: "OracleStore \<Rightarrow> Symbol \<Rightarrow> Symbol \<Rightarrow> Head" where
  "read_head s region metric =
     unwrap_or (ObsHead s (region, metric)) \<lparr>next_seq = 0, obs_count = 0\<rparr>"

definition is_challenged :: "OracleStore \<Rightarrow> Symbol \<Rightarrow> Symbol \<Rightarrow> u32 \<Rightarrow> bool" where
  "is_challenged s region metric seq \<longleftrightarrow> Challenge s (region, metric, seq) \<noteq> None"

definition read_staleness_hours :: "OracleStore \<Rightarrow> u64" where
  "read_staleness_hours s = unwrap_or (StalenessBound s) DEFAULT_STALENESS_HOURS"

definition or_require_admin :: "Env \<Rightarrow> OracleStore \<Rightarrow> (OracleError, Address) result" where
  "or_require_admin env s = require_stored env (OrAdmin s) OrNotInitialized"

section \<open>The registry\<close>

definition or_constructor :: "Address \<Rightarrow> OracleStore" where
  "or_constructor a = or_empty\<lparr>OrAdmin := Some a, StalenessBound := Some DEFAULT_STALENESS_HOURS\<rparr>"

definition or_admin :: "OracleStore \<Rightarrow> (OracleError, Address) result" where
  "or_admin s = ok_or (OrAdmin s) OrNotInitialized"

definition is_publisher :: "OracleStore \<Rightarrow> Bytes32 \<Rightarrow> bool" where
  "is_publisher s p = unwrap_or (map_option active (read_publisher s p)) False"

definition propose_publisher ::
    "Env \<Rightarrow> Bytes32 \<Rightarrow> bool \<Rightarrow> OracleStore \<Rightarrow> (OracleError, u64 \<times> OracleStore) result" where
  "propose_publisher env p add s =
     bind_ok (or_require_admin env s) (\<lambda>_.
     if read_pending s p \<noteq> None then Inl (Err PendingExists)
     else let existing = read_publisher s p;
              act = unwrap_or (map_option active existing) False in
     if add \<and> act then Inl (Err PublisherExists)
     else if \<not> add \<and> \<not> act then Inl (Err UnknownPublisher)
     else
       bind_ok (ok_or (checked_uadd (timestamp env) REGISTRY_TIMELOCK_SECS) OrOverflow) (\<lambda>at.
       let s = s\<lparr>PendingPublisher := (PendingPublisher s)(p \<mapsto> \<lparr>pend_add = add, eta = at\<rparr>)\<rparr> in
       Inr (at, or_publish (PublisherProposed p add at) s)))"

definition execute_publisher ::
    "Env \<Rightarrow> Bytes32 \<Rightarrow> OracleStore \<Rightarrow> (OracleError, OracleStore) result" where
  "execute_publisher env p s =
     bind_ok (or_require_admin env s) (\<lambda>_.
     bind_ok (ok_or (read_pending s p) NoPendingChange) (\<lambda>pending.
     if timestamp env < eta pending then Inl (Err RegistryTimelock)
     else
       bind_ok (if pend_add pending
                then Inr (s\<lparr>Publisher := (Publisher s)(p \<mapsto>
                            \<lparr>active = True, added_at = timestamp env\<rparr>)\<rparr>)
                else bind_ok (ok_or (read_publisher s p) UnknownPublisher) (\<lambda>info.
                     Inr (s\<lparr>Publisher := (Publisher s)(p \<mapsto> info\<lparr>active := False\<rparr>)\<rparr>))) (\<lambda>s.
       let s = s\<lparr>PendingPublisher := (PendingPublisher s)(p := None)\<rparr> in
       Inr (or_publish (if pend_add pending then PublisherRegistered p else PublisherRemoved p) s))))"

definition cancel_publisher ::
    "Env \<Rightarrow> Bytes32 \<Rightarrow> OracleStore \<Rightarrow> (OracleError, OracleStore) result" where
  "cancel_publisher env p s =
     bind_ok (or_require_admin env s) (\<lambda>_.
     if read_pending s p = None then Inl (Err NoPendingChange)
     else let s = s\<lparr>PendingPublisher := (PendingPublisher s)(p := None)\<rparr> in
       Inr (or_publish (PublisherProposalCancelled p) s))"

section \<open>Observations\<close>

definition submit ::
    "(ObservationPayload \<Rightarrow> 'm) \<Rightarrow> (Bytes32 \<Rightarrow> 'm \<Rightarrow> Bytes64 \<Rightarrow> bool) \<Rightarrow> Env \<Rightarrow>
     Symbol \<Rightarrow> Symbol \<Rightarrow> u64 \<Rightarrow> i128 \<Rightarrow> Bytes32 \<Rightarrow> Bytes64 \<Rightarrow> OracleStore \<Rightarrow>
     (OracleError, u32 \<times> OracleStore) result" where
  "submit to_xdr verify env region metric ts value publisher signature s =
     bind_ok (ok_or (read_publisher s publisher) UnknownPublisher) (\<lambda>info.
     if \<not> active info then Inl (Err UnknownPublisher)
     else let now = timestamp env in
     if value < 0 \<or> ts > now then Inl (Err InvalidObservation)
     else
       let payload = \<lparr>payload_region = region, payload_metric = metric,
                      payload_timestamp = ts, payload_value = value\<rparr>;
           message = to_xdr payload in
       if \<not> verify publisher message signature then Inl Trap
       else
         let head = read_head s region metric;
             slot = next_seq head mod RING_SIZE;
             s = s\<lparr>Obs := (Obs s)((region, metric, slot) \<mapsto>
                   \<lparr>obs_value = value, obs_timestamp = ts, obs_publisher = publisher,
                    accepted = True\<rparr>)\<rparr>;
             s = s\<lparr>Challenge := (Challenge s)((region, metric, slot) := None)\<rparr> in
         bind_ok (ok_or (checked_uadd (next_seq head) 1) OrOverflow) (\<lambda>next.
         let head = head\<lparr>next_seq := next\<rparr>;
             head = (if obs_count head < RING_SIZE
                     then head\<lparr>obs_count := obs_count head + 1\<rparr> else head);
             s = s\<lparr>ObsHead := (ObsHead s)((region, metric) \<mapsto> head)\<rparr> in
         Inr (slot, or_publish (ObservationSubmitted region metric slot publisher) s)))"

definition challenge ::
    "Env \<Rightarrow> Symbol \<Rightarrow> Symbol \<Rightarrow> u32 \<Rightarrow> u32 \<Rightarrow> OracleStore \<Rightarrow> (OracleError, OracleStore) result" where
  "challenge env region metric seq reason s =
     bind_ok (or_require_admin env s) (\<lambda>_.
     if read_obs s region metric seq = None then Inl (Err InvalidObservation)
     else if is_challenged s region metric seq then Inl (Err Challenged)
     else let s = s\<lparr>Challenge := (Challenge s)((region, metric, seq) \<mapsto> reason)\<rparr> in
       Inr (or_publish (ObservationChallenged region metric seq reason) s))"

definition unchallenge ::
    "Env \<Rightarrow> Symbol \<Rightarrow> Symbol \<Rightarrow> u32 \<Rightarrow> OracleStore \<Rightarrow> (OracleError, OracleStore) result" where
  "unchallenge env region metric seq s =
     bind_ok (or_require_admin env s) (\<lambda>_.
     let s = s\<lparr>Challenge := (Challenge s)((region, metric, seq) := None)\<rparr> in
       Inr (or_publish (ObservationUnchallenged region metric seq) s))"

section \<open>The median\<close>

text \<open>The distinct-publisher accumulator's membership scan.\<close>

fun contains_publisher :: "Bytes32 list \<Rightarrow> Bytes32 \<Rightarrow> bool" where
  "contains_publisher [] publisher = False"
| "contains_publisher (existing # seen) publisher =
     (if existing = publisher then True else contains_publisher seen publisher)"

text \<open>
  The in-place insertion sort on the array \<open>values\<close>. \<open>shift_down\<close> is the inner loop: it moves the
  entries above \<open>key\<close> one place up and stops at the index where \<open>key\<close> belongs. An index past the
  array panics.
\<close>

fun shift_down :: "i128 list \<Rightarrow> i128 \<Rightarrow> nat \<Rightarrow> i128 list \<times> nat" where
  "shift_down values key j =
     (if j > 0 \<and> values ! (j - 1) > key
      then shift_down (values[j := values ! (j - 1)]) key (j - 1)
      else (values, j))"

declare shift_down.simps [simp del]

function sort_loop :: "i128 list \<Rightarrow> nat \<Rightarrow> nat \<Rightarrow> (OracleError, i128 list) result" where
  "sort_loop values i len =
     (if i < len then
        if length values \<le> i then Inl Trap
        else let key = values ! i; (values, j) = shift_down values key i
             in sort_loop (values[j := key]) (i + 1) len
      else Inr values)"
  by pat_completeness auto
termination by (relation "measure (\<lambda>(values, i, len). len - i)") auto

declare sort_loop.simps [simp del]

definition sort_ascending :: "i128 list \<Rightarrow> nat \<Rightarrow> (OracleError, i128 list) result" where
  "sort_ascending values len = sort_loop values 1 len"

text \<open>
  The scan over the slots below \<open>count\<close>: the values of the observations that count go into the
  array \<open>values\<close>, their number is \<open>len\<close>, their distinct authors are \<open>publishers\<close>.
\<close>

definition obs_counts :: "OracleStore \<Rightarrow> Symbol \<Rightarrow> Symbol \<Rightarrow> u64 \<Rightarrow> u64 \<Rightarrow> u32 \<Rightarrow> Observation \<Rightarrow> bool"
  where "obs_counts s region metric now bound_secs slot obs \<longleftrightarrow>
     (let fresh = saturating_usub now (obs_timestamp obs) \<le> bound_secs in
      accepted obs \<and> fresh \<and> \<not> is_challenged s region metric slot)"

function median_scan ::
    "OracleStore \<Rightarrow> Symbol \<Rightarrow> Symbol \<Rightarrow> u64 \<Rightarrow> u64 \<Rightarrow> u32 \<Rightarrow> u32 \<Rightarrow> i128 list \<Rightarrow> nat \<Rightarrow>
     Bytes32 list \<Rightarrow> (OracleError, i128 list \<times> nat \<times> Bytes32 list) result" where
  "median_scan s region metric now bound_secs cnt slot values len publishers =
     (if slot < cnt then
        (case read_obs s region metric slot of
           None \<Rightarrow> median_scan s region metric now bound_secs cnt (slot + 1) values len publishers
         | Some obs \<Rightarrow>
             if obs_counts s region metric now bound_secs slot obs then
               if length values \<le> len then Inl Trap
               else median_scan s region metric now bound_secs cnt (slot + 1)
                      (values[len := obs_value obs]) (len + 1)
                      (if contains_publisher publishers (obs_publisher obs) then publishers
                       else publishers @ [obs_publisher obs])
             else median_scan s region metric now bound_secs cnt (slot + 1) values len publishers)
      else Inr (values, len, publishers))"
  by pat_completeness auto
termination
  by (relation "measure (\<lambda>(s, region, metric, now, bound_secs, cnt, slot, values, len, publishers).
        unat cnt - unat slot)")
    (auto simp: unat_add_1 word_less_nat_alt)

declare median_scan.simps [simp del]

definition median :: "Env \<Rightarrow> Symbol \<Rightarrow> Symbol \<Rightarrow> OracleStore \<Rightarrow> (OracleError, i128) result" where
  "median env region metric s =
     (let head = read_head s region metric in
      if obs_count head = 0 then Inl (Err ObservationStale)
      else let now = timestamp env in
        bind_ok (ok_or (checked_umul (read_staleness_hours s) SECONDS_PER_HOUR) OrOverflow)
          (\<lambda>bound_secs.
        bind_ok (median_scan s region metric now bound_secs (obs_count head) 0
                   (replicate (unat RING_SIZE) 0) 0 [])
          (\<lambda>(values, len, publishers).
        if len = 0 \<or> length publishers < MIN_PUBLISHERS then Inl (Err ObservationStale)
        else
          bind_ok (sort_ascending values len) (\<lambda>values.
          let mid = len div 2 in
          if len mod 2 = 1 then Inr (values ! mid)
          else
            bind_ok (ok_or (checked_add (values ! (mid - 1)) (values ! mid)) OrOverflow) (\<lambda>sum.
            Inr (sum sdiv 2))))))"

section \<open>Reads\<close>

definition publisher_info :: "OracleStore \<Rightarrow> Bytes32 \<Rightarrow> (OracleError, PublisherInfo) result" where
  "publisher_info s p = ok_or (read_publisher s p) UnknownPublisher"

definition pending_publisher :: "OracleStore \<Rightarrow> Bytes32 \<Rightarrow> (OracleError, PendingRegistry) result" where
  "pending_publisher s p = ok_or (read_pending s p) NoPendingChange"

definition observation ::
    "OracleStore \<Rightarrow> Symbol \<Rightarrow> Symbol \<Rightarrow> u32 \<Rightarrow> (OracleError, Observation) result" where
  "observation s region metric seq = ok_or (read_obs s region metric seq) InvalidObservation"

definition head_of :: "OracleStore \<Rightarrow> Symbol \<Rightarrow> Symbol \<Rightarrow> Head" where
  "head_of s region metric = read_head s region metric"

definition challenge_flag :: "OracleStore \<Rightarrow> Symbol \<Rightarrow> Symbol \<Rightarrow> u32 \<Rightarrow> bool" where
  "challenge_flag s region metric seq = is_challenged s region metric seq"

definition staleness_bound :: "OracleStore \<Rightarrow> u64" where
  "staleness_bound s = read_staleness_hours s"

end
