(* ===== verification/Oracle_Median.thy ===== *)
theory Oracle_Median
  imports OracleAdapter "HOL-Library.Multiset"
begin

text \<open>
  The median of the oracle: the in-place insertion sort against the library's \<open>sort\<close>, the scan
  over the ring against a filter, and the median itself against its specification on the list of
  observations that count.
\<close>

section \<open>The insertion sort\<close>

text \<open>Storing the key where the inner loop stops inserts it, and moves the larger entries up.\<close>

lemma shift_down_inserts:
  assumes "shift_down vs key j = (vs', k)" and "j < length vs"
  shows "k \<le> j \<and> vs'[k := key] = take k vs @ key # drop k (take j vs) @ drop (j + 1) vs \<and>
    (\<forall>x\<in>set (drop k (take j vs)). key < x) \<and> (k = 0 \<or> vs ! (k - 1) \<le> key)"
  using assms
proof (induction vs key j arbitrary: vs' k rule: shift_down.induct)
  case (1 vs key j)
  show ?case
  proof (cases "j > 0 \<and> vs ! (j - 1) > key")
    case False
    with "1.prems" show ?thesis
      by (auto simp: shift_down.simps [of vs key j] upd_conv_take_nth_drop split: if_splits)
  next
    case True
    let ?vs1 = "vs[j := vs ! (j - 1)]"
    have "shift_down ?vs1 key (j - 1) = (vs', k)"
      using "1.prems"(1) True by (simp add: shift_down.simps [of vs key j])
    moreover have "j - 1 < length ?vs1" using "1.prems"(2) by simp
    ultimately have IH: "k \<le> j - 1"
        "vs'[k := key] = take k ?vs1 @ key # drop k (take (j - 1) ?vs1) @ drop (j - 1 + 1) ?vs1"
        "\<forall>x\<in>set (drop k (take (j - 1) ?vs1)). key < x" "k = 0 \<or> ?vs1 ! (k - 1) \<le> key"
      using "1.IH" [OF True] by blast+
    note k = IH(1)
    then have kj: "k < j" using True by linarith
    have tk: "take k ?vs1 = take k vs" "take (j - 1) ?vs1 = take (j - 1) vs" using kj by simp_all
    have j1: "j - 1 + 1 = j" using True by linarith
    have dr: "drop j ?vs1 = vs ! (j - 1) # drop (j + 1) vs"
      using "1.prems"(2) by (simp add: drop_update_swap flip: Cons_nth_drop_Suc)
    have "take j vs = take (j - 1) vs @ [vs ! (j - 1)]"
      using True "1.prems"(2) take_Suc_conv_app_nth [of "j - 1" vs] by simp
    then have mid: "drop k (take j vs) = drop k (take (j - 1) vs) @ [vs ! (j - 1)]"
      using k "1.prems"(2) by simp
    have "vs'[k := key] = take k vs @ key # drop k (take (j - 1) vs) @ vs ! (j - 1) # drop (j + 1) vs"
      using IH(2) unfolding j1 tk dr by simp
    moreover have "\<forall>x\<in>set (drop k (take j vs)). key < x"
      using IH(3) True by (simp add: tk mid)
    moreover have "k = 0 \<or> vs ! (k - 1) \<le> key" using IH(4) kj by auto
    ultimately show ?thesis using kj by (simp add: mid)
  qed
qed

text \<open>One pass of the outer loop extends the sorted prefix by one entry.\<close>

lemma sorted_insert:
  fixes xs :: "int list"
  assumes "sorted xs" and "\<forall>x\<in>set (drop k xs). key < x" and "k = 0 \<or> xs ! (k - 1) \<le> key"
    and "k \<le> length xs"
  shows "sorted (take k xs @ key # drop k xs)"
proof -
  have "x \<le> key" if "x \<in> set (take k xs)" for x
  proof -
    from that obtain i where i: "i < k" "i < length xs" "x = xs ! i" by (auto simp: in_set_conv_nth)
    then have "x \<le> xs ! (k - 1)" using assms(1,4) by (auto intro: sorted_nth_mono)
    with assms(3) i(1) show ?thesis by simp
  qed
  moreover have "sorted (take k xs)" "sorted (drop k xs)"
    using assms(1) by (simp_all add: sorted_wrt_take sorted_wrt_drop)
  ultimately show ?thesis
    using assms(2) by (fastforce simp: sorted_append)
qed

text \<open>One turn of the outer loop: it sorts one entry more, permutes the prefix, and leaves the rest.\<close>

lemma insertion_turn:
  assumes sd: "shift_down vs (vs ! i) i = (vs', k)" and i: "i < length vs"
    and srt: "sorted (take i vs)"
  shows "sorted (take (i + 1) (vs'[k := vs ! i]))"
    and "mset (take (i + 1) (vs'[k := vs ! i])) = mset (take (i + 1) vs)"
    and "drop (i + 1) (vs'[k := vs ! i]) = drop (i + 1) vs"
    and "length (vs'[k := vs ! i]) = length vs"
proof -
  from shift_down_inserts [OF sd i]
  have S: "k \<le> i" "vs'[k := vs ! i] = take k vs @ vs ! i # drop k (take i vs) @ drop (i + 1) vs"
    "\<forall>x\<in>set (drop k (take i vs)). vs ! i < x" "k = 0 \<or> vs ! (k - 1) \<le> vs ! i"
    by simp_all
  let ?ws = "vs'[k := vs ! i]"
  have ws: "?ws = (take k vs @ vs ! i # drop k (take i vs)) @ drop (i + 1) vs" by (simp add: S(2))
  have lenp: "length (take k vs @ vs ! i # drop k (take i vs)) = i + 1" using S(1) i by simp
  then have take: "take (i + 1) ?ws = take k vs @ vs ! i # drop k (take i vs)"
    unfolding ws by (metis append_eq_conv_conj)
  show "drop (i + 1) ?ws = drop (i + 1) vs"
    unfolding ws by (metis lenp append_eq_conv_conj)
  show "length ?ws = length vs" using S(1) i by (simp add: ws)
  have tt: "take k vs = take k (take i vs)" using S(1) by simp
  have "k = 0 \<or> take i vs ! (k - 1) \<le> vs ! i"
  proof (cases "k = 0")
    case False
    then have "k - 1 < i" using S(1) by linarith
    then show ?thesis using S(4) by simp
  qed simp
  then show "sorted (take (i + 1) ?ws)"
    unfolding take tt using S(1,3) srt i by (intro sorted_insert) auto
  have "mset (take k vs) + mset (drop k (take i vs)) = mset (take i vs)"
    unfolding tt by (simp only: mset_append [symmetric] append_take_drop_id)
  then show "mset (take (i + 1) ?ws) = mset (take (i + 1) vs)"
    using i unfolding take by (simp add: take_Suc_conv_app_nth)
qed

lemma sort_loop_sorts:
  assumes "sorted (take i vs)" and "i \<le> len" and "len \<le> length vs"
  shows "sort_loop vs i len = Inr (sort (take len vs) @ drop len vs)"
  using assms
proof (induction vs i len rule: sort_loop.induct)
  case (1 vs i len)
  show ?case
  proof (cases "i < len")
    case False
    then have "i = len" using "1.prems" by simp
    then show ?thesis using "1.prems" by (simp add: sort_loop.simps [of vs] sorted_sort_id)
  next
    case True
    then have i: "i < length vs" using "1.prems" by simp
    obtain vs' k where sd: "shift_down vs (vs ! i) i = (vs', k)" by fastforce
    let ?ws = "vs'[k := vs ! i]"
    note turn = insertion_turn [OF sd i "1.prems"(1)]
    have "sort_loop ?ws (i + 1) len = Inr (sort (take len ?ws) @ drop len ?ws)"
      using "1.IH" [OF True _ refl sd [symmetric] refl turn(1)] turn(4) "1.prems"(3) True i by simp
    moreover have pre: "take len us = take (i + 1) us @ take (len - (i + 1)) (drop (i + 1) us)"
      for us :: "i128 list"
      using True by (simp flip: take_add)
    have "mset (take len ?ws) = mset (take len vs)"
      unfolding pre [of ?ws] pre [of vs] by (simp only: mset_append turn(2,3))
    then have "sort (take len ?ws) = sort (take len vs)"
      by (intro properties_for_sort) simp_all
    moreover have "drop len ?ws = drop len vs"
      using turn(3) True by (metis drop_drop le_add_diff_inverse2 Suc_eq_plus1 Suc_leI)
    ultimately show ?thesis
      using True i by (simp add: sort_loop.simps [of vs i] sd)
  qed
qed

lemma sort_ascending_sorts:
  assumes "len \<le> length vs"
  shows "sort_ascending vs len = Inr (sort (take len vs) @ drop len vs)"
proof (cases "len = 0")
  case True
  then show ?thesis by (simp add: sort_ascending_def sort_loop.simps)
next
  case False
  then show ?thesis
    using assms by (cases vs) (auto simp: sort_ascending_def intro!: sort_loop_sorts)
qed


section \<open>The scan\<close>

text \<open>The slots from \<open>a\<close> up to \<open>b\<close>, and the observations of a ring that count, in slot order.\<close>

definition slots_between :: "u32 \<Rightarrow> u32 \<Rightarrow> u32 list" where
  "slots_between a b = map word_of_nat [unat a..<unat b]"

definition counted_at ::
    "OracleStore \<Rightarrow> Symbol \<Rightarrow> Symbol \<Rightarrow> u64 \<Rightarrow> u64 \<Rightarrow> u32 \<Rightarrow> Observation option" where
  "counted_at s region metric now bound_secs slot =
     (case read_obs s region metric slot of None \<Rightarrow> None
      | Some obs \<Rightarrow> if obs_counts s region metric now bound_secs slot obs then Some obs else None)"

definition counted_in ::
    "OracleStore \<Rightarrow> Symbol \<Rightarrow> Symbol \<Rightarrow> u64 \<Rightarrow> u64 \<Rightarrow> u32 list \<Rightarrow> Observation list" where
  "counted_in s region metric now bound_secs slots =
     List.map_filter (counted_at s region metric now bound_secs) slots"

lemma slots_between_done: "\<not> a < b \<Longrightarrow> slots_between a b = []"
  by (simp add: slots_between_def word_less_nat_alt)

lemma slots_between_next: "a < b \<Longrightarrow> slots_between a b = a # slots_between (a + 1) b"
  by (simp add: slots_between_def unat_add_1 upt_conv_Cons word_less_nat_alt)

lemma length_slots_between: "length (slots_between a b) = unat b - unat a"
  by (simp add: slots_between_def)

lemma length_map_filter_le: "length (List.map_filter f xs) \<le> length xs"
  by (induction xs) (simp_all add: map_filter_simps split: option.split)

lemma length_counted_in: "length (counted_in s r m now b slots) \<le> length slots"
  by (simp add: counted_in_def length_map_filter_le)

lemma counted_in_simps [simp]:
  "counted_in s r m now b [] = []"
  "counted_in s r m now b (k # ks) = (case counted_at s r m now b k of
     None \<Rightarrow> counted_in s r m now b ks | Some obs \<Rightarrow> obs # counted_in s r m now b ks)"
  by (simp_all add: counted_in_def map_filter_simps split: option.split)

lemma set_counted_in:
  "obs \<in> set (counted_in s r m now b ks) \<longleftrightarrow>
     (\<exists>k\<in>set ks. read_obs s r m k = Some obs \<and> obs_counts s r m now b k obs)"
  by (induction ks) (auto simp: counted_at_def split: option.splits if_splits)

lemma contains_publisher_iff: "contains_publisher ps p \<longleftrightarrow> p \<in> set ps"
  by (induction ps) auto

lemma median_scan_counts:
  assumes "length (slots_between slot cnt) + len \<le> length vs" and "distinct ps"
  shows "\<exists>vs' ps'. median_scan s r m now b cnt slot vs len ps =
      Inr (vs', len + length (counted_in s r m now b (slots_between slot cnt)), ps') \<and>
    length vs' = length vs \<and>
    take (len + length (counted_in s r m now b (slots_between slot cnt))) vs' =
      take len vs @ map obs_value (counted_in s r m now b (slots_between slot cnt)) \<and>
    distinct ps' \<and>
    set ps' = set ps \<union> obs_publisher ` set (counted_in s r m now b (slots_between slot cnt))"
  using assms
proof (induction "unat cnt - unat slot" arbitrary: slot vs len ps)
  case 0
  then have "\<not> slot < cnt" by (simp add: word_less_nat_alt)
  then show ?case using 0 by (simp add: slots_between_done median_scan.simps [of s r m now b cnt slot])
next
  case (Suc n)
  then have lt: "slot < cnt" by (simp add: word_less_nat_alt)
  then have n: "n = unat cnt - unat (slot + 1)" using Suc.hyps(2) by (simp add: unat_add_1)
  note sb = slots_between_next [OF lt]
  have le: "length (slots_between (slot + 1) cnt) + len + 1 \<le> length vs"
    using Suc.prems(1) by (simp add: sb)
  show ?case
  proof (cases "counted_at s r m now b slot")
    case None
    have "median_scan s r m now b cnt slot vs len ps
        = median_scan s r m now b cnt (slot + 1) vs len ps"
      using None lt by (auto simp: median_scan.simps [of s r m now b cnt slot] counted_at_def
          split: option.splits if_splits)
    with Suc.hyps(1) [OF n _ Suc.prems(2)] le None show ?thesis by (simp add: sb)
  next
    case (Some obs)
    let ?ws = "vs[len := obs_value obs]"
    let ?ps = "if contains_publisher ps (obs_publisher obs) then ps else ps @ [obs_publisher obs]"
    have "median_scan s r m now b cnt slot vs len ps
        = median_scan s r m now b cnt (slot + 1) ?ws (len + 1) ?ps"
      using Some lt le by (auto simp: median_scan.simps [of s r m now b cnt slot] counted_at_def
          split: option.splits if_splits)
    moreover have "take (len + 1) ?ws = take len vs @ [obs_value obs]"
      using le by (simp add: take_Suc_conv_app_nth)
    moreover have "distinct ?ps" "set ?ps = insert (obs_publisher obs) (set ps)"
      using Suc.prems(2) by (auto simp: contains_publisher_iff)
    ultimately show ?thesis
      using Suc.hyps(1) [OF n, of "len + 1" ?ws ?ps] le Some by (simp add: sb)
  qed
qed

section \<open>The median\<close>

text \<open>
  The specification: the median of the values of the observations that count, when they come from
  enough publishers. The code's ring, array and loops do not appear in it.
\<close>

definition median_value :: "i128 list \<Rightarrow> (OracleError, i128) result" where
  "median_value xs =
     (let ys = sort xs; mid = length xs div 2 in
      if odd (length xs) then Inr (ys ! mid)
      else bind_ok (ok_or (checked_add (ys ! (mid - 1)) (ys ! mid)) OrOverflow)
             (\<lambda>sum. Inr (sum sdiv 2)))"

definition median_spec :: "Observation list \<Rightarrow> (OracleError, i128) result" where
  "median_spec os =
     (if card (obs_publisher ` set os) < 2 then Inl (Err ObservationStale)
      else median_value (map obs_value os))"

text \<open>The observations of a region and metric that count now: stored, unchallenged and fresh.\<close>

definition counted :: "Env \<Rightarrow> Symbol \<Rightarrow> Symbol \<Rightarrow> OracleStore \<Rightarrow> Observation list" where
  "counted env region metric s =
     counted_in s region metric (timestamp env) (read_staleness_hours s * SECONDS_PER_HOUR)
       (slots_between 0 (obs_count (read_head s region metric)))"

lemma median_refines:
  assumes cnt: "obs_count (read_head s region metric) \<le> 16"
    and bound: "read_staleness_hours s = DEFAULT_STALENESS_HOURS"
  shows "median env region metric s = median_spec (counted env region metric s)"
proof -
  let ?cnt = "obs_count (read_head s region metric)"
  let ?os = "counted env region metric s"
  have mul: "checked_umul (read_staleness_hours s) SECONDS_PER_HOUR
      = Some (read_staleness_hours s * SECONDS_PER_HOUR)"
    by (simp add: bound checked_umul_def DEFAULT_STALENESS_HOURS_def SECONDS_PER_HOUR_def)
  show ?thesis
  proof (cases "?cnt = 0")
    case True
    then have "?os = []" by (simp add: counted_def slots_between_done)
    with True show ?thesis by (simp add: median_def Let_def median_spec_def)
  next
    case False
    have "length (slots_between 0 ?cnt) + 0 \<le> length (replicate (unat RING_SIZE) (0::i128))"
      using cnt by (simp add: length_slots_between RING_SIZE_def word_le_nat_alt)
    from median_scan_counts [OF this distinct.simps(1) [THEN iffD2, OF TrueI],
        of s region metric "timestamp env" "read_staleness_hours s * SECONDS_PER_HOUR"]
    obtain vs ps where scan: "median_scan s region metric (timestamp env)
        (read_staleness_hours s * SECONDS_PER_HOUR) ?cnt 0 (replicate (unat RING_SIZE) 0) 0 []
          = Inr (vs, length ?os, ps)"
      and len: "length vs = 16" and vals: "take (length ?os) vs = map obs_value ?os"
      and ps: "distinct ps" "set ps = obs_publisher ` set ?os"
      by (auto simp: counted_def RING_SIZE_def)
    have card: "length ps = card (obs_publisher ` set ?os)"
      using ps distinct_card [of ps] by simp
    have le: "length ?os \<le> length vs"
      using vals by (metis length_map length_take min.absorb_iff2 min.commute)
    show ?thesis
    proof (cases "length ps < 2")
      case True
      then show ?thesis
        using False by (simp add: median_def Let_def mul scan MIN_PUBLISHERS_def median_spec_def card)
    next
      case pub: False
      have "ps = []" if "?os = []" using that ps by simp
      with pub have ne: "?os \<noteq> []" by auto
      have "(sort (take (length ?os) vs) @ drop (length ?os) vs) ! i = sort (map obs_value ?os) ! i"
        if "i < length ?os" for i
        using that le by (simp add: nth_append vals)
      moreover have "length ?os div 2 < length ?os" "length ?os div 2 - 1 < length ?os"
        using ne by (simp_all add: less_imp_diff_less)
      ultimately show ?thesis
        using False pub ne
        by (simp add: median_def Let_def mul scan MIN_PUBLISHERS_def median_spec_def card
            sort_ascending_sorts [OF le] median_value_def odd_iff_mod_2_eq_one)
    qed
  qed
qed


section \<open>Robustness\<close>

text \<open>An entry of a sorted list with enough entries on its own side is on that side.\<close>

lemma sorted_nth_ge:
  fixes ys :: "int list"
  assumes "sorted ys" and "k < length ys" and "length ys - k - 1 < length (filter (\<lambda>x. lo \<le> x) ys)"
  shows "lo \<le> ys ! k"
proof (rule ccontr)
  assume lt: "\<not> lo \<le> ys ! k"
  have "\<not> lo \<le> x" if "x \<in> set (take (k + 1) ys)" for x
  proof -
    from that obtain i where "i < k + 1" "i < length ys" "x = ys ! i" by (auto simp: in_set_conv_nth)
    then have "x \<le> ys ! k" using assms(1,2) by (auto intro: sorted_nth_mono)
    with lt show ?thesis by simp
  qed
  then have "filter (\<lambda>x. lo \<le> x) (take (k + 1) ys) = []" by (simp add: filter_empty_conv)
  then have "filter (\<lambda>x. lo \<le> x) ys = filter (\<lambda>x. lo \<le> x) (drop (k + 1) ys)"
    by (metis append_take_drop_id filter_append self_append_conv2)
  then have "length (filter (\<lambda>x. lo \<le> x) ys) \<le> length ys - (k + 1)"
    by (metis length_drop length_filter_le)
  with assms(3) show False by simp
qed

lemma sorted_nth_le:
  fixes ys :: "int list"
  assumes "sorted ys" and "k < length ys" and "k < length (filter (\<lambda>x. x \<le> hi) ys)"
  shows "ys ! k \<le> hi"
proof (rule ccontr)
  assume gt: "\<not> ys ! k \<le> hi"
  have "\<not> x \<le> hi" if "x \<in> set (drop k ys)" for x
  proof -
    from that obtain i where "i < length ys - k" "x = ys ! (k + i)" by (auto simp: in_set_conv_nth)
    then have "ys ! k \<le> x" using assms(1,2) by (auto intro: sorted_nth_mono)
    with gt show ?thesis by simp
  qed
  then have "filter (\<lambda>x. x \<le> hi) (drop k ys) = []" by (simp add: filter_empty_conv)
  then have "filter (\<lambda>x. x \<le> hi) ys = filter (\<lambda>x. x \<le> hi) (take k ys)"
    by (metis append_take_drop_id filter_append append_Nil2)
  then have "length (filter (\<lambda>x. x \<le> hi) ys) \<le> k"
    by (metis length_filter_le length_take min.bounded_iff)
  with assms(3) show False by simp
qed

lemma length_filter_sort: "length (filter P (sort xs)) = length (filter P xs)"
  by (metis mset_filter mset_sort size_mset)

text \<open>If more than half of the values lie between two bounds, so does their median.\<close>

lemma median_value_between:
  assumes maj: "length xs < 2 * length (filter (\<lambda>x. lo \<le> x \<and> x \<le> hi) xs)"
    and "0 \<le> lo" and med: "median_value xs = Inr v"
  shows "lo \<le> v \<and> v \<le> hi"
proof -
  let ?ys = "sort xs" and ?n = "length xs"
  let ?mid = "?n div 2"
  have "length (filter (\<lambda>x. lo \<le> x \<and> x \<le> hi) xs) \<le> length (filter (\<lambda>x. lo \<le> x) xs)"
    and "length (filter (\<lambda>x. lo \<le> x \<and> x \<le> hi) xs) \<le> length (filter (\<lambda>x. x \<le> hi) xs)"
    by (induction xs) auto
  with maj have lo: "?n < 2 * length (filter (\<lambda>x. lo \<le> x) ?ys)"
    and hi: "?n < 2 * length (filter (\<lambda>x. x \<le> hi) ?ys)"
    by (simp_all add: length_filter_sort)
  have "0 < ?n" using lo length_filter_le [of "\<lambda>x. lo \<le> x" ?ys] by (cases "xs = []") auto
  then have mid: "lo \<le> ?ys ! ?mid" "?ys ! ?mid \<le> hi"
    using lo hi by (intro sorted_nth_ge sorted_nth_le; simp; linarith)+
  show ?thesis
  proof (cases "odd ?n")
    case True
    with med mid show ?thesis by (simp add: median_value_def Let_def)
  next
    case False
    then have ev: "?n = 2 * ?mid" by simp
    with \<open>0 < ?n\<close> have pos: "0 < ?mid" by linarith
    have "?n - (?mid - 1) - 1 = ?mid" using ev pos by linarith
    then have "?n - (?mid - 1) - 1 < length (filter (\<lambda>x. lo \<le> x) ?ys)"
      "?mid - 1 < length (filter (\<lambda>x. x \<le> hi) ?ys)" "?mid - 1 < ?n"
      using lo hi ev pos by linarith+
    then have low: "lo \<le> ?ys ! (?mid - 1)" "?ys ! (?mid - 1) \<le> hi"
      by (simp_all add: sorted_nth_ge sorted_nth_le)
    have "v = (?ys ! (?mid - 1) + ?ys ! ?mid) sdiv 2"
      using med False by (auto simp: median_value_def Let_def bind_ok_Inr ok_or_Inr checked_add_Some)
    also have "\<dots> = (?ys ! (?mid - 1) + ?ys ! ?mid) div 2" using assms(2) low mid by simp
    finally have v: "v = (?ys ! (?mid - 1) + ?ys ! ?mid) div 2" .
    have between: "lo \<le> (a + b) div 2 \<and> (a + b) div 2 \<le> hi"
      if "lo \<le> a" "a \<le> hi" "lo \<le> b" "b \<le> hi" for a b
      using that by linarith
    show ?thesis unfolding v by (rule between [OF low mid])
  qed
qed

end
