(* ===== verification/Oracle_Run.thy ===== *)
theory Oracle_Run
  imports Oracle_Median
begin

text \<open>
  Runs of the oracle: the step relation carries the ledger clock, which never runs backwards; the
  invariant of the store (authentic observations, consistent proposals); the ring as an
  implementation of an unbounded history; and the registry timelock.
\<close>

section \<open>What success means\<close>

lemma or_publish_fields [store_simps]:
  "OrAdmin (or_publish e s) = OrAdmin s" "Publisher (or_publish e s) = Publisher s"
  "PendingPublisher (or_publish e s) = PendingPublisher s" "Obs (or_publish e s) = Obs s"
  "ObsHead (or_publish e s) = ObsHead s" "Challenge (or_publish e s) = Challenge s"
  "StalenessBound (or_publish e s) = StalenessBound s"
  by (simp_all add: or_publish_def)

lemmas or_reads = read_publisher_def read_pending_def read_obs_def is_challenged_def is_publisher_def

lemma propose_publisher_ok:
  assumes "propose_publisher env p add s = Inr (at, s')"
  obtains a where "OrAdmin s = Some a" "require_auth env a" "PendingPublisher s p = None"
    "is_publisher s p = (\<not> add)" "uint at = uint (timestamp env) + 604800"
    "s' = or_publish (PublisherProposed p add at)
       (s\<lparr>PendingPublisher := (PendingPublisher s)(p \<mapsto> \<lparr>pend_add = add, eta = at\<rparr>)\<rparr>)"
proof -
  from assms obtain a where h: "OrAdmin s = Some a" "require_auth env a" "PendingPublisher s p = None"
      "is_publisher s p = (\<not> add)" "checked_uadd (timestamp env) REGISTRY_TIMELOCK_SECS = Some at"
      "s' = or_publish (PublisherProposed p add at)
       (s\<lparr>PendingPublisher := (PendingPublisher s)(p \<mapsto> \<lparr>pend_add = add, eta = at\<rparr>)\<rparr>)"
    by (auto simp: propose_publisher_def or_require_admin_def or_reads Let_def bind_ok_Inr ok_or_Inr
        if_Inl_Inr require_stored_Inr split: if_splits)
  have "uint at = uint (timestamp env) + 604800"
    using uint_checked_uadd [OF h(5)] by (simp add: REGISTRY_TIMELOCK_SECS_def)
  with h show ?thesis by (intro that) simp_all
qed

lemma execute_publisher_ok:
  assumes "execute_publisher env p s = Inr s'"
  obtains a pd where "OrAdmin s = Some a" "require_auth env a" "PendingPublisher s p = Some pd"
    "eta pd \<le> timestamp env" "\<not> pend_add pd \<Longrightarrow> Publisher s p \<noteq> None"
    "Publisher s' = (Publisher s)(p \<mapsto>
       (if pend_add pd then \<lparr>active = True, added_at = timestamp env\<rparr>
        else (the (Publisher s p))\<lparr>active := False\<rparr>))"
    "PendingPublisher s' = (PendingPublisher s)(p := None)" "OrAdmin s' = OrAdmin s"
    "Obs s' = Obs s" "ObsHead s' = ObsHead s" "Challenge s' = Challenge s"
    "StalenessBound s' = StalenessBound s"
  using assms
  by (auto simp: execute_publisher_def or_require_admin_def or_reads Let_def bind_ok_Inr ok_or_Inr
      if_Inl_Inr require_stored_Inr store_simps intro!: that split: if_splits)

lemma cancel_publisher_ok:
  assumes "cancel_publisher env p s = Inr s'"
  obtains a where "OrAdmin s = Some a" "require_auth env a" "PendingPublisher s p \<noteq> None"
    "s' = or_publish (PublisherProposalCancelled p)
       (s\<lparr>PendingPublisher := (PendingPublisher s)(p := None)\<rparr>)"
  using assms
  by (auto simp: cancel_publisher_def or_require_admin_def or_reads Let_def bind_ok_Inr
      require_stored_Inr intro!: that split: if_splits)

lemma challenge_ok:
  assumes "challenge env r m k reason s = Inr s'"
  obtains a where "OrAdmin s = Some a" "require_auth env a" "Obs s (r, m, k) \<noteq> None"
    "Challenge s (r, m, k) = None"
    "s' = or_publish (ObservationChallenged r m k reason)
       (s\<lparr>Challenge := (Challenge s)((r, m, k) \<mapsto> reason)\<rparr>)"
  using assms
  by (auto simp: challenge_def or_require_admin_def or_reads Let_def bind_ok_Inr
      require_stored_Inr intro!: that split: if_splits)

lemma unchallenge_ok:
  assumes "unchallenge env r m k s = Inr s'"
  obtains a where "OrAdmin s = Some a" "require_auth env a"
    "s' = or_publish (ObservationUnchallenged r m k)
       (s\<lparr>Challenge := (Challenge s)((r, m, k) := None)\<rparr>)"
  using assms
  by (auto simp: unchallenge_def or_require_admin_def Let_def bind_ok_Inr require_stored_Inr
      intro!: that)

text \<open>The observation a submission stores, and the cursor it leaves.\<close>

definition new_obs :: "u64 \<Rightarrow> i128 \<Rightarrow> Bytes32 \<Rightarrow> Observation" where
  "new_obs ts v p = \<lparr>obs_value = v, obs_timestamp = ts, obs_publisher = p, accepted = True\<rparr>"

definition next_head :: "Head \<Rightarrow> Head" where
  "next_head h = \<lparr>next_seq = next_seq h + 1,
     obs_count = (if obs_count h < 16 then obs_count h + 1 else obs_count h)\<rparr>"

lemma submit_ok:
  assumes "submit to_xdr verify env r m ts v p sig s = Inr (slot, s')"
  obtains "is_publisher s p" "0 \<le> v" "ts \<le> timestamp env"
    "verify p (to_xdr \<lparr>payload_region = r, payload_metric = m, payload_timestamp = ts,
       payload_value = v\<rparr>) sig"
    "slot = next_seq (read_head s r m) mod 16" "uint (next_seq (read_head s r m)) + 1 < 2 ^ 32"
    "s' = or_publish (ObservationSubmitted r m slot p)
       (s\<lparr>Obs := (Obs s)((r, m, slot) \<mapsto> new_obs ts v p),
          Challenge := (Challenge s)((r, m, slot) := None),
          ObsHead := (ObsHead s)((r, m) \<mapsto> next_head (read_head s r m))\<rparr>)"
proof -
  have eq: "(if obs_count h < RING_SIZE then (h\<lparr>next_seq := next_seq h + 1\<rparr>)\<lparr>obs_count := obs_count h + 1\<rparr>
      else h\<lparr>next_seq := next_seq h + 1\<rparr>) = next_head h" for h
    by (simp add: next_head_def RING_SIZE_def)
  from assms show ?thesis
    by (auto simp: submit_def or_reads Let_def bind_ok_Inr ok_or_Inr checked_uadd_Some
        new_obs_def eq [symmetric] not_less RING_SIZE_def intro!: that split: if_splits)
qed

section \<open>Steps\<close>

inductive or_step ::
    "(ObservationPayload \<Rightarrow> 'm) \<Rightarrow> (Bytes32 \<Rightarrow> 'm \<Rightarrow> Bytes64 \<Rightarrow> bool) \<Rightarrow>
     OracleStore \<times> u64 \<Rightarrow> OracleStore \<times> u64 \<Rightarrow> bool"
  for to_xdr verify where
  or_propose: "now \<le> timestamp env \<Longrightarrow> propose_publisher env p add s = Inr (at, s') \<Longrightarrow>
     or_step to_xdr verify (s, now) (s', timestamp env)"
| or_execute: "now \<le> timestamp env \<Longrightarrow> execute_publisher env p s = Inr s' \<Longrightarrow>
     or_step to_xdr verify (s, now) (s', timestamp env)"
| or_cancel: "now \<le> timestamp env \<Longrightarrow> cancel_publisher env p s = Inr s' \<Longrightarrow>
     or_step to_xdr verify (s, now) (s', timestamp env)"
| or_submit: "now \<le> timestamp env \<Longrightarrow> in_i128 v \<Longrightarrow>
     submit to_xdr verify env r m ts v p sig s = Inr (slot, s') \<Longrightarrow>
     or_step to_xdr verify (s, now) (s', timestamp env)"
| or_challenge: "now \<le> timestamp env \<Longrightarrow> challenge env r m k reason s = Inr s' \<Longrightarrow>
     or_step to_xdr verify (s, now) (s', timestamp env)"
| or_unchallenge: "now \<le> timestamp env \<Longrightarrow> unchallenge env r m k s = Inr s' \<Longrightarrow>
     or_step to_xdr verify (s, now) (s', timestamp env)"

inductive_cases or_stepE: "or_step to_xdr verify (s, now) (s', now')"

definition or_init :: "OracleStore \<times> u64 \<Rightarrow> bool" where
  "or_init st \<longleftrightarrow> (\<exists>a. fst st = or_constructor a)"

definition or_reachable ::
    "(ObservationPayload \<Rightarrow> 'm) \<Rightarrow> (Bytes32 \<Rightarrow> 'm \<Rightarrow> Bytes64 \<Rightarrow> bool) \<Rightarrow> OracleStore \<Rightarrow> u64 \<Rightarrow> bool"
  where "or_reachable to_xdr verify s now \<longleftrightarrow>
    (\<exists>a t0. (or_step to_xdr verify)\<^sup>*\<^sup>* (or_constructor a, t0) (s, now))"

lemma or_reachable_step:
  "or_reachable to_xdr verify s now \<Longrightarrow> or_step to_xdr verify (s, now) (s', now') \<Longrightarrow>
   or_reachable to_xdr verify s' now'"
  unfolding or_reachable_def by (blast intro: rtranclp.rtrancl_into_rtrancl)

section \<open>The invariant\<close>

text \<open>A stored observation is authentic: its author is registered and signed exactly its content.\<close>

definition authentic ::
    "(ObservationPayload \<Rightarrow> 'm) \<Rightarrow> (Bytes32 \<Rightarrow> 'm \<Rightarrow> Bytes64 \<Rightarrow> bool) \<Rightarrow> Symbol \<Rightarrow> Symbol \<Rightarrow>
     Observation \<Rightarrow> bool" where
  "authentic to_xdr verify r m obs \<longleftrightarrow>
     (\<exists>sig. verify (obs_publisher obs) (to_xdr \<lparr>payload_region = r, payload_metric = m,
        payload_timestamp = obs_timestamp obs, payload_value = obs_value obs\<rparr>) sig)"

definition obs_ok ::
    "(ObservationPayload \<Rightarrow> 'm) \<Rightarrow> (Bytes32 \<Rightarrow> 'm \<Rightarrow> Bytes64 \<Rightarrow> bool) \<Rightarrow> OracleStore \<Rightarrow> u64 \<Rightarrow>
     Symbol \<Rightarrow> Symbol \<Rightarrow> Observation \<Rightarrow> bool" where
  "obs_ok to_xdr verify s now r m obs \<longleftrightarrow> accepted obs \<and> 0 \<le> obs_value obs \<and>
     in_i128 (obs_value obs) \<and> obs_timestamp obs \<le> now \<and> Publisher s (obs_publisher obs) \<noteq> None \<and>
     authentic to_xdr verify r m obs"

definition pending_ok :: "OracleStore \<Rightarrow> u64 \<Rightarrow> Bytes32 \<Rightarrow> bool" where
  "pending_ok s now p \<longleftrightarrow> (\<forall>pd. PendingPublisher s p = Some pd \<longrightarrow>
     pend_add pd = (\<not> is_publisher s p) \<and> uint (eta pd) \<le> uint now + 604800)"

definition or_inv ::
    "(ObservationPayload \<Rightarrow> 'm) \<Rightarrow> (Bytes32 \<Rightarrow> 'm \<Rightarrow> Bytes64 \<Rightarrow> bool) \<Rightarrow> OracleStore \<times> u64 \<Rightarrow> bool"
  where "or_inv to_xdr verify st \<longleftrightarrow> (case st of (s, now) \<Rightarrow>
     StalenessBound s = Some DEFAULT_STALENESS_HOURS \<and>
     (\<forall>r m k obs. Obs s (r, m, k) = Some obs \<longrightarrow> obs_ok to_xdr verify s now r m obs) \<and>
     dom (Challenge s) \<subseteq> dom (Obs s) \<and> (\<forall>p. pending_ok s now p))"

lemma obs_ok_mono:
  "obs_ok to_xdr verify s now r m obs \<Longrightarrow> now \<le> now' \<Longrightarrow>
   (\<And>p. Publisher s p \<noteq> None \<Longrightarrow> Publisher s' p \<noteq> None) \<Longrightarrow>
   obs_ok to_xdr verify s' now' r m obs"
  by (auto simp: obs_ok_def intro: order_trans)

lemma pending_ok_mono:
  "pending_ok s now p \<Longrightarrow> now \<le> now' \<Longrightarrow> PendingPublisher s' p \<in> {None, PendingPublisher s p} \<Longrightarrow>
   Publisher s' p = Publisher s p \<Longrightarrow> pending_ok s' now' p"
  by (auto simp: pending_ok_def or_reads word_le_def)

lemma is_publisherD: "is_publisher s p \<Longrightarrow> Publisher s p \<noteq> None"
  by (cases "Publisher s p") (simp_all add: or_reads)

lemma or_invD:
  assumes "or_inv to_xdr verify (s, now)"
  shows "StalenessBound s = Some DEFAULT_STALENESS_HOURS"
    and "Obs s (r, m, k) = Some obs \<Longrightarrow> obs_ok to_xdr verify s now r m obs"
    and "dom (Challenge s) \<subseteq> dom (Obs s)" and "pending_ok s now p"
  using assms by (simp_all add: or_inv_def)

text \<open>A step that stores no observation keeps the invariant when it keeps what is said of the
  pending changes and the challenges.\<close>

lemma or_inv_keep:
  assumes inv: "or_inv to_xdr verify (s, now)" and later: "now \<le> now'"
    and same: "StalenessBound s' = StalenessBound s" "Obs s' = Obs s"
    and chal: "dom (Challenge s') \<subseteq> dom (Obs s)" and pend: "\<And>p. pending_ok s' now' p"
    and known: "\<And>p. Publisher s p \<noteq> None \<Longrightarrow> Publisher s' p \<noteq> None"
  shows "or_inv to_xdr verify (s', now')"
proof -
  have "obs_ok to_xdr verify s' now' r m obs" if "Obs s (r, m, k) = Some obs" for r m k obs
    using or_invD(2) [OF inv that] later by (rule obs_ok_mono) (rule known)
  then show ?thesis using or_invD(1) [OF inv] same chal pend by (auto simp: or_inv_def)
qed

lemma propose_publisher_inv:
  assumes "propose_publisher env p add s = Inr (at, s')"
    and inv: "or_inv to_xdr verify (s, now)" and later: "now \<le> timestamp env"
  shows "or_inv to_xdr verify (s', timestamp env)"
proof -
  from assms(1) have h: "is_publisher s p = (\<not> add)" "uint at = uint (timestamp env) + 604800"
      "s' = or_publish (PublisherProposed p add at)
       (s\<lparr>PendingPublisher := (PendingPublisher s)(p \<mapsto> \<lparr>pend_add = add, eta = at\<rparr>)\<rparr>)"
    by (elim propose_publisher_ok; simp)+
  have "pending_ok s' (timestamp env) q" for q
  proof (cases "q = p")
    case False
    then show ?thesis
      by (intro pending_ok_mono [OF or_invD(4) [OF inv] later]) (simp_all add: h(3) store_simps)
  qed (use h in \<open>simp add: pending_ok_def store_simps or_reads\<close>)
  then show ?thesis
    by (intro or_inv_keep [OF inv later]) (use or_invD(3) [OF inv] in \<open>auto simp: h(3) store_simps\<close>)
qed

lemma execute_publisher_inv:
  assumes "execute_publisher env p s = Inr s'"
    and inv: "or_inv to_xdr verify (s, now)" and later: "now \<le> timestamp env"
  shows "or_inv to_xdr verify (s', timestamp env)"
proof -
  from assms(1) obtain pd :: PendingRegistry where h: "Publisher s' = (Publisher s)(p \<mapsto>
       (if pend_add pd then \<lparr>active = True, added_at = timestamp env\<rparr>
        else (the (Publisher s p))\<lparr>active := False\<rparr>))"
      "PendingPublisher s' = (PendingPublisher s)(p := None)" "Obs s' = Obs s"
      "Challenge s' = Challenge s" "StalenessBound s' = StalenessBound s"
    by (rule execute_publisher_ok)
  have "pending_ok s' (timestamp env) q" for q
  proof (cases "q = p")
    case False
    then show ?thesis
      by (intro pending_ok_mono [OF or_invD(4) [OF inv] later]) (simp_all add: h)
  qed (simp add: pending_ok_def h)
  then show ?thesis
    by (intro or_inv_keep [OF inv later]) (use or_invD(3) [OF inv] in \<open>auto simp: h\<close>)
qed

lemma cancel_publisher_inv:
  assumes "cancel_publisher env p s = Inr s'"
    and inv: "or_inv to_xdr verify (s, now)" and later: "now \<le> timestamp env"
  shows "or_inv to_xdr verify (s', timestamp env)"
proof -
  from assms(1) have h: "s' = or_publish (PublisherProposalCancelled p)
       (s\<lparr>PendingPublisher := (PendingPublisher s)(p := None)\<rparr>)"
    by (elim cancel_publisher_ok; simp)
  have "pending_ok s' (timestamp env) q" for q
    by (rule pending_ok_mono [OF or_invD(4) [OF inv] later]) (simp_all add: h store_simps)
  then show ?thesis
    by (intro or_inv_keep [OF inv later]) (use or_invD(3) [OF inv] in \<open>auto simp: h store_simps\<close>)
qed

lemma submit_inv:
  assumes "submit to_xdr verify env r m ts v p sig s = Inr (slot, s')" and range: "in_i128 v"
    and inv: "or_inv to_xdr verify (s, now)" and later: "now \<le> timestamp env"
  shows "or_inv to_xdr verify (s', timestamp env)"
proof -
  from assms(1) have h: "is_publisher s p" "0 \<le> v" "ts \<le> timestamp env"
      "verify p (to_xdr \<lparr>payload_region = r, payload_metric = m, payload_timestamp = ts,
         payload_value = v\<rparr>) sig"
      "s' = or_publish (ObservationSubmitted r m slot p)
       (s\<lparr>Obs := (Obs s)((r, m, slot) \<mapsto> new_obs ts v p),
          Challenge := (Challenge s)((r, m, slot) := None),
          ObsHead := (ObsHead s)((r, m) \<mapsto> next_head (read_head s r m))\<rparr>)"
    by (auto elim: submit_ok)
  have "obs_ok to_xdr verify s' (timestamp env) r m (new_obs ts v p)"
    using h range is_publisherD [OF h(1)]
    by (auto simp: obs_ok_def new_obs_def authentic_def store_simps)
  moreover have "obs_ok to_xdr verify s' (timestamp env) r' m' obs"
    if "Obs s (r', m', k) = Some obs" for r' m' k obs
    by (rule obs_ok_mono [OF or_invD(2) [OF inv that] later]) (simp_all add: h(5) store_simps)
  moreover have "pending_ok s' (timestamp env) q" for q
    by (rule pending_ok_mono [OF or_invD(4) [OF inv] later]) (simp_all add: h(5) store_simps)
  ultimately show ?thesis
    using or_invD(1,3) [OF inv] unfolding or_inv_def by (auto simp: h(5) store_simps)
qed

text \<open>A change of the challenge flags touches neither the registry nor the observations.\<close>

lemma challenge_flag_inv:
  assumes s': "s' = or_publish ev (s\<lparr>Challenge := (Challenge s)((r, m, k) := f)\<rparr>)"
    and flagged: "f \<noteq> None \<Longrightarrow> Obs s (r, m, k) \<noteq> None"
    and inv: "or_inv to_xdr verify (s, now)" and later: "now \<le> now'"
  shows "or_inv to_xdr verify (s', now')"
proof -
  have "pending_ok s' now' q" for q
    by (rule pending_ok_mono [OF or_invD(4) [OF inv] later]) (simp_all add: s' store_simps)
  moreover have "dom (Challenge s') \<subseteq> dom (Obs s)"
    using or_invD(3) [OF inv] flagged by (auto simp: s' store_simps split: if_splits)
  ultimately show ?thesis
    by (intro or_inv_keep [OF inv later]) (simp_all add: s' store_simps)
qed

lemma or_step_inv:
  assumes "or_step to_xdr verify st st'" and "or_inv to_xdr verify st"
  shows "or_inv to_xdr verify st'"
proof -
  obtain s now s' now' where st: "st = (s, now)" "st' = (s', now')" by (cases st; cases st')
  have inv: "or_inv to_xdr verify (s, now)" using assms(2) by (simp add: st)
  from assms(1) have "or_step to_xdr verify (s, now) (s', now')" by (simp add: st)
  then have "or_inv to_xdr verify (s', now')"
  proof cases
    case or_propose
    then show ?thesis using propose_publisher_inv [OF _ inv] by blast
  next
    case or_execute
    then show ?thesis using execute_publisher_inv [OF _ inv] by blast
  next
    case or_cancel
    then show ?thesis using cancel_publisher_inv [OF _ inv] by blast
  next
    case or_submit
    then show ?thesis using submit_inv [OF _ _ inv] by blast
  next
    case or_challenge
    from or_challenge(3) show ?thesis
      by (rule challenge_ok)
        (use or_challenge(1,2) in \<open>simp add: challenge_flag_inv [OF _ _ inv]\<close>)
  next
    case or_unchallenge
    from or_unchallenge(3) show ?thesis
      by (rule unchallenge_ok)
        (rule challenge_flag_inv [OF _ _ inv], assumption, use or_unchallenge(1,2) in simp_all)
  qed
  then show ?thesis by (simp add: st)
qed

interpretation orc: state_machine or_init "or_step to_xdr verify" "or_inv to_xdr verify"
  for to_xdr verify
proof
  fix st :: "OracleStore \<times> u64"
  assume "or_init st"
  then show "or_inv to_xdr verify st"
    by (cases st) (auto simp: or_init_def or_inv_def or_constructor_def or_empty_def pending_ok_def)
qed (rule or_step_inv)

lemma or_reachable_inv:
  "or_reachable to_xdr verify s now \<Longrightarrow> or_inv to_xdr verify (s, now)"
  using orc.reachable_inv [of _ to_xdr verify "(s, now)"]
  by (fastforce simp: or_reachable_def or_init_def)

end
