(* ===== verification/Oracle_Ring.thy ===== *)
theory Oracle_Ring
  imports Oracle_Run
begin

text \<open>
  Two views of a run of the oracle: the ring buffer as an implementation of an unbounded history
  of submissions of which it keeps the last sixteen, and the registry timelock as an invariant of
  the runs that start with no proposal pending for a key.
\<close>

section \<open>The ring refines the history\<close>

text \<open>The ring of a region and metric holds the last sixteen entries of the history \<open>h\<close>.\<close>

definition ring_holds :: "OracleStore \<Rightarrow> Symbol \<Rightarrow> Symbol \<Rightarrow> Observation list \<Rightarrow> bool" where
  "ring_holds s r m h \<longleftrightarrow>
     unat (next_seq (read_head s r m)) = length h \<and>
     unat (obs_count (read_head s r m)) = min 16 (length h) \<and>
     (\<forall>i<length h. length h \<le> i + 16 \<longrightarrow> Obs s (r, m, word_of_nat (i mod 16)) = Some (h ! i)) \<and>
     (\<forall>k. min 16 (length h) \<le> unat k \<longrightarrow> Obs s (r, m, k) = None)"

type_synonym history = "Symbol \<Rightarrow> Symbol \<Rightarrow> Observation list"

definition or_refines :: "OracleStore \<Rightarrow> history \<Rightarrow> bool" where
  "or_refines s H \<longleftrightarrow> (\<forall>r m. ring_holds s r m (H r m))"

text \<open>The abstract operation: a submission appends to its history.\<close>

definition record_obs :: "Symbol \<Rightarrow> Symbol \<Rightarrow> Observation \<Rightarrow> history \<Rightarrow> history" where
  "record_obs r m obs H = H(r := (H r)(m := H r m @ [obs]))"

lemma ring_holds_same:
  assumes "ring_holds s r m h" and "read_head s' r m = read_head s r m"
    and "\<And>k. Obs s' (r, m, k) = Obs s (r, m, k)"
  shows "ring_holds s' r m h"
  using assms by (simp add: ring_holds_def)

lemma word_of_nat_mod_16: "n < 2 ^ 32 \<Longrightarrow> (word_of_nat (n mod 16) :: u32) = word_of_nat n mod 16"
  by (simp add: word_unat_eq_iff unat_mod take_bit_nat_eq_self unsigned_of_nat)

lemma slot_word_inj:
  "i mod 16 \<noteq> j mod 16 \<Longrightarrow> (word_of_nat (i mod 16) :: u32) \<noteq> word_of_nat (j mod 16)"
  by (simp add: word_unat_eq_iff unsigned_of_nat take_bit_nat_eq_self)

text \<open>Two indices less than sixteen apart have different slots.\<close>

lemma slots_differ: "i < n \<Longrightarrow> n < i + 16 \<Longrightarrow> i mod 16 \<noteq> n mod (16::nat)"
proof
  assume "i < n" "n < i + 16" "i mod 16 = n mod 16"
  then have "16 dvd n - i" by (metis mod_eq_dvd_iff_nat less_imp_le)
  with \<open>i < n\<close> \<open>n < i + 16\<close> show False by (auto dest: dvd_imp_le)
qed

lemma ring_append:
  assumes holds: "ring_holds s r m h" and room: "length h + 1 < 2 ^ 32"
    and obs: "\<And>k. Obs s' (r, m, k) =
      (if k = next_seq (read_head s r m) mod 16 then Some x else Obs s (r, m, k))"
    and head: "read_head s' r m = next_head (read_head s r m)"
  shows "ring_holds s' r m (h @ [x])"
proof -
  let ?n = "length h"
  let ?hd = "read_head s r m"
  from holds have n: "unat (next_seq ?hd) = ?n" "unat (obs_count ?hd) = min 16 ?n"
    and old: "\<And>i. i < ?n \<Longrightarrow> ?n \<le> i + 16 \<Longrightarrow> Obs s (r, m, word_of_nat (i mod 16)) = Some (h ! i)"
    and none: "\<And>k. min 16 ?n \<le> unat k \<Longrightarrow> Obs s (r, m, k) = None"
    by (simp_all add: ring_holds_def)
  have seq: "next_seq ?hd = word_of_nat ?n" by (simp flip: n(1))
  have slot: "next_seq ?hd mod 16 = word_of_nat (?n mod 16)"
    using room by (simp add: seq word_of_nat_mod_16)
  have "unat (next_seq ?hd + 1) = ?n + 1"
    using room by (simp add: unat_word_ariths n(1))
  moreover have "unat (obs_count (next_head ?hd)) = min 16 (?n + 1)"
  proof (cases "obs_count ?hd < 16")
    case True
    then show ?thesis using n(2) unat_add_1 [OF True] by (simp add: next_head_def word_less_nat_alt)
  next
    case False
    then show ?thesis using n(2) by (simp add: next_head_def word_less_nat_alt)
  qed
  moreover have "Obs s' (r, m, word_of_nat (i mod 16)) = Some ((h @ [x]) ! i)"
    if "i < ?n + 1" "?n + 1 \<le> i + 16" for i
  proof (cases "i = ?n")
    case True
    then show ?thesis by (simp add: obs slot)
  next
    case False
    then have i: "i < ?n" using that by simp
    then have "word_of_nat (i mod 16) \<noteq> (word_of_nat (?n mod 16) :: u32)"
      using that by (intro slot_word_inj slots_differ) simp_all
    then show ?thesis using old [OF i] that i by (simp add: obs slot nth_append)
  qed
  moreover have "Obs s' (r, m, k) = None" if "min 16 (?n + 1) \<le> unat k" for k
  proof -
    have "unat (word_of_nat (?n mod 16) :: u32) = ?n mod 16"
      by (simp add: unsigned_of_nat take_bit_nat_eq_self)
    moreover have "?n mod 16 < min 16 (?n + 1)" by (simp add: le_imp_less_Suc)
    ultimately have "k \<noteq> word_of_nat (?n mod 16)" using that by auto
    with none [of k] that show ?thesis by (simp add: obs slot)
  qed
  ultimately show ?thesis by (simp add: ring_holds_def head next_head_def)
qed

lemma read_head_upd [store_simps]:
  "read_head (s\<lparr>ObsHead := (ObsHead s)((r, m) \<mapsto> h), Obs := o1, Challenge := c1\<rparr>) r' m' =
     (if r' = r \<and> m' = m then h else read_head s r' m')"
  by (simp add: read_head_def)

lemma submit_refines:
  assumes sub: "submit to_xdr verify env r m ts v p sig s = Inr (slot, s')"
    and ref: "or_refines s H"
  shows "or_refines s' (record_obs r m (new_obs ts v p) H)"
  unfolding or_refines_def
proof (intro allI)
  fix r' m'
  from sub have h: "slot = next_seq (read_head s r m) mod 16"
      "uint (next_seq (read_head s r m)) + 1 < 2 ^ 32"
      "s' = or_publish (ObservationSubmitted r m slot p)
       (s\<lparr>Obs := (Obs s)((r, m, slot) \<mapsto> new_obs ts v p),
          Challenge := (Challenge s)((r, m, slot) := None),
          ObsHead := (ObsHead s)((r, m) \<mapsto> next_head (read_head s r m))\<rparr>)"
    by (elim submit_ok; simp)+
  have hd: "read_head s' r'' m'' =
      (if r'' = r \<and> m'' = m then next_head (read_head s r m) else read_head s r'' m'')" for r'' m''
    by (simp add: h(3) read_head_def store_simps)
  have old: "ring_holds s r' m' (H r' m')" using ref by (simp add: or_refines_def)
  show "ring_holds s' r' m' (record_obs r m (new_obs ts v p) H r' m')"
  proof (cases "r' = r \<and> m' = m")
    case False
    then have "record_obs r m (new_obs ts v p) H r' m' = H r' m'" by (auto simp: record_obs_def)
    then show ?thesis
      using False by (auto intro!: ring_holds_same [OF old] simp: hd) (simp_all add: h(3) store_simps)
  next
    case True
    with old have holds: "ring_holds s r m (H r m)" by simp
    then have "int (length (H r m)) + 1 < 2 ^ 32"
      using h(2) by (simp add: ring_holds_def uint_nat)
    then have "int (length (H r m) + 1) < int (2 ^ 32)" by simp
    then have room: "length (H r m) + 1 < 2 ^ 32" by (simp only: of_nat_less_iff)
    have "ring_holds s' r m (H r m @ [new_obs ts v p])"
      by (rule ring_append [OF holds room]) (simp_all add: hd, simp add: h(3) store_simps h(1))
    with True show ?thesis by (simp add: record_obs_def)
  qed
qed

text \<open>Every other entry point leaves the rings as they are.\<close>

lemma or_refines_same:
  assumes "or_refines s H" and "Obs s' = Obs s" and "ObsHead s' = ObsHead s"
  shows "or_refines s' H"
  unfolding or_refines_def
proof (intro allI)
  fix r m
  have "ring_holds s r m (H r m)" using assms(1) by (simp add: or_refines_def)
  then show "ring_holds s' r m (H r m)"
    by (rule ring_holds_same) (simp_all add: read_head_def assms(2,3))
qed

lemma or_step_refines:
  assumes "or_step to_xdr verify (s, now) (s', now')" and ref: "or_refines s H"
  shows "or_refines s' H \<or>
    (\<exists>r m obs. authentic to_xdr verify r m obs \<and> or_refines s' (record_obs r m obs H))"
  using assms(1)
proof cases
  case (or_submit env v r m ts p sig slot)
  from or_submit(4) have "authentic to_xdr verify r m (new_obs ts v p)"
    by (elim submit_ok) (auto simp: authentic_def new_obs_def)
  with submit_refines [OF or_submit(4) ref] show ?thesis by blast
qed (auto elim!: propose_publisher_ok execute_publisher_ok cancel_publisher_ok challenge_ok
    unchallenge_ok intro!: or_refines_same [OF ref] simp: store_simps)

lemma or_refines_constructor: "or_refines (or_constructor a) (\<lambda>r m. [])"
  by (simp add: or_refines_def ring_holds_def or_constructor_def or_empty_def read_head_def)

interpretation orc_ring: state_machine or_init "or_step to_xdr verify"
  "\<lambda>st. \<exists>H. or_refines (fst st) H" for to_xdr verify
proof
  fix st :: "OracleStore \<times> u64"
  assume "or_init st"
  then show "\<exists>H. or_refines (fst st) H" by (auto simp: or_init_def intro!: exI [of _ "\<lambda>r m. []"] or_refines_constructor)
next
  fix st st' :: "OracleStore \<times> u64"
  assume "or_step to_xdr verify st st'" and "\<exists>H. or_refines (fst st) H"
  then show "\<exists>H. or_refines (fst st') H"
    by (cases st; cases st') (auto dest: or_step_refines)
qed

lemma or_reachable_refines:
  "or_reachable to_xdr verify s now \<Longrightarrow> \<exists>H. or_refines s H"
  using orc_ring.reachable_inv [of _ to_xdr verify "(s, now)"]
  by (fastforce simp: or_reachable_def or_init_def)

lemma or_reachable_count:
  "or_reachable to_xdr verify s now \<Longrightarrow> obs_count (read_head s r m) \<le> 16"
  by (drule or_reachable_refines) (auto simp: or_refines_def ring_holds_def word_le_nat_alt)

section \<open>The registry timelock\<close>

text \<open>
  From a moment \<open>t0\<close> at which nothing is pending for a key, the key's registration stays as it is
  for seven days: a change needs a proposal, and the proposal waits.
\<close>

definition quiet :: "Bytes32 \<Rightarrow> bool \<Rightarrow> u64 \<Rightarrow> OracleStore \<times> u64 \<Rightarrow> bool" where
  "quiet p b t0 st \<longleftrightarrow> (case st of (s, now) \<Rightarrow>
     now = t0 \<and> is_publisher s p = b \<and> PendingPublisher s p = None)"

definition locked :: "Bytes32 \<Rightarrow> bool \<Rightarrow> u64 \<Rightarrow> OracleStore \<times> u64 \<Rightarrow> bool" where
  "locked p b t0 st \<longleftrightarrow> (case st of (s, now) \<Rightarrow> t0 \<le> now \<and>
     (is_publisher s p = b \<or> uint t0 + 604800 \<le> uint now) \<and>
     (\<forall>pd. PendingPublisher s p = Some pd \<longrightarrow> uint t0 + 604800 \<le> uint (eta pd)))"

lemma execute_publisher_locked:
  assumes "execute_publisher env q s = Inr s'"
    and lk: "locked p b t0 (s, now)" and later: "now \<le> timestamp env"
  shows "locked p b t0 (s', timestamp env)"
  using assms(1)
proof (rule execute_publisher_ok)
  fix a and pd :: PendingRegistry
  assume h: "PendingPublisher s q = Some pd" "eta pd \<le> timestamp env"
    "Publisher s' = (Publisher s)(q \<mapsto>
       (if pend_add pd then \<lparr>active = True, added_at = timestamp env\<rparr>
        else (the (Publisher s q))\<lparr>active := False\<rparr>))"
    "PendingPublisher s' = (PendingPublisher s)(q := None)"
  show ?thesis
    using lk later h by (cases "q = p") (auto simp: locked_def word_le_def or_reads)
qed

lemma or_step_locked:
  assumes "or_step to_xdr verify st st'" and "locked p b t0 st"
  shows "locked p b t0 st'"
proof -
  obtain s now s' now' where st: "st = (s, now)" "st' = (s', now')" by (cases st; cases st')
  from assms(2) have lk: "t0 \<le> now" "is_publisher s p = b \<or> uint t0 + 604800 \<le> uint now"
    "\<And>pd. PendingPublisher s p = Some pd \<Longrightarrow> uint t0 + 604800 \<le> uint (eta pd)"
    by (simp_all add: locked_def st)
  have keep: "locked p b t0 (s', now')"
    if "now \<le> now'" "is_publisher s' p = is_publisher s p"
      "\<And>pd. PendingPublisher s' p = Some pd \<Longrightarrow> uint t0 + 604800 \<le> uint (eta pd)"
    using that lk(1,2) by (auto simp: locked_def word_le_def)
  have other: "locked p b t0 (s', now')"
    if "now \<le> now'" "Publisher s' = Publisher s"
      "PendingPublisher s' p \<in> {None, PendingPublisher s p}"
    using that lk(3) by (intro keep) (auto simp: or_reads)
  from assms(1) have "or_step to_xdr verify (s, now) (s', now')" by (simp add: st)
  then have "locked p b t0 (s', now')"
  proof cases
    case (or_propose env q add at)
    from or_propose(3) show ?thesis
      by (elim propose_publisher_ok, intro keep)
        (use or_propose(1,2) lk(1,3) in \<open>auto simp: store_simps or_reads word_le_def split: if_splits\<close>)
  next
    case or_execute
    then show ?thesis using execute_publisher_locked assms(2) unfolding st by blast
  next
    case (or_cancel env q)
    then show ?thesis by (intro other) (auto elim!: cancel_publisher_ok simp: store_simps)
  next
    case (or_submit env v r m ts q sig slot)
    then show ?thesis by (intro other) (auto elim!: submit_ok simp: store_simps)
  next
    case (or_challenge env r m k reason)
    then show ?thesis by (intro other) (auto elim!: challenge_ok simp: store_simps)
  next
    case (or_unchallenge env r m k)
    then show ?thesis by (intro other) (auto elim!: unchallenge_ok simp: store_simps)
  qed
  then show ?thesis by (simp add: st)
qed

interpretation orc_lock: state_machine "quiet p b t0" "or_step to_xdr verify" "locked p b t0"
  for p b t0 to_xdr verify
proof
  fix st :: "OracleStore \<times> u64"
  assume "quiet p b t0 st"
  then show "locked p b t0 st" by (cases st) (auto simp: quiet_def locked_def)
qed (rule or_step_locked)

end
