(* ===== verification/Oracle_Demo.thy ===== *)
theory Oracle_Demo
  imports Oracle_Ring Demo_Parties
begin

text \<open>
  One concrete run of the oracle, used to witness the theorems: two publishers are proposed and,
  a week later, registered; they submit three observations; one of them is challenged. A message
  is its payload, and the signature of a publisher is its own key.
\<close>

definition or_env :: "u64 \<Rightarrow> Env" where
  "or_env now = \<lparr>timestamp = now, current_contract = demo_oracle, invoker = None,
     signed = demo_signed\<rparr>"

definition demo_xdr :: "ObservationPayload \<Rightarrow> ObservationPayload" where
  "demo_xdr m = m"

definition demo_verify :: "Bytes32 \<Rightarrow> ObservationPayload \<Rightarrow> Bytes64 \<Rightarrow> bool" where
  "demo_verify p m sig \<longleftrightarrow> sig = ucast p"

abbreviation demo_region :: Symbol where "demo_region \<equiv> ''KE_NAK''"
abbreviation demo_metric :: Symbol where "demo_metric \<equiv> ''RAIN''"

definition or_demo0 :: OracleStore where "or_demo0 = or_constructor demo_admin"

definition or_demo1 :: OracleStore where
  "or_demo1 = or_publish (PublisherProposed 11 True 604900)
     (or_demo0\<lparr>PendingPublisher := (PendingPublisher or_demo0)(11 \<mapsto> \<lparr>pend_add = True, eta = 604900\<rparr>)\<rparr>)"

definition or_demo2 :: OracleStore where
  "or_demo2 = or_publish (PublisherProposed 12 True 604900)
     (or_demo1\<lparr>PendingPublisher := (PendingPublisher or_demo1)(12 \<mapsto> \<lparr>pend_add = True, eta = 604900\<rparr>)\<rparr>)"

definition or_demo3 :: OracleStore where
  "or_demo3 = or_publish (PublisherRegistered 11)
     (or_demo2\<lparr>Publisher := (Publisher or_demo2)(11 \<mapsto> \<lparr>active = True, added_at = 604900\<rparr>),
               PendingPublisher := (PendingPublisher or_demo2)(11 := None)\<rparr>)"

definition or_demo4 :: OracleStore where
  "or_demo4 = or_publish (PublisherRegistered 12)
     (or_demo3\<lparr>Publisher := (Publisher or_demo3)(12 \<mapsto> \<lparr>active = True, added_at = 604900\<rparr>),
               PendingPublisher := (PendingPublisher or_demo3)(12 := None)\<rparr>)"

definition demo_submitted :: "u32 \<Rightarrow> u64 \<Rightarrow> i128 \<Rightarrow> Bytes32 \<Rightarrow> OracleStore \<Rightarrow> OracleStore" where
  "demo_submitted k ts v p s = or_publish (ObservationSubmitted demo_region demo_metric k p)
     (s\<lparr>Obs := (Obs s)((demo_region, demo_metric, k) \<mapsto> new_obs ts v p),
        Challenge := (Challenge s)((demo_region, demo_metric, k) := None),
        ObsHead := (ObsHead s)((demo_region, demo_metric) \<mapsto> \<lparr>next_seq = k + 1, obs_count = k + 1\<rparr>)\<rparr>)"

definition or_demo5 :: OracleStore where "or_demo5 = demo_submitted 0 605000 100 11 or_demo4"
definition or_demo6 :: OracleStore where "or_demo6 = demo_submitted 1 605000 104 12 or_demo5"
definition or_demo7 :: OracleStore where "or_demo7 = demo_submitted 2 605000 900 11 or_demo6"

definition or_demo8 :: OracleStore where
  "or_demo8 = or_publish (ObservationChallenged demo_region demo_metric 2 7)
     (or_demo7\<lparr>Challenge := (Challenge or_demo7)((demo_region, demo_metric, 2) \<mapsto> 7)\<rparr>)"

lemma or_demo_fields:
  "OrAdmin or_demo0 = Some demo_admin" "OrAdmin or_demo1 = Some demo_admin"
  "OrAdmin or_demo2 = Some demo_admin" "OrAdmin or_demo3 = Some demo_admin"
  "OrAdmin or_demo7 = Some demo_admin"
  "Publisher or_demo0 = Map.empty" "Publisher or_demo1 = Map.empty" "Publisher or_demo2 = Map.empty"
  "Publisher or_demo3 = [11 \<mapsto> \<lparr>active = True, added_at = 604900\<rparr>]"
  "Publisher or_demo4 = [11 \<mapsto> \<lparr>active = True, added_at = 604900\<rparr>,
     12 \<mapsto> \<lparr>active = True, added_at = 604900\<rparr>]"
  "PendingPublisher or_demo0 = Map.empty"
  "PendingPublisher or_demo1 = [11 \<mapsto> \<lparr>pend_add = True, eta = 604900\<rparr>]"
  "PendingPublisher or_demo2 = [11 \<mapsto> \<lparr>pend_add = True, eta = 604900\<rparr>,
     12 \<mapsto> \<lparr>pend_add = True, eta = 604900\<rparr>]"
  "PendingPublisher or_demo3 = [12 \<mapsto> \<lparr>pend_add = True, eta = 604900\<rparr>]"
  by (auto simp: or_demo0_def or_demo1_def or_demo2_def or_demo3_def or_demo4_def or_demo5_def
      or_demo6_def or_demo7_def demo_submitted_def or_constructor_def or_empty_def store_simps)

lemma or_demo_ring:
  "read_head or_demo4 demo_region demo_metric = \<lparr>next_seq = 0, obs_count = 0\<rparr>"
  "read_head or_demo5 demo_region demo_metric = \<lparr>next_seq = 1, obs_count = 1\<rparr>"
  "read_head or_demo6 demo_region demo_metric = \<lparr>next_seq = 2, obs_count = 2\<rparr>"
  "read_head or_demo7 demo_region demo_metric = \<lparr>next_seq = 3, obs_count = 3\<rparr>"
  "read_head or_demo8 demo_region demo_metric = \<lparr>next_seq = 3, obs_count = 3\<rparr>"
  "Publisher or_demo5 = Publisher or_demo4" "Publisher or_demo6 = Publisher or_demo4"
  "Publisher or_demo7 = Publisher or_demo4"
  by (simp_all add: read_head_def or_demo8_def or_demo7_def or_demo6_def or_demo5_def
      demo_submitted_def store_simps)
    (simp add: or_demo4_def or_demo3_def or_demo2_def or_demo1_def or_demo0_def or_constructor_def
      or_empty_def store_simps)

lemma or_demo_obs:
  "Obs or_demo7 (demo_region, demo_metric, 0) = Some (new_obs 605000 100 11)"
  "Obs or_demo7 (demo_region, demo_metric, 1) = Some (new_obs 605000 104 12)"
  "Obs or_demo7 (demo_region, demo_metric, 2) = Some (new_obs 605000 900 11)"
  "Obs or_demo8 = Obs or_demo7" "StalenessBound or_demo7 = Some 48" "StalenessBound or_demo8 = Some 48"
  "Challenge or_demo7 k = None"
  "Challenge or_demo8 k = (if k = (demo_region, demo_metric, 2) then Some 7 else None)"
  by (simp_all add: or_demo8_def or_demo7_def or_demo6_def or_demo5_def or_demo4_def or_demo3_def
      or_demo2_def or_demo1_def or_demo0_def demo_submitted_def or_constructor_def or_empty_def
      DEFAULT_STALENESS_HOURS_def store_simps)

section \<open>The steps\<close>

lemmas or_demo_defs = or_env_def demo_addresses demo_signed_def require_auth_def require_stored_def
  or_require_admin_def

lemma or_demo_propose:
  "propose_publisher (or_env 100) 11 True or_demo0 = Inr (604900, or_demo1)"
  "propose_publisher (or_env 100) 12 True or_demo1 = Inr (604900, or_demo2)"
  by (simp_all add: propose_publisher_def or_demo_defs or_demo_fields or_reads Let_def checked_uadd_def
      REGISTRY_TIMELOCK_SECS_def)
    (simp_all only: or_demo1_def or_demo2_def [unfolded or_demo_fields] or_demo_fields)

lemma or_demo_execute:
  "execute_publisher (or_env 604900) 11 or_demo2 = Inr or_demo3"
  "execute_publisher (or_env 604900) 12 or_demo3 = Inr or_demo4"
  by (simp_all add: execute_publisher_def or_demo_defs or_demo_fields or_reads Let_def)
    (simp_all add: or_demo3_def [unfolded or_demo_fields] or_demo4_def [unfolded or_demo_fields]
      or_demo_fields)

lemmas or_submit_defs = submit_def or_reads Let_def RING_SIZE_def checked_uadd_def demo_verify_def
  or_env_def demo_submitted_def new_obs_def

lemma or_demo_submit:
  "submit demo_xdr demo_verify (or_env 605000) demo_region demo_metric 605000 100 11 (ucast (11::Bytes32))
     or_demo4 = Inr (0, or_demo5)"
  "submit demo_xdr demo_verify (or_env 605000) demo_region demo_metric 605000 104 12 (ucast (12::Bytes32))
     or_demo5 = Inr (1, or_demo6)"
  "submit demo_xdr demo_verify (or_env 605000) demo_region demo_metric 605000 900 11 (ucast (11::Bytes32))
     or_demo6 = Inr (2, or_demo7)"
  by (simp_all add: or_submit_defs or_demo_fields or_demo_ring)
    (simp_all add: or_submit_defs or_demo5_def or_demo6_def or_demo7_def)

lemma or_demo_challenge:
  "challenge (or_env 605100) demo_region demo_metric 2 7 or_demo7 = Inr or_demo8"
  by (simp add: challenge_def or_demo_defs or_demo_fields or_demo_obs or_reads Let_def or_demo8_def)

lemma or_demo_reachable:
  "or_reachable demo_xdr demo_verify or_demo0 100"
  "or_reachable demo_xdr demo_verify or_demo4 604900"
  "or_reachable demo_xdr demo_verify or_demo7 605000"
  "or_reachable demo_xdr demo_verify or_demo8 605100"
proof -
  let ?R = "or_reachable demo_xdr demo_verify" and ?S = "or_step demo_xdr demo_verify"
  have t: "timestamp (or_env now) = now" for now by (simp add: or_env_def)
  have step: "?R s' now'" if "?R s now" "?S (s, now) (s', timestamp (or_env now'))" for s now s' now'
    using or_reachable_step that t by metis
  have rng: "in_i128 100" "in_i128 104" "in_i128 900" by (simp_all add: in_i128_def)
  show 0: "?R or_demo0 100" by (auto simp: or_reachable_def or_demo0_def)
  note 1 = step [OF 0 or_propose [OF _ or_demo_propose(1)], unfolded t, OF order_refl]
  note 2 = step [OF 1 or_propose [OF _ or_demo_propose(2)], unfolded t, OF order_refl]
  have 3: "?R or_demo3 604900"
    by (rule step [OF 2 or_execute [OF _ or_demo_execute(1)]]) (simp add: t)
  show 4: "?R or_demo4 604900"
    by (rule step [OF 3 or_execute [OF _ or_demo_execute(2)]]) (simp add: t)
  have 5: "?R or_demo5 605000"
    by (rule step [OF 4 or_submit [OF _ rng(1) or_demo_submit(1)]]) (simp add: t)
  have 6: "?R or_demo6 605000"
    by (rule step [OF 5 or_submit [OF _ rng(2) or_demo_submit(2)]]) (simp add: t)
  show 7: "?R or_demo7 605000"
    by (rule step [OF 6 or_submit [OF _ rng(3) or_demo_submit(3)]]) (simp add: t)
  show "?R or_demo8 605100"
    by (rule step [OF 7 or_challenge [OF _ or_demo_challenge]]) (simp add: t)
qed

end
