(* ===== verification/Oracle_Gates.thy ===== *)
theory Oracle_Gates
  imports Oracle_Ring Oracle_Median
begin

text \<open>
  What stands behind a median that is returned in a reachable state: the gates of the fail-safe on
  the observations it counted, and the range of its value.
\<close>

lemma median_is_spec:
  assumes "or_reachable to_xdr verify s now"
  shows "median env region metric s = median_spec (counted env region metric s)"
  by (rule median_refines [OF or_reachable_count [OF assms]])
    (use or_reachable_inv [OF assms] in \<open>simp add: read_staleness_hours_def or_inv_def\<close>)

lemma median_spec_returned:
  assumes "or_reachable to_xdr verify s now" and "median env region metric s = Inr v"
  shows "median_spec (counted env region metric s) = Inr v"
  using assms(2) by (simp add: median_is_spec [OF assms(1)])

lemma median_spec_authors:
  assumes "median_spec os = Inr v"
  shows "\<exists>o1\<in>set os. \<exists>o2\<in>set os. obs_publisher o1 \<noteq> obs_publisher o2"
proof (rule ccontr)
  assume "\<not> ?thesis"
  then have same: "\<And>o1 o2. o1 \<in> set os \<Longrightarrow> o2 \<in> set os \<Longrightarrow> obs_publisher o1 = obs_publisher o2"
    by blast
  have "card (obs_publisher ` set os) \<le> Suc 0"
    by (subst card_le_Suc0_iff_eq) (auto dest: same)
  moreover have "2 \<le> card (obs_publisher ` set os)"
    using assms by (auto simp: median_spec_def split: if_splits)
  ultimately show False by simp
qed

lemma counted_each:
  assumes run: "or_reachable to_xdr verify s now" and later: "now \<le> timestamp env"
    and mem: "obs \<in> set (counted env region metric s)"
  shows "authentic to_xdr verify region metric obs" and "0 \<le> obs_value obs"
    and "in_i128 (obs_value obs)"
    and "uint (timestamp env) - uint (obs_timestamp obs) \<le> 172800"
    and "obs_timestamp obs \<le> timestamp env"
    and "\<exists>k. Obs s (region, metric, k) = Some obs \<and> \<not> is_challenged s region metric k"
proof -
  have inv: "StalenessBound s = Some DEFAULT_STALENESS_HOURS"
    "\<And>r m k obs. Obs s (r, m, k) = Some obs \<Longrightarrow> obs_ok to_xdr verify s now r m obs"
    using or_reachable_inv [OF run] by (simp_all add: or_inv_def)
  from mem obtain k where k: "Obs s (region, metric, k) = Some obs"
      "saturating_usub (timestamp env) (obs_timestamp obs) \<le> 172800"
      "\<not> is_challenged s region metric k"
    by (auto simp: counted_def set_counted_in read_obs_def obs_counts_def Let_def inv(1)
        read_staleness_hours_def DEFAULT_STALENESS_HOURS_def SECONDS_PER_HOUR_def)
  have obs: "obs_ok to_xdr verify s now region metric obs" by (rule inv(2) [OF k(1)])
  then show le: "obs_timestamp obs \<le> timestamp env" using later by (auto simp: obs_ok_def)
  with k(2) have "uint (timestamp env - obs_timestamp obs) \<le> 172800"
    by (simp add: saturating_usub_def word_le_def)
  then show "uint (timestamp env) - uint (obs_timestamp obs) \<le> 172800"
    using le by (simp add: uint_minus_simple_alt)
  show "authentic to_xdr verify region metric obs" "0 \<le> obs_value obs" "in_i128 (obs_value obs)"
    using obs by (simp_all add: obs_ok_def)
  show "\<exists>k. Obs s (region, metric, k) = Some obs \<and> \<not> is_challenged s region metric k"
    using k by blast
qed

lemma median_in_range:
  assumes run: "or_reachable to_xdr verify s now" and later: "now \<le> timestamp env"
    and med: "median env region metric s = Inr v"
  shows "0 \<le> v" and "in_i128 v"
proof -
  let ?os = "counted env region metric s"
  have spec: "median_spec ?os = Inr v" by (rule median_spec_returned [OF run med])
  then have val: "median_value (map obs_value ?os) = Inr v"
    by (auto simp: median_spec_def split: if_splits)
  have "0 \<le> x \<and> x \<le> 2 ^ 127 - 1" if "x \<in> set (map obs_value ?os)" for x
  proof -
    from that obtain obs where "obs \<in> set ?os" "x = obs_value obs" by auto
    with counted_each(2,3) [OF run later, of obs region metric] show ?thesis by (simp add: in_i128_def)
  qed
  then have "filter (\<lambda>x. 0 \<le> x \<and> x \<le> 2 ^ 127 - 1) (map obs_value ?os) = map obs_value ?os"
    by (simp only: filter_id_conv) blast
  moreover have "?os \<noteq> []" using median_spec_authors [OF spec] by auto
  ultimately have "0 \<le> v \<and> v \<le> 2 ^ 127 - 1"
    by (intro median_value_between [OF _ _ val, of 0 "2 ^ 127 - 1"]) simp_all
  then show "0 \<le> v" and "in_i128 v" by (simp_all add: in_i128_def)
qed

end
