(* ===== verification/Oracle_Log.thy ===== *)
theory Oracle_Log
  imports Oracle_Gates
begin

text \<open>
  Runs of the oracle together with the log of the submissions it accepted, and what two fresh reports
  are enough for.
\<close>

type_synonym submission_log = "((Symbol \<times> Symbol) \<times> Observation) list"

definition submissions :: "submission_log \<Rightarrow> history" where
  "submissions h r m = map snd (filter (\<lambda>e. fst e = (r, m)) h)"

inductive or_log ::
    "(ObservationPayload \<Rightarrow> 'm) \<Rightarrow> (Bytes32 \<Rightarrow> 'm \<Rightarrow> Bytes64 \<Rightarrow> bool) \<Rightarrow> submission_log \<Rightarrow>
     OracleStore \<Rightarrow> u64 \<Rightarrow> bool" for to_xdr verify where
  log_start: "or_log to_xdr verify [] (or_constructor a) now"
| log_submit: "or_log to_xdr verify h s now \<Longrightarrow> now \<le> timestamp env \<Longrightarrow> in_i128 v \<Longrightarrow>
     submit to_xdr verify env r m ts v p sig s = Inr (slot, s') \<Longrightarrow>
     or_log to_xdr verify (h @ [((r, m),
       \<lparr>obs_value = v, obs_timestamp = ts, obs_publisher = p, accepted = True\<rparr>)]) s' (timestamp env)"
| log_propose: "or_log to_xdr verify h s now \<Longrightarrow> now \<le> timestamp env \<Longrightarrow>
     propose_publisher env p add s = Inr (at, s') \<Longrightarrow> or_log to_xdr verify h s' (timestamp env)"
| log_execute: "or_log to_xdr verify h s now \<Longrightarrow> now \<le> timestamp env \<Longrightarrow>
     execute_publisher env p s = Inr s' \<Longrightarrow> or_log to_xdr verify h s' (timestamp env)"
| log_cancel: "or_log to_xdr verify h s now \<Longrightarrow> now \<le> timestamp env \<Longrightarrow>
     cancel_publisher env p s = Inr s' \<Longrightarrow> or_log to_xdr verify h s' (timestamp env)"
| log_challenge: "or_log to_xdr verify h s now \<Longrightarrow> now \<le> timestamp env \<Longrightarrow>
     challenge env r m k reason s = Inr s' \<Longrightarrow> or_log to_xdr verify h s' (timestamp env)"
| log_unchallenge: "or_log to_xdr verify h s now \<Longrightarrow> now \<le> timestamp env \<Longrightarrow>
     unchallenge env r m k s = Inr s' \<Longrightarrow> or_log to_xdr verify h s' (timestamp env)"

lemma submissions_simps [simp]:
  "submissions [] = (\<lambda>r m. [])"
  "submissions (h @ [((r, m), obs)]) = record_obs r m obs (submissions h)"
  by (auto simp: submissions_def record_obs_def fun_eq_iff)

section \<open>Logged runs are runs\<close>

lemma or_log_reachable: "or_log to_xdr verify h s now \<Longrightarrow> or_reachable to_xdr verify s now"
proof (induction rule: or_log.induct)
  case (log_start a now)
  show ?case by (auto simp: or_reachable_def)
qed (blast intro: or_reachable_step or_step.intros)+

lemma or_step_log:
  assumes "or_step to_xdr verify (s, now) (s', now')" and "or_log to_xdr verify h s now"
  shows "\<exists>h'. or_log to_xdr verify h' s' now'"
  using assms by cases (blast intro: or_log.intros)+

lemma or_reachable_log: "or_reachable to_xdr verify s now \<longleftrightarrow> (\<exists>h. or_log to_xdr verify h s now)"
proof
  assume "or_reachable to_xdr verify s now"
  then obtain a t0 where "(or_step to_xdr verify)\<^sup>*\<^sup>* (or_constructor a, t0) (s, now)"
    by (auto simp: or_reachable_def)
  then show "\<exists>h. or_log to_xdr verify h s now"
  proof (induction "(s, now)" arbitrary: s now rule: rtranclp_induct)
    case base
    then show ?case by (blast intro: log_start)
  next
    case (step y)
    then show ?case by (cases y) (blast intro: or_step_log)
  qed
qed (auto dest: or_log_reachable)

section \<open>The rings hold the tails of the log\<close>

lemma rings_frame:
  "propose_publisher env p add s = Inr (at, s') \<Longrightarrow> Obs s' = Obs s \<and> ObsHead s' = ObsHead s"
  "execute_publisher env p s = Inr s' \<Longrightarrow> Obs s' = Obs s \<and> ObsHead s' = ObsHead s"
  "cancel_publisher env p s = Inr s' \<Longrightarrow> Obs s' = Obs s \<and> ObsHead s' = ObsHead s"
  "challenge env r m k reason s = Inr s' \<Longrightarrow> Obs s' = Obs s \<and> ObsHead s' = ObsHead s"
  "unchallenge env r m k s = Inr s' \<Longrightarrow> Obs s' = Obs s \<and> ObsHead s' = ObsHead s"
  by (auto elim!: propose_publisher_ok execute_publisher_ok cancel_publisher_ok challenge_ok
      unchallenge_ok simp: store_simps)

lemma or_log_refines: "or_log to_xdr verify h s now \<Longrightarrow> or_refines s (submissions h)"
proof (induction rule: or_log.induct)
  case (log_start a now)
  show ?case using or_refines_constructor [of a] by simp
next
  case (log_submit h s now env v r m ts p sig slot s')
  from submit_refines [OF log_submit(4) log_submit.IH] show ?case by (simp add: new_obs_def)
qed (auto dest!: rings_frame intro: or_refines_same)

lemma or_log_authentic:
  "or_log to_xdr verify h s now \<Longrightarrow> ((r, m), obs) \<in> set h \<Longrightarrow>
   authentic to_xdr verify r m obs \<and> 0 \<le> obs_value obs \<and> obs_timestamp obs \<le> now"
proof (induction rule: or_log.induct)
  case (log_submit h s now env v r' m' ts p sig slot s')
  show ?case
  proof (cases "((r, m), obs) \<in> set h")
    case True
    with log_submit show ?thesis by (auto intro: order_trans)
  next
    case False
    with log_submit(4,6) show ?thesis by (elim submit_ok) (auto simp: authentic_def)
  qed
qed (auto intro: order_trans)

section \<open>When the median answers\<close>

text \<open>An observation is usable at a time: it is stored, unchallenged, and at most 48 hours old.\<close>

definition usable :: "OracleStore \<Rightarrow> Symbol \<Rightarrow> Symbol \<Rightarrow> u64 \<Rightarrow> u32 \<Rightarrow> Observation \<Rightarrow> bool" where
  "usable s r m now k obs \<longleftrightarrow> observation s r m k = Inr obs \<and> \<not> challenge_flag s r m k \<and>
     uint now - uint (obs_timestamp obs) \<le> 172800"

lemma saturating_age:
  "saturating_usub now ts \<le> 172800 \<longleftrightarrow> uint now - uint ts \<le> 172800" for now ts :: u64
proof (cases "ts \<le> now")
  case True
  then have "uint (now - ts) = uint now - uint ts" using uint_minus_simple_alt [of ts now] by simp
  with True show ?thesis by (simp add: saturating_usub_def word_le_def)
next
  case False
  then show ?thesis by (simp add: saturating_usub_def word_le_def)
qed

lemma counted_usable:
  assumes run: "or_reachable to_xdr verify s now"
  shows "obs \<in> set (counted env r m s) \<longleftrightarrow> (\<exists>k. usable s r m (timestamp env) k obs)"
proof -
  have bound: "read_staleness_hours s * SECONDS_PER_HOUR = 172800"
    and acc: "\<And>k obs. Obs s (r, m, k) = Some obs \<Longrightarrow> accepted obs"
    using or_reachable_inv [OF run]
    by (auto simp: or_inv_def obs_ok_def read_staleness_hours_def DEFAULT_STALENESS_HOURS_def SECONDS_PER_HOUR_def)
  obtain H where "or_refines s H" using or_reachable_refines [OF run] by blast
  then have slot: "k \<in> set (slots_between 0 (obs_count (read_head s r m)))" if "Obs s (r, m, k) = Some obs" for k
  proof -
    have "unat (obs_count (read_head s r m)) = min 16 (length (H r m))"
      "min 16 (length (H r m)) \<le> unat k \<longrightarrow> Obs s (r, m, k) = None"
      using \<open>or_refines s H\<close> by (simp_all add: or_refines_def ring_holds_def)
    with that have "unat k < unat (obs_count (read_head s r m))" by (simp add: not_le [symmetric])
    then show ?thesis by (auto simp: slots_between_def image_iff intro!: bexI [of _ "unat k"])
  qed
  show ?thesis
    unfolding counted_def set_counted_in bound
    using acc slot
    by (auto simp: usable_def observation_def read_obs_def ok_or_Inr obs_counts_def Let_def challenge_flag_def
        saturating_age)
qed

lemma two_publishers:
  "2 \<le> card (obs_publisher ` set os) \<longleftrightarrow> (\<exists>o1\<in>set os. \<exists>o2\<in>set os. obs_publisher o1 \<noteq> obs_publisher o2)"
proof -
  have "card (obs_publisher ` set os) \<le> Suc 0 \<longleftrightarrow>
      (\<forall>x\<in>obs_publisher ` set os. \<forall>y\<in>obs_publisher ` set os. x = y)"
    by (rule card_le_Suc0_iff_eq) simp
  moreover have "2 \<le> n \<longleftrightarrow> \<not> n \<le> Suc 0" for n by linarith
  ultimately show ?thesis by blast
qed

end
