(* ===== verification/Oracle_Props.thy ===== *)
theory Oracle_Props
  imports Oracle_Demo Oracle_Log
begin

text \<open>
  The properties of the oracle, each with a witness on the concrete run of Oracle_Demo.
\<close>

section \<open>The median\<close>

text \<open>The in-place insertion sort is a sort: on the first \<open>len\<close> entries of an array that has
  them it agrees with the library's \<open>sort\<close>, leaves the rest of the array alone, and never indexes
  out of bounds.\<close>

theorem sort_ascending_correct:
  assumes "len \<le> length values"
  shows "sort_ascending values len = Inr (sort (take len values) @ drop len values)"
  using assms by (rule sort_ascending_sorts)

theorem sort_ascending_correct_witness:
  "sort_ascending [30, 10, 20, 0] 3 = Inr ([10, 20, 30, 0] :: i128 list)"
  using sort_ascending_correct [of 3 "[30, 10, 20, 0]"] by simp

text \<open>C17. The median is the median (FR-ORC-3): in every reachable state, the loops over ring slots, the
  value array and the publisher accumulator return exactly the specification: \<^verbatim>\<open>ObservationStale\<close>
  when the observations that count come from fewer than two publishers, and otherwise the middle
  value of their sorted values, or the mean of the two middle ones rounded towards zero (an
  \<^verbatim>\<open>Overflow\<close> when their sum leaves the range). It never traps.\<close>

theorem median_is_median:
  assumes "or_reachable to_xdr verify s now"
  shows "median env region metric s = median_spec (counted env region metric s)"
proof (rule median_refines)
  show "obs_count (read_head s region metric) \<le> 16" by (rule or_reachable_count [OF assms])
  have "StalenessBound s = Some DEFAULT_STALENESS_HOURS"
    using or_reachable_inv [OF assms] by (simp add: or_inv_def)
  then show "read_staleness_hours s = DEFAULT_STALENESS_HOURS" by (simp add: read_staleness_hours_def)
qed

lemma demo_slots: "slots_between 0 3 = [0, 1, 2]"
  by (simp add: slots_between_def upt_rec)

lemmas demo_counted_defs = counted_def counted_at_def obs_counts_def or_reads saturating_usub_def
  read_staleness_hours_def SECONDS_PER_HOUR_def or_env_def new_obs_def

lemma demo_counted:
  "counted (or_env 605050) demo_region demo_metric or_demo7
     = [new_obs 605000 100 11, new_obs 605000 104 12, new_obs 605000 900 11]"
  "counted (or_env 605200) demo_region demo_metric or_demo8
     = [new_obs 605000 100 11, new_obs 605000 104 12]"
  by (simp_all add: demo_counted_defs or_demo_ring or_demo_obs demo_slots Let_def)

lemma demo_authors: "card {11, 12, 11 :: Bytes32} = 2"
  by (simp add: card_insert_if)

lemma demo_median: "median (or_env 605050) demo_region demo_metric or_demo7 = Inr 104"
  by (simp add: median_refines or_reachable_count [OF or_demo_reachable(3)] read_staleness_hours_def
      or_demo_obs DEFAULT_STALENESS_HOURS_def demo_counted median_spec_def median_value_def
      new_obs_def Let_def demo_authors)

theorem median_is_median_witness:
  "median (or_env 605050) demo_region demo_metric or_demo7 = Inr 104"
  using median_is_median [OF or_demo_reachable(3), of "or_env 605050" demo_region demo_metric]
  by (simp add: demo_counted median_spec_def median_value_def new_obs_def Let_def demo_authors)

text \<open>C19. No minority sets the index (FR-ORC-3): when more than half of the observations that count have
  values between two bounds, the median lies between them, whatever the others report.\<close>

theorem median_resists_minority:
  assumes run: "or_reachable to_xdr verify s now" and med: "median env region metric s = Inr v"
    and maj: "length (counted env region metric s)
      < 2 * length (filter (\<lambda>obs. lo \<le> obs_value obs \<and> obs_value obs \<le> hi) (counted env region metric s))"
    and "0 \<le> lo"
  shows "lo \<le> v \<and> v \<le> hi"
proof (rule median_value_between)
  let ?os = "counted env region metric s"
  show "length (map obs_value ?os) < 2 * length (filter (\<lambda>x. lo \<le> x \<and> x \<le> hi) (map obs_value ?os))"
    using maj by (simp add: filter_map o_def)
  show "median_value (map obs_value ?os) = Inr v"
    using med median_refines [OF or_reachable_count [OF run], of env region metric]
      or_reachable_inv [OF run]
    by (simp add: or_inv_def read_staleness_hours_def median_spec_def split: if_splits)
qed (rule assms(4))

theorem median_resists_minority_witness:
  "\<exists>v. median (or_env 605050) demo_region demo_metric or_demo7 = Inr v \<and> 100 \<le> v \<and> v \<le> 110"
proof -
  show ?thesis
    using demo_median median_resists_minority [OF or_demo_reachable(3), of "or_env 605050" demo_region demo_metric
        104 100 110] by (simp add: demo_counted new_obs_def)
qed

text \<open>C18. The fail-safe gates (FR-ORC-4): when the median returns a value, the observations behind it
  come from at least two distinct publishers, and each of them was signed by its author, is not
  challenged, is at most 48 hours old and not from the future; and the value is a non-negative
  one in range.\<close>

theorem median_gates:
  assumes run: "or_reachable to_xdr verify s now" and later: "now \<le> timestamp env"
    and med: "median env region metric s = Inr v"
  shows "(\<exists>o1\<in>set (counted env region metric s). \<exists>o2\<in>set (counted env region metric s).
      obs_publisher o1 \<noteq> obs_publisher o2) \<and>
    (\<forall>obs\<in>set (counted env region metric s). authentic to_xdr verify region metric obs \<and>
      uint (timestamp env) - uint (obs_timestamp obs) \<le> 172800 \<and> obs_timestamp obs \<le> timestamp env \<and>
      (\<exists>k. Obs s (region, metric, k) = Some obs \<and> \<not> is_challenged s region metric k)) \<and>
    0 \<le> v \<and> in_i128 v"
  using median_spec_authors [OF median_spec_returned [OF run med]] counted_each [OF run later]
    median_in_range [OF run later med]
  by blast

theorem median_gates_witness:
  "(\<exists>obs\<in>set (counted (or_env 605050) demo_region demo_metric or_demo7). obs_publisher obs \<noteq> 11)"
proof -
  have "605000 \<le> timestamp (or_env 605050)" by (simp add: or_env_def)
  from median_gates [OF or_demo_reachable(3) this demo_median] show ?thesis by metis
qed

lemma median_value_answers:
  assumes "xs \<noteq> []" and "\<forall>x\<in>set xs. 0 \<le> x \<and> x < 2 ^ 126"
  shows "\<exists>v. median_value xs = Inr v"
proof -
  let ?ys = "sort xs"
  have "?ys ! j \<in> set xs" if "j < length xs" for j
    using nth_mem [of j ?ys] that by simp
  moreover have "length xs div 2 < length xs" "length xs div 2 - 1 < length xs"
    using assms(1) by (simp_all add: less_imp_diff_less)
  ultimately have "?ys ! (length xs div 2 - 1) \<in> set xs" "?ys ! (length xs div 2) \<in> set xs" by simp_all
  then have "0 \<le> ?ys ! (length xs div 2 - 1)" "?ys ! (length xs div 2 - 1) < 2 ^ 126"
    "0 \<le> ?ys ! (length xs div 2)" "?ys ! (length xs div 2) < 2 ^ 126"
    using assms(2) by blast+
  then have "in_i128 (?ys ! (length xs div 2 - 1) + ?ys ! (length xs div 2))"
    by (simp add: in_i128_def)
  then have "checked_add (?ys ! (length xs div 2 - 1)) (?ys ! (length xs div 2)) \<noteq> None"
    by (simp add: checked_add_def checked_def)
  then obtain w where "checked_add (?ys ! (length xs div 2 - 1)) (?ys ! (length xs div 2)) = Some w" by blast
  then show ?thesis unfolding median_value_def Let_def ok_or_def by (cases "length xs mod 2 = 1") simp_all
qed

text \<open>C40. The median answers exactly when it can (FR-ORC-4): in every reachable state in which the values of
  the ring are below 2^126 (so that two of them add up), the median of a region and metric is a value if
  its ring has two observations of different publishers that are neither challenged nor older than 48
  hours, whatever else it holds, and \<^verbatim>\<open>ObservationStale\<close> if it has not, at the time of the last transaction or
  later. It never traps and has no other answer.\<close>

theorem median_answers_exactly_when:
  assumes run: "or_reachable to_xdr verify s now" and later: "now \<le> timestamp env"
    and small: "\<And>k obs. observation s r m k = Inr obs \<Longrightarrow> obs_value obs < 2 ^ 126"
  shows "if \<exists>k1 k2 o1 o2. observation s r m k1 = Inr o1 \<and> observation s r m k2 = Inr o2 \<and>
        obs_publisher o1 \<noteq> obs_publisher o2 \<and> \<not> challenge_flag s r m k1 \<and> \<not> challenge_flag s r m k2 \<and>
        uint (timestamp env) - uint (obs_timestamp o1) \<le> 172800 \<and>
        uint (timestamp env) - uint (obs_timestamp o2) \<le> 172800
     then \<exists>v. median env r m s = Inr v \<and> 0 \<le> v
     else median env r m s = Inl (Err ObservationStale)"
    (is "if ?two then _ else _")
proof -
  let ?os = "counted env r m s"
  have eq: "median env r m s = median_spec ?os" by (rule median_is_spec [OF run])
  have two: "?two \<longleftrightarrow> 2 \<le> card (obs_publisher ` set ?os)"
    unfolding two_publishers counted_usable [OF run] Bex_def by (auto simp: usable_def)
  show ?thesis
  proof (cases ?two)
    case True
    then have "?os \<noteq> []" using two by auto
    moreover have "\<forall>x\<in>set (map obs_value ?os). 0 \<le> x \<and> x < 2 ^ 126"
      using counted_each(2) [OF run later] small counted_usable [OF run] by (auto simp: usable_def)
    ultimately obtain v where "median env r m s = Inr v"
      using median_value_answers [of "map obs_value ?os"] True two by (auto simp: eq median_spec_def)
    moreover from this have "0 \<le> v" by (rule median_in_range(1) [OF run later])
    ultimately show ?thesis using True by simp
  next
    case False
    with two have "\<not> 2 \<le> card (obs_publisher ` set ?os)" by blast
    then have "card (obs_publisher ` set ?os) < 2" by simp
    with False show ?thesis by (simp only: if_False eq median_spec_def if_True)
  qed
qed

lemma demo_small: "observation or_demo7 demo_region demo_metric k = Inr obs \<Longrightarrow> obs_value obs < 2 ^ 126"
  by (auto simp: observation_def read_obs_def ok_or_Inr or_demo7_def or_demo6_def or_demo5_def or_demo4_def
      or_demo3_def or_demo2_def or_demo1_def or_demo0_def demo_submitted_def or_constructor_def or_empty_def
      store_simps new_obs_def split: if_splits)

theorem median_answers_exactly_when_witness:
  "\<exists>v. median (or_env 605050) demo_region demo_metric or_demo7 = Inr v \<and> 0 \<le> v"
proof -
  have "605000 \<le> timestamp (or_env 605050)" by (simp add: or_env_def)
  from median_answers_exactly_when [OF or_demo_reachable(3) this demo_small]
  show ?thesis using demo_median by (auto split: if_splits)
qed

section \<open>Observations, challenges and the registry\<close>

lemma counted_same:
  assumes "Challenge s' = Challenge s" "Obs s' = Obs s" "ObsHead s' = ObsHead s"
    "StalenessBound s' = StalenessBound s"
  shows "counted env r m s' = counted env r m s"
proof -
  have "counted_at s' r m now b = counted_at s r m now b" for now b
    by (rule ext) (simp add: counted_at_def obs_counts_def is_challenged_def read_obs_def Let_def
        assms split: option.split)
  then show ?thesis
    by (simp add: counted_def counted_in_def read_head_def read_staleness_hours_def assms)
qed

text \<open>C20. The ring is the tail of the history: along every run of the oracle from its construction, with the
  log \<open>h\<close> of the submissions it accepted (one entry per successful submission, empty at the start; every
  reachable state has such a log), the ring of each region and metric holds exactly the last sixteen
  entries of the log for it, each in the slot of its position modulo sixteen, and nothing else; its
  cursor is the number of these submissions. Every entry of the log is authentic: its author signed
  exactly its region, metric, time and value; its value is not negative and its time is past.\<close>

theorem ring_refines_history:
  assumes "or_log to_xdr verify h s now" and H: "H = submissions h r m"
  shows "unat (next_seq (head_of s r m)) = length H \<and> unat (obs_count (head_of s r m)) = min 16 (length H) \<and>
    (\<forall>i<length H. length H \<le> i + 16 \<longrightarrow> observation s r m (word_of_nat (i mod 16)) = Inr (H ! i)) \<and>
    (\<forall>k. min 16 (length H) \<le> unat k \<longrightarrow> observation s r m k = Inl (Err InvalidObservation)) \<and>
    (\<forall>obs\<in>set H. authentic to_xdr verify r m obs \<and> 0 \<le> obs_value obs \<and> obs_timestamp obs \<le> now)"
proof -
  have "ring_holds s r m H" using or_log_refines [OF assms(1)] by (simp add: H or_refines_def)
  moreover have "authentic to_xdr verify r m obs \<and> 0 \<le> obs_value obs \<and> obs_timestamp obs \<le> now"
    if "obs \<in> set H" for obs
    using that by (auto simp: H submissions_def intro!: or_log_authentic [OF assms(1)])
  ultimately show ?thesis
    by (simp add: ring_holds_def head_of_def observation_def read_obs_def ok_or_def)
qed

lemma or_demo_log: "or_log demo_xdr demo_verify
    [((demo_region, demo_metric), new_obs 605000 100 11), ((demo_region, demo_metric), new_obs 605000 104 12),
     ((demo_region, demo_metric), new_obs 605000 900 11)] or_demo7 605000"
proof -
  let ?L = "or_log demo_xdr demo_verify"
  have t: "timestamp (or_env now) = now" for now by (simp add: or_env_def)
  have rng: "in_i128 100" "in_i128 104" "in_i128 900" by (simp_all add: in_i128_def)
  have 0: "?L [] or_demo0 100" unfolding or_demo0_def by (rule log_start)
  note 1 = log_propose [OF 0 _ or_demo_propose(1), unfolded t, OF order_refl]
  note 2 = log_propose [OF 1 _ or_demo_propose(2), unfolded t, OF order_refl]
  note 3 = log_execute [OF 2 _ or_demo_execute(1), unfolded t]
  note 4 = log_execute [OF 3 _ or_demo_execute(2), unfolded t, OF _ order_refl]
  note 5 = log_submit [OF 4 _ rng(1) or_demo_submit(1), unfolded t]
  note 6 = log_submit [OF 5 _ rng(2) or_demo_submit(2), unfolded t, OF _ _ order_refl]
  note 7 = log_submit [OF 6 _ rng(3) or_demo_submit(3), unfolded t, OF _ _ order_refl]
  show ?thesis using 7 by (simp add: new_obs_def)
qed

theorem ring_refines_history_witness:
  "observation or_demo7 demo_region demo_metric 1 = Inr (new_obs 605000 104 12)"
  using ring_refines_history [OF or_demo_log refl, of demo_region demo_metric, THEN conjunct2, THEN conjunct2,
      THEN conjunct1, rule_format, of 1]
  by (simp add: submissions_def)

text \<open>Authenticity (FR-ORC-2): in every reachable state each stored observation is accepted, has a
  non-negative value in range and a time that is not in the future, was signed by its author
  over exactly its region, metric, time and value, and its author is still resolvable in the
  registry; and a challenge flag exists only on a slot that holds an observation.\<close>

theorem stored_observations_authentic:
  assumes "or_reachable to_xdr verify s now"
  shows "(\<forall>r m k obs. Obs s (r, m, k) = Some obs \<longrightarrow>
      (\<exists>sig. verify (obs_publisher obs) (to_xdr \<lparr>payload_region = r, payload_metric = m,
         payload_timestamp = obs_timestamp obs, payload_value = obs_value obs\<rparr>) sig) \<and>
      publisher_info s (obs_publisher obs) \<noteq> Inl (Err UnknownPublisher) \<and>
      accepted obs \<and> 0 \<le> obs_value obs \<and> in_i128 (obs_value obs) \<and> obs_timestamp obs \<le> now) \<and>
    (\<forall>r m k. is_challenged s r m k \<longrightarrow> (\<exists>obs. observation s r m k = Inr obs))"
proof -
  have inv: "\<And>r m k obs. Obs s (r, m, k) = Some obs \<Longrightarrow> obs_ok to_xdr verify s now r m obs"
    "dom (Challenge s) \<subseteq> dom (Obs s)"
    using or_reachable_inv [OF assms] by (simp_all add: or_inv_def)
  have "\<exists>obs. observation s r m k = Inr obs" if "is_challenged s r m k" for r m k
    using that inv(2) by (auto simp: is_challenged_def observation_def read_obs_def)
  moreover have "(\<exists>sig. verify (obs_publisher obs) (to_xdr \<lparr>payload_region = r, payload_metric = m,
         payload_timestamp = obs_timestamp obs, payload_value = obs_value obs\<rparr>) sig) \<and>
      publisher_info s (obs_publisher obs) \<noteq> Inl (Err UnknownPublisher) \<and>
      accepted obs \<and> 0 \<le> obs_value obs \<and> in_i128 (obs_value obs) \<and> obs_timestamp obs \<le> now"
    if "Obs s (r, m, k) = Some obs" for r m k obs
    using inv(1) [OF that]
    by (auto simp: obs_ok_def authentic_def publisher_info_def read_publisher_def)
  ultimately show ?thesis by blast
qed

theorem stored_observations_authentic_witness:
  "publisher_info or_demo7 12 \<noteq> Inl (Err UnknownPublisher)"
  using conjunct1 [OF stored_observations_authentic [OF or_demo_reachable(3)], rule_format,
      OF or_demo_obs(2)]
  by (simp add: new_obs_def)

text \<open>C35. The registry timelock (FR-ORC-1): from any reachable moment at which no change is pending for a
  publisher key, whether the key is an active publisher stays as it is along every run for seven
  days. So no trust change, addition or removal, can be made by the guardian in less than that.\<close>

theorem registry_timelock:
  assumes "or_reachable to_xdr verify s now" and "PendingPublisher s p = None"
    and run: "(or_step to_xdr verify)\<^sup>*\<^sup>* (s, now) (s', now')"
    and "uint now' < uint now + 604800"
  shows "is_publisher s' p = is_publisher s p"
proof -
  have "quiet p (is_publisher s p) now (s, now)" using assms(2) by (simp add: quiet_def)
  from orc_lock.reachable_inv [OF this run] show ?thesis
    using assms(4) by (simp add: locked_def)
qed

theorem registry_timelock_witness:
  "\<not> is_publisher or_demo1 11"
proof -
  have "(or_step demo_xdr demo_verify)\<^sup>*\<^sup>* (or_demo0, 100) (or_demo1, 100)"
    using or_propose [OF _ or_demo_propose(1), of 100 demo_xdr demo_verify]
    by (simp add: or_env_def r_into_rtranclp)
  from registry_timelock [OF or_demo_reachable(1) _ this, of 11] show ?thesis
    by (simp add: or_demo_fields is_publisher_def read_publisher_def)
qed

text \<open>Challenges (FR-ORC-5): challenging a slot takes exactly that slot's observation out of what the
  median counts, for its own region and metric and at any time, and leaves every other ring
  alone; clearing the flag puts it back.\<close>

theorem challenge_excludes:
  assumes ch: "challenge env r m k reason s = Inr s'"
  shows "counted env' r m s' = counted_in s r m (timestamp env')
      (read_staleness_hours s * SECONDS_PER_HOUR)
      (filter (\<lambda>j. j \<noteq> k) (slots_between 0 (obs_count (read_head s r m)))) \<and>
    ((r', m') \<noteq> (r, m) \<longrightarrow> counted env' r' m' s' = counted env' r' m' s) \<and>
    (unchallenge env'' r m k s' = Inr s'' \<longrightarrow> counted env' r m s'' = counted env' r m s)"
proof -
  from ch have h: "Challenge s (r, m, k) = None"
      "s' = or_publish (ObservationChallenged r m k reason)
         (s\<lparr>Challenge := (Challenge s)((r, m, k) \<mapsto> reason)\<rparr>)"
    by (elim challenge_ok; simp)+
  have rd: "read_head s' = read_head s" "read_staleness_hours s' = read_staleness_hours s"
    "Obs s' = Obs s"
    by (simp_all add: h(2) read_head_def [abs_def] read_staleness_hours_def store_simps)
  have "counted_in s' r m now b ks = counted_in s r m now b (filter (\<lambda>j. j \<noteq> k) ks)" for now b ks
    by (induction ks) (auto simp: counted_at_def obs_counts_def is_challenged_def read_obs_def
        Let_def h store_simps split: option.split)
  moreover have "counted_in s' r' m' now b ks = counted_in s r' m' now b ks"
    if "(r', m') \<noteq> (r, m)" for now b ks
    using that by (induction ks) (auto simp: counted_at_def obs_counts_def is_challenged_def
        read_obs_def Let_def h(2) store_simps split: option.split)
  moreover have "counted env' r m s'' = counted env' r m s" if "unchallenge env'' r m k s' = Inr s''"
  proof -
    from that have "s'' = or_publish (ObservationUnchallenged r m k)
       (s'\<lparr>Challenge := (Challenge s')((r, m, k) := None)\<rparr>)"
      by (elim unchallenge_ok; simp)
    then have "Challenge s'' = Challenge s" "Obs s'' = Obs s" "ObsHead s'' = ObsHead s"
      "StalenessBound s'' = StalenessBound s"
      using h(1) by (auto simp: h(2) store_simps)
    then show ?thesis by (rule counted_same)
  qed
  ultimately show ?thesis by (simp add: counted_def rd)
qed

theorem challenge_excludes_witness:
  "counted (or_env 605200) demo_region demo_metric or_demo8
     = [new_obs 605000 100 11, new_obs 605000 104 12]"
  using challenge_excludes [OF or_demo_challenge, of "or_env 605200"]
  by (simp add: demo_counted_defs or_demo_ring or_demo_obs demo_slots Let_def)

text \<open>A submission can be replayed: once accepted, the same signed message is accepted again at any
  later time, from anyone, as long as its publisher is active and the ring cursor has room, and it
  is stored once more. Nothing ties a signature to one use, so whoever replays the one signed
  observation of a publisher can give it the majority of the ring.\<close>

theorem submission_replayable:
  assumes "submit to_xdr verify env r m ts v p sig s = Inr (slot, s')"
    and "timestamp env \<le> timestamp env2" and "is_publisher s2 p"
    and "uint (next_seq (read_head s2 r m)) + 1 < 2 ^ 32"
  shows "\<exists>slot2 s3. submit to_xdr verify env2 r m ts v p sig s2 = Inr (slot2, s3) \<and>
    Obs s3 (r, m, slot2) = Some (new_obs ts v p)"
proof -
  from assms(1) have h: "0 \<le> v" "ts \<le> timestamp env"
      "verify p (to_xdr \<lparr>payload_region = r, payload_metric = m, payload_timestamp = ts,
       payload_value = v\<rparr>) sig"
    by (elim submit_ok; simp)+
  moreover obtain info where "Publisher s2 p = Some info" "active info"
    using assms(3) by (cases "Publisher s2 p") (auto simp: or_reads)
  ultimately show ?thesis
    using assms(2,4) by (auto simp: submit_def or_reads Let_def checked_uadd_def new_obs_def store_simps)
qed

theorem submission_replayable_witness:
  "\<exists>slot s'. submit demo_xdr demo_verify (or_env 605060) demo_region demo_metric 605000 900 11
     (ucast (11::Bytes32)) or_demo7 = Inr (slot, s') \<and>
     Obs s' (demo_region, demo_metric, slot) = Some (new_obs 605000 900 11)"
  by (rule submission_replayable [OF or_demo_submit(3)])
    (simp_all add: or_env_def or_demo_ring is_publisher_def read_publisher_def or_demo_fields)

end
