(* ===== verification/TriggerEngine.thy ===== *)
theory TriggerEngine
  imports Host Common
begin

text \<open>
  The \<^verbatim>\<open>trigger-engine\<close> contract (\<^verbatim>\<open>src/contracts/trigger-engine/src/lib.rs\<close>): immutable index
  definitions, the reduction of a window's daily values to an accumulator, the two index formulas,
  and the trigger state machine.

  The oracle's median is a call of another contract: \<open>oracle_median\<close> is a parameter of
  \<open>record_day_from_oracle\<close>, which reads the state \<open>w\<close> of the rest of the ledger and is
  \<^term>\<open>None\<close> when the call traps.
\<close>

section \<open>Data\<close>

definition CHALLENGE_WINDOW_SECS :: u64 where
  "CHALLENGE_WINDOW_SECS = 24 * 60 * 60"

datatype IndexKind = RainfallShortfall | ConsecutiveDryDays

datatype TriggerStatus = Healthy | Triggered u64 | Finalized u64 u32

record IndexParams =
  ip_kind :: IndexKind
  ip_region :: Symbol
  ip_metric :: Symbol
  window_len :: u32
  baseline :: i128
  trigger_ratio_bps :: u32
  exhaustion_ratio_bps :: u32
  trigger_days :: u32
  exhaustion_days :: u32
  dry_floor :: i128
  data_source_ref :: Bytes32

record IndexDefinition =
  index_id :: u64
  index_params :: IndexParams

record WindowAccumulator =
  days_recorded :: u32
  rain_sum :: i128
  current_run :: u32
  max_run :: u32

datatype TriggerError =
    IndexNotFound | StaleIndex | AlreadyFinalized | NotTriggered | NonDeterministicInput
  | InvalidIndexDef | OracleNotConfigured
  | TeUnauthorized | TeTimelockPending | TeNotInitialized | TeOverflow

fun te_error_code :: "TriggerError \<Rightarrow> u32" where
  "te_error_code IndexNotFound = 400"
| "te_error_code StaleIndex = 401"
| "te_error_code AlreadyFinalized = 402"
| "te_error_code NotTriggered = 403"
| "te_error_code NonDeterministicInput = 404"
| "te_error_code InvalidIndexDef = 405"
| "te_error_code OracleNotConfigured = 406"
| "te_error_code TeUnauthorized = 900"
| "te_error_code TeTimelockPending = 901"
| "te_error_code TeNotInitialized = 902"
| "te_error_code TeOverflow = 903"

datatype TriggerEvent =
    IndexCreated u64
  | DayRecorded u64 u64 u64
  | EvTriggered u64 u64 u64
  | EvFinalized u64 u64 u64 u32
  | OracleSet Address

text \<open>The store: the variants of \<^verbatim>\<open>DataKey\<close>, and the events published so far.\<close>

record TriggerStore =
  TeAdmin :: "Address option"
  IndexCount :: "u64 option"
  OracleRef :: "Address option"
  IndexDef :: "u64 \<rightharpoonup> IndexDefinition"
  Accumulator :: "u64 \<times> u64 \<rightharpoonup> WindowAccumulator"
  TriggerState :: "u64 \<times> u64 \<rightharpoonup> TriggerStatus"
  EvalCursor :: "u64 \<times> u64 \<rightharpoonup> u64"
  te_events :: "TriggerEvent list"

definition te_empty :: TriggerStore where
  "te_empty = \<lparr>TeAdmin = None, IndexCount = None, OracleRef = None, IndexDef = Map.empty,
     Accumulator = Map.empty, TriggerState = Map.empty, EvalCursor = Map.empty, te_events = []\<rparr>"

definition te_publish :: "TriggerEvent \<Rightarrow> TriggerStore \<Rightarrow> TriggerStore" where
  "te_publish e s = s\<lparr>te_events := te_events s @ [e]\<rparr>"

section \<open>Store access\<close>

definition te_require_admin :: "Env \<Rightarrow> TriggerStore \<Rightarrow> (TriggerError, Address) result" where
  "te_require_admin env s = require_stored env (TeAdmin s) TeNotInitialized"

definition read_def :: "TriggerStore \<Rightarrow> u64 \<Rightarrow> (TriggerError, IndexDefinition) result" where
  "read_def s idx = ok_or (IndexDef s idx) IndexNotFound"

definition read_cursor :: "TriggerStore \<Rightarrow> u64 \<Rightarrow> u64 \<Rightarrow> u64 option" where
  "read_cursor s idx win = EvalCursor s (idx, win)"

definition empty_accumulator :: WindowAccumulator where
  "empty_accumulator = \<lparr>days_recorded = 0, rain_sum = 0, current_run = 0, max_run = 0\<rparr>"

definition read_accumulator :: "TriggerStore \<Rightarrow> u64 \<Rightarrow> u64 \<Rightarrow> WindowAccumulator" where
  "read_accumulator s idx win = unwrap_or (Accumulator s (idx, win)) empty_accumulator"

definition read_state :: "TriggerStore \<Rightarrow> u64 \<Rightarrow> u64 \<Rightarrow> TriggerStatus" where
  "read_state s idx win = unwrap_or (TriggerState s (idx, win)) Healthy"

section \<open>The index formulas\<close>

definition validate_params :: "IndexParams \<Rightarrow> (TriggerError, unit) result" where
  "validate_params params =
     (if window_len params = 0 then Inl (Err InvalidIndexDef)
      else case ip_kind params of
        RainfallShortfall \<Rightarrow>
          if baseline params \<le> 0 then Inl (Err InvalidIndexDef)
          else if trigger_ratio_bps params > as_u32 BPS_DENOMINATOR then Inl (Err InvalidIndexDef)
          else if exhaustion_ratio_bps params \<ge> trigger_ratio_bps params
          then Inl (Err InvalidIndexDef)
          else Inr ()
      | ConsecutiveDryDays \<Rightarrow>
          if trigger_days params = 0 \<or> trigger_days params > window_len params
          then Inl (Err InvalidIndexDef)
          else if exhaustion_days params \<le> trigger_days params then Inl (Err InvalidIndexDef)
          else Inr ())"

definition eval_rainfall ::
    "IndexParams \<Rightarrow> WindowAccumulator \<Rightarrow> (TriggerError, bool \<times> Bps) result" where
  "eval_rainfall params acc =
     (let actual = rain_sum acc in
      bind_ok (ok_or (checked_mul actual BPS_DENOMINATOR) TeOverflow) (\<lambda>n.
      bind_ok (ok_or (checked_div n (baseline params)) TeOverflow) (\<lambda>ratio.
      let trigger = uint (trigger_ratio_bps params);
          exhaustion = uint (exhaustion_ratio_bps params) in
      if ratio \<ge> trigger then Inr (False, 0)
      else if ratio \<le> exhaustion then Inr (True, as_u32 BPS_DENOMINATOR)
      else
        bind_ok (or_trap (checked_sub trigger ratio)) (\<lambda>num.
        bind_ok (ok_or (checked_mul num BPS_DENOMINATOR) TeOverflow) (\<lambda>n.
        bind_ok (or_trap (checked_sub trigger exhaustion)) (\<lambda>den.
        bind_ok (ok_or (checked_div n den) TeOverflow) (\<lambda>severity.
        Inr (True, as_u32 severity))))))))"

definition eval_dry_days ::
    "IndexParams \<Rightarrow> WindowAccumulator \<Rightarrow> (TriggerError, bool \<times> Bps) result" where
  "eval_dry_days params acc =
     (if max_run acc < trigger_days params then Inr (False, 0)
      else if max_run acc \<ge> exhaustion_days params then Inr (True, as_u32 BPS_DENOMINATOR)
      else
        bind_ok (or_trap (checked_usub (max_run acc) (trigger_days params))) (\<lambda>num.
        bind_ok (or_trap (checked_usub (exhaustion_days params) (trigger_days params))) (\<lambda>den.
        bind_ok (ok_or (checked_mul (uint num) BPS_DENOMINATOR) TeOverflow) (\<lambda>n.
        bind_ok (ok_or (checked_div n (uint den)) TeOverflow) (\<lambda>severity.
        Inr (True, as_u32 severity))))))"

definition eval_index ::
    "IndexParams \<Rightarrow> WindowAccumulator \<Rightarrow> (TriggerError, bool \<times> Bps) result" where
  "eval_index params acc =
     (case ip_kind params of
        RainfallShortfall \<Rightarrow> eval_rainfall params acc
      | ConsecutiveDryDays \<Rightarrow> eval_dry_days params acc)"

definition severity_of :: "IndexParams \<Rightarrow> WindowAccumulator \<Rightarrow> (TriggerError, Bps) result" where
  "severity_of params acc = bind_ok (eval_index params acc) (\<lambda>(_, severity). Inr severity)"

section \<open>Configuration and ingestion\<close>

definition te_constructor :: "Address \<Rightarrow> TriggerStore" where
  "te_constructor a = te_empty\<lparr>TeAdmin := Some a\<rparr>"

definition te_admin :: "TriggerStore \<Rightarrow> (TriggerError, Address) result" where
  "te_admin s = ok_or (TeAdmin s) TeNotInitialized"

definition create_index ::
    "Env \<Rightarrow> IndexParams \<Rightarrow> TriggerStore \<Rightarrow> (TriggerError, u64 \<times> TriggerStore) result" where
  "create_index env params s =
     bind_ok (te_require_admin env s) (\<lambda>_.
     bind_ok (validate_params params) (\<lambda>_.
     let idx = unwrap_or (IndexCount s) 0 in
     bind_ok (ok_or (checked_uadd idx 1) TeOverflow) (\<lambda>next.
     let s = s\<lparr>IndexCount := Some next\<rparr>;
         def = \<lparr>index_id = idx, index_params = params\<rparr>;
         s = s\<lparr>IndexDef := (IndexDef s)(idx \<mapsto> def)\<rparr> in
     Inr (idx, te_publish (IndexCreated idx) s))))"

text \<open>The update of the accumulator by one day's value; the counters are plain \<^verbatim>\<open>u32\<close> additions,
  which panic on overflow.\<close>

definition fold_value ::
    "IndexParams \<Rightarrow> WindowAccumulator \<Rightarrow> i128 \<Rightarrow> (TriggerError, WindowAccumulator) result" where
  "fold_value params acc value =
     bind_ok (ok_or (checked_add (rain_sum acc) value) TeOverflow) (\<lambda>sum.
     let acc = acc\<lparr>rain_sum := sum\<rparr> in
     bind_ok (if value \<le> dry_floor params
              then bind_ok (or_trap (checked_uadd (current_run acc) 1)) (\<lambda>run.
                   let acc = acc\<lparr>current_run := run\<rparr> in
                   Inr (if current_run acc > max_run acc then acc\<lparr>max_run := current_run acc\<rparr>
                        else acc))
              else Inr (acc\<lparr>current_run := 0\<rparr>)) (\<lambda>acc.
     bind_ok (or_trap (checked_uadd (days_recorded acc) 1)) (\<lambda>days.
     Inr (acc\<lparr>days_recorded := days\<rparr>))))"

definition fold_day ::
    "IndexDefinition \<Rightarrow> u64 \<Rightarrow> u64 \<Rightarrow> u64 \<Rightarrow> i128 \<Rightarrow> TriggerStore \<Rightarrow>
     (TriggerError, TriggerStore) result" where
  "fold_day def idx win day value s =
     (if value < 0 then Inl (Err NonDeterministicInput)
      else if (case read_cursor s idx win of Some prev \<Rightarrow> day \<le> prev | None \<Rightarrow> False)
      then Inl (Err NonDeterministicInput)
      else let acc = read_accumulator s idx win in
      if days_recorded acc \<ge> window_len (index_params def) then Inl (Err NonDeterministicInput)
      else
        bind_ok (fold_value (index_params def) acc value) (\<lambda>acc.
        let s = s\<lparr>Accumulator := (Accumulator s)((idx, win) \<mapsto> acc)\<rparr>;
            s = s\<lparr>EvalCursor := (EvalCursor s)((idx, win) \<mapsto> day)\<rparr> in
        Inr (te_publish (DayRecorded idx win day) s)))"

definition record_day ::
    "Env \<Rightarrow> u64 \<Rightarrow> u64 \<Rightarrow> u64 \<Rightarrow> i128 \<Rightarrow> TriggerStore \<Rightarrow> (TriggerError, TriggerStore) result"
  where "record_day env idx win day value s =
     bind_ok (te_require_admin env s) (\<lambda>_.
     bind_ok (read_def s idx) (\<lambda>def.
     fold_day def idx win day value s))"

type_synonym 'w median_fn = "'w \<Rightarrow> Env \<Rightarrow> Address \<Rightarrow> Symbol \<Rightarrow> Symbol \<Rightarrow> i128 option"

definition record_day_from_oracle ::
    "'w median_fn \<Rightarrow> 'w \<Rightarrow> Env \<Rightarrow> u64 \<Rightarrow> u64 \<Rightarrow> u64 \<Rightarrow> TriggerStore \<Rightarrow>
     (TriggerError, i128 \<times> TriggerStore) result" where
  "record_day_from_oracle oracle_median w env idx win day s =
     bind_ok (te_require_admin env s) (\<lambda>_.
     bind_ok (read_def s idx) (\<lambda>def.
     bind_ok (ok_or (OracleRef s) OracleNotConfigured) (\<lambda>oref.
     bind_ok (or_trap (oracle_median w (call_env env oref) oref (ip_region (index_params def))
                         (ip_metric (index_params def)))) (\<lambda>value.
     bind_ok (fold_day def idx win day value s) (\<lambda>s.
     Inr (value, s))))))"

definition set_oracle ::
    "Env \<Rightarrow> Address \<Rightarrow> TriggerStore \<Rightarrow> (TriggerError, TriggerStore) result" where
  "set_oracle env oref s =
     bind_ok (te_require_admin env s) (\<lambda>_.
     let s = s\<lparr>OracleRef := Some oref\<rparr> in
     Inr (te_publish (OracleSet oref) s))"

definition oracle_ref :: "TriggerStore \<Rightarrow> (TriggerError, Address) result" where
  "oracle_ref s = ok_or (OracleRef s) OracleNotConfigured"

section \<open>Evaluation and finalization\<close>

definition evaluate ::
    "Env \<Rightarrow> u64 \<Rightarrow> u64 \<Rightarrow> TriggerStore \<Rightarrow> (TriggerError, TriggerStatus \<times> TriggerStore) result"
  where "evaluate env idx win s =
     bind_ok (read_def s idx) (\<lambda>def.
     let acc = read_accumulator s idx win in
     if days_recorded acc < window_len (index_params def) then Inl (Err StaleIndex)
     else let state = read_state s idx win in
     case state of
       Healthy \<Rightarrow>
         bind_ok (eval_index (index_params def) acc) (\<lambda>(triggered, _).
         if triggered then
           let now = timestamp env;
               new_state = Triggered now;
               s = s\<lparr>TriggerState := (TriggerState s)((idx, win) \<mapsto> new_state)\<rparr> in
           Inr (new_state, te_publish (EvTriggered idx win now) s)
         else Inr (Healthy, s))
     | Triggered _ \<Rightarrow> Inr (state, s)
     | Finalized _ _ \<Rightarrow> Inr (state, s))"

definition finalize ::
    "Env \<Rightarrow> u64 \<Rightarrow> u64 \<Rightarrow> TriggerStore \<Rightarrow> (TriggerError, TriggerStatus \<times> TriggerStore) result"
  where "finalize env idx win s =
     bind_ok (te_require_admin env s) (\<lambda>_.
     bind_ok (case read_state s idx win of
                Finalized _ _ \<Rightarrow> Inl (Err AlreadyFinalized)
              | Healthy \<Rightarrow> Inl (Err NotTriggered)
              | Triggered at \<Rightarrow> Inr at) (\<lambda>triggered_at.
     let now = timestamp env in
     bind_ok (ok_or (checked_uadd triggered_at CHALLENGE_WINDOW_SECS) TeOverflow) (\<lambda>ready.
     if now < ready then Inl (Err TeTimelockPending)
     else
       bind_ok (read_def s idx) (\<lambda>def.
       let acc = read_accumulator s idx win in
       bind_ok (severity_of (index_params def) acc) (\<lambda>severity.
       let new_state = Finalized now severity;
           s = s\<lparr>TriggerState := (TriggerState s)((idx, win) \<mapsto> new_state)\<rparr> in
       Inr (new_state, te_publish (EvFinalized idx win now severity) s))))))"

definition payout_for :: "u64 \<Rightarrow> u64 \<Rightarrow> i128 \<Rightarrow> TriggerStore \<Rightarrow> (TriggerError, i128) result" where
  "payout_for idx win coverage s =
     (case read_state s idx win of
        Finalized _ severity \<Rightarrow>
          bind_ok (ok_or (apply_bps coverage severity) TeOverflow) (\<lambda>scaled.
          Inr (min scaled coverage))
      | Healthy \<Rightarrow> Inl (Err NotTriggered)
      | Triggered _ \<Rightarrow> Inl (Err NotTriggered))"

section \<open>Reads\<close>

definition index_def :: "TriggerStore \<Rightarrow> u64 \<Rightarrow> (TriggerError, IndexDefinition) result" where
  "index_def s idx = read_def s idx"

definition trigger_state :: "TriggerStore \<Rightarrow> u64 \<Rightarrow> u64 \<Rightarrow> TriggerStatus" where
  "trigger_state s idx win = read_state s idx win"

definition accumulator :: "TriggerStore \<Rightarrow> u64 \<Rightarrow> u64 \<Rightarrow> WindowAccumulator" where
  "accumulator s idx win = read_accumulator s idx win"

definition index_count :: "TriggerStore \<Rightarrow> u64" where
  "index_count s = unwrap_or (IndexCount s) 0"

end
