(* ===== verification/Trigger_Eval.thy ===== *)
theory Trigger_Eval
  imports TriggerEngine
begin

text \<open>
  The index formulas against one severity curve: both indices measure how deep a window is past
  its trigger threshold, and map that depth through the same linear ramp. And the accumulator
  against the series of daily values it summarizes: its sum and its longest dry run.
\<close>

section \<open>Valid parameters\<close>

lemma validate_params_ok [ok_simps]:
  "validate_params p = Inr u \<longleftrightarrow> window_len p \<noteq> 0 \<and> (case ip_kind p of
     RainfallShortfall \<Rightarrow> 0 < baseline p \<and> uint (trigger_ratio_bps p) \<le> 10000 \<and>
       exhaustion_ratio_bps p < trigger_ratio_bps p
   | ConsecutiveDryDays \<Rightarrow> trigger_days p \<noteq> 0 \<and> trigger_days p \<le> window_len p \<and>
       trigger_days p < exhaustion_days p)"
proof -
  have "(trigger_ratio_bps p \<le> as_u32 BPS_DENOMINATOR) = (uint (trigger_ratio_bps p) \<le> 10000)"
    by (simp add: as_u32_def BPS_DENOMINATOR_def word_le_def)
  then show ?thesis
    by (auto simp: validate_params_def not_less not_le split: IndexKind.split if_splits)
qed

section \<open>The severity curve\<close>

definition severity_ramp :: "int \<Rightarrow> int \<Rightarrow> int" where
  "severity_ramp span x = (if x \<le> 0 then 0 else if span \<le> x then 10000 else x * 10000 div span)"

text \<open>How deep a window is past the trigger threshold, and the depth at which it pays in full.\<close>

definition index_depth :: "IndexParams \<Rightarrow> WindowAccumulator \<Rightarrow> int" where
  "index_depth p acc = (case ip_kind p of
     RainfallShortfall \<Rightarrow> uint (trigger_ratio_bps p) - rain_sum acc * 10000 div baseline p
   | ConsecutiveDryDays \<Rightarrow> uint (max_run acc) - uint (trigger_days p))"

definition index_span :: "IndexParams \<Rightarrow> int" where
  "index_span p = (case ip_kind p of
     RainfallShortfall \<Rightarrow> uint (trigger_ratio_bps p) - uint (exhaustion_ratio_bps p)
   | ConsecutiveDryDays \<Rightarrow> uint (exhaustion_days p) - uint (trigger_days p))"

text \<open>Rainfall must fall strictly below its threshold, a dry run must reach its own.\<close>

definition breached :: "IndexParams \<Rightarrow> WindowAccumulator \<Rightarrow> bool" where
  "breached p acc \<longleftrightarrow> (case ip_kind p of
     RainfallShortfall \<Rightarrow> 0 < index_depth p acc | ConsecutiveDryDays \<Rightarrow> 0 \<le> index_depth p acc)"

lemma index_span_pos: "validate_params p = Inr () \<Longrightarrow> 0 < index_span p"
  by (auto simp: validate_params_ok index_span_def word_less_def split: IndexKind.splits)

lemma severity_ramp_bounds:
  assumes "0 < span"
  shows "0 \<le> severity_ramp span x" and "severity_ramp span x \<le> 10000"
proof -
  have le: "x * 10000 div span \<le> 10000" if "x < span"
  proof -
    have "x * 10000 div span \<le> span * 10000 div span" using assms that by (intro zdiv_mono1) simp_all
    then show ?thesis using assms by simp
  qed
  show "0 \<le> severity_ramp span x"
    using assms by (simp add: severity_ramp_def pos_imp_zdiv_nonneg_iff)
  show "severity_ramp span x \<le> 10000" using le by (simp add: severity_ramp_def)
qed

lemma severity_ramp_mono:
  assumes "0 < span" and "x \<le> y"
  shows "severity_ramp span x \<le> severity_ramp span y"
proof (cases "x \<le> 0 \<or> span \<le> y")
  case True
  then show ?thesis
    using severity_ramp_bounds [OF assms(1), of x] severity_ramp_bounds [OF assms(1), of y] assms(2)
    by (auto simp: severity_ramp_def)
next
  case False
  have "x * 10000 div span \<le> y * 10000 div span" using assms by (intro zdiv_mono1) simp_all
  with False assms(2) show ?thesis by (simp add: severity_ramp_def)
qed

section \<open>The formulas compute the curve\<close>

text \<open>No step of the curve leaves the range of \<^verbatim>\<open>i128\<close>.\<close>

lemma ramp_in_range:
  fixes x span :: int
  assumes "0 \<le> x" and "x \<le> 4294967296" and "0 < span"
  shows "in_i128 x" and "in_i128 (x * 10000)" and "in_i128 (x * 10000 div span)"
proof -
  have "x * 10000 div span \<le> x * 10000 div 1" using assms by (intro zdiv_mono2) simp_all
  moreover have "0 \<le> x * 10000 div span" using assms by (simp add: pos_imp_zdiv_nonneg_iff)
  ultimately show "in_i128 x" and "in_i128 (x * 10000)" and "in_i128 (x * 10000 div span)"
    using assms by (simp_all add: in_i128_def)
qed

lemma eval_rainfall_ramp:
  assumes p: "0 < baseline p" "uint (trigger_ratio_bps p) \<le> 10000"
      "exhaustion_ratio_bps p < trigger_ratio_bps p"
    and r: "0 \<le> rain_sum acc" "in_i128 (rain_sum acc * 10000)"
  shows "eval_rainfall p acc =
    (let x = uint (trigger_ratio_bps p) - rain_sum acc * 10000 div baseline p in
     Inr (0 < x, as_u32 (severity_ramp (uint (trigger_ratio_bps p) - uint (exhaustion_ratio_bps p)) x)))"
proof -
  let ?T = "uint (trigger_ratio_bps p)" and ?E = "uint (exhaustion_ratio_bps p)"
  let ?q = "rain_sum acc * 10000 div baseline p"
  have E: "0 \<le> ?E" "?E < ?T" using p(3) by (simp_all add: word_less_def)
  have q: "0 \<le> ?q" using p(1) r(1) by (simp add: pos_imp_zdiv_nonneg_iff)
  have "?q \<le> rain_sum acc * 10000 div 1" using p(1) r(1) by (intro zdiv_mono2) simp_all
  then have "in_i128 ?q" using q r by (intro in_i128_between [OF r(2)]) simp_all
  then have div: "checked_div (rain_sum acc * 10000) (baseline p) = Some ?q"
    using p(1) r(1) by (simp add: checked_div_def checked_def)
  have mul: "checked_mul (rain_sum acc) 10000 = Some (rain_sum acc * 10000)"
    using r(2) by (simp add: checked_mul_def checked_def)
  have num: "checked_sub ?T ?q = Some (?T - ?q)" "checked_sub ?T ?E = Some (?T - ?E)"
    "checked_mul (?T - ?q) 10000 = Some ((?T - ?q) * 10000)"
    "checked_div ((?T - ?q) * 10000) (?T - ?E) = Some ((?T - ?q) * 10000 div (?T - ?E))"
    if lt: "?q < ?T"
  proof -
    have b: "0 \<le> ?T - ?q" "?T - ?q \<le> 4294967296" "0 < ?T - ?E" "0 \<le> ?T - ?E" "?T - ?E \<le> 4294967296"
      by (use lt p(2) q E in linarith)+
    show "checked_sub ?T ?q = Some (?T - ?q)" "checked_mul (?T - ?q) 10000 = Some ((?T - ?q) * 10000)"
      using ramp_in_range [OF b(1-3)] by (simp_all add: checked_sub_def checked_mul_def checked_def)
    show "checked_sub ?T ?E = Some (?T - ?E)"
      using ramp_in_range(1) [OF b(4,5,3)] by (simp add: checked_sub_def checked_def)
    have "(?T - ?q) * 10000 sdiv (?T - ?E) = (?T - ?q) * 10000 div (?T - ?E)"
      using b by (intro sdiv_nonneg) simp_all
    then show "checked_div ((?T - ?q) * 10000) (?T - ?E) = Some ((?T - ?q) * 10000 div (?T - ?E))"
      using ramp_in_range(3) [OF b(1-3)] b(3) by (simp add: checked_div_def checked_def)
  qed
  show ?thesis
  proof (cases "?q < ?T")
    case False
    then show ?thesis
      by (simp add: eval_rainfall_def Let_def BPS_DENOMINATOR_def mul div severity_ramp_def as_u32_def)
  next
    case True
    then show ?thesis
      by (auto simp add: eval_rainfall_def Let_def BPS_DENOMINATOR_def mul div num severity_ramp_def
          simp del: left_diff_distrib_numeral)
  qed
qed

lemma eval_dry_days_ramp:
  assumes p: "trigger_days p < exhaustion_days p"
  shows "eval_dry_days p acc =
    (let x = uint (max_run acc) - uint (trigger_days p) in
     Inr (0 \<le> x, as_u32 (severity_ramp (uint (exhaustion_days p) - uint (trigger_days p)) x)))"
proof -
  let ?m = "uint (max_run acc)" and ?t = "uint (trigger_days p)" and ?e = "uint (exhaustion_days p)"
  have te: "?t < ?e" using p by (simp add: word_less_def)
  have b: "0 \<le> ?m" "?m < 4294967296" "0 \<le> ?t" "?e < 4294967296"
    using uint_lt2p [of "max_run acc"] uint_lt2p [of "exhaustion_days p"] by simp_all
  have sub: "uint (max_run acc - trigger_days p) = ?m - ?t" if "\<not> max_run acc < trigger_days p"
    using that by (simp add: word_less_def not_less flip: uint_sub_lem)
  have sub': "uint (exhaustion_days p - trigger_days p) = ?e - ?t"
    using te by (simp flip: uint_sub_lem)
  show ?thesis
  proof (cases "max_run acc < trigger_days p \<or> exhaustion_days p \<le> max_run acc")
    case True
    then show ?thesis
      using te by (auto simp: eval_dry_days_def Let_def severity_ramp_def BPS_DENOMINATOR_def as_u32_def
          word_less_def word_le_def)
  next
    case False
    then have ne: "\<not> max_run acc < trigger_days p" "\<not> exhaustion_days p \<le> max_run acc" by simp_all
    then have m: "?t \<le> ?m" "?m < ?e" by (simp_all add: word_less_def word_le_def not_less not_le)
    have b': "0 \<le> ?m - ?t" "?m - ?t \<le> 4294967296" "0 < ?e - ?t"
      by (use m b te in linarith)+
    note ramp_in_range [OF b']
    moreover have "severity_ramp (?e - ?t) (?m - ?t) = (?m - ?t) * 10000 div (?e - ?t)"
      using m by (simp add: severity_ramp_def)
    ultimately show ?thesis
      using ne m te p
      by (simp add: eval_dry_days_def Let_def sub sub' checked_usub_def checked_mul_def checked_div_def
          checked_def BPS_DENOMINATOR_def less_imp_le)
  qed
qed

lemma eval_index_ramp:
  assumes p: "validate_params p = Inr ()" and r: "0 \<le> rain_sum acc" "in_i128 (rain_sum acc * 10000)"
  shows "eval_index p acc = Inr (breached p acc, as_u32 (severity_ramp (index_span p) (index_depth p acc)))"
  using p r
  by (cases "ip_kind p")
    (simp_all add: validate_params_ok eval_index_def eval_rainfall_ramp eval_dry_days_ramp breached_def
      index_depth_def index_span_def Let_def)

end
