(* ===== verification/Trigger_Series.thy ===== *)
theory Trigger_Series
  imports Trigger_Eval
begin

text \<open>
  The accumulator of a window against the series of daily values it was fed: its fields are the
  number of days, the sum, the length of the dry run the series ends with, and the length of the
  longest block of consecutive dry days anywhere in the series.
\<close>

section \<open>Dry runs of a series\<close>

definition is_dry :: "IndexParams \<Rightarrow> i128 \<Rightarrow> bool" where
  "is_dry p v \<longleftrightarrow> v \<le> dry_floor p"

definition trailing_run :: "IndexParams \<Rightarrow> i128 list \<Rightarrow> nat" where
  "trailing_run p vs = length (takeWhile (is_dry p) (rev vs))"

text \<open>The series has a block of \<open>n\<close> consecutive dry days.\<close>

definition dry_block :: "IndexParams \<Rightarrow> i128 list \<Rightarrow> nat \<Rightarrow> bool" where
  "dry_block p vs n \<longleftrightarrow> (\<exists>pre ys post. vs = pre @ ys @ post \<and> length ys = n \<and> (\<forall>y\<in>set ys. is_dry p y))"

definition longest_run :: "IndexParams \<Rightarrow> i128 list \<Rightarrow> nat \<Rightarrow> bool" where
  "longest_run p vs n \<longleftrightarrow> dry_block p vs n \<and> (\<forall>m. dry_block p vs m \<longrightarrow> m \<le> n)"

lemma trailing_run_snoc [simp]:
  "trailing_run p [] = 0"
  "trailing_run p (vs @ [v]) = (if is_dry p v then Suc (trailing_run p vs) else 0)"
  by (simp_all add: trailing_run_def)

lemma trailing_run_le: "trailing_run p vs \<le> length vs"
  using length_takeWhile_le [of "is_dry p" "rev vs"] by (simp add: trailing_run_def)

lemma dry_block_trailing: "m \<le> trailing_run p vs \<Longrightarrow> dry_block p vs m"
proof -
  assume m: "m \<le> trailing_run p vs"
  let ?ys = "rev (take m (rev vs))"
  have "take m (rev vs) = take m (takeWhile (is_dry p) (rev vs))"
    using m by (metis append_take_drop_id take_append takeWhile_dropWhile_id diff_is_0_eq take_0
        append_Nil2 trailing_run_def)
  then have "\<forall>y\<in>set ?ys. is_dry p y" by (auto dest: in_set_takeD set_takeWhileD)
  moreover have "vs = rev (drop m (rev vs)) @ ?ys @ []"
    by (metis append_Nil2 append_take_drop_id rev_append rev_rev_ident)
  moreover have "length ?ys = m" using m trailing_run_le [of p vs] by simp
  ultimately show ?thesis unfolding dry_block_def by blast
qed

lemma dry_suffix_le: "\<forall>y\<in>set ys. is_dry p y \<Longrightarrow> length ys \<le> trailing_run p (pre @ ys)"
proof -
  assume "\<forall>y\<in>set ys. is_dry p y"
  then have "takeWhile (is_dry p) (rev ys @ rev pre) = rev ys @ takeWhile (is_dry p) (rev pre)"
    by (intro takeWhile_append2) auto
  then show ?thesis by (simp add: trailing_run_def)
qed

lemma dry_block_snoc:
  "dry_block p (vs @ [v]) m \<longleftrightarrow> dry_block p vs m \<or> m \<le> trailing_run p (vs @ [v])"
proof
  assume "dry_block p (vs @ [v]) m"
  then obtain pre ys post where b: "vs @ [v] = pre @ ys @ post" "length ys = m" "\<forall>y\<in>set ys. is_dry p y"
    by (auto simp: dry_block_def)
  show "dry_block p vs m \<or> m \<le> trailing_run p (vs @ [v])"
  proof (cases post rule: rev_cases)
    case Nil
    then show ?thesis using dry_suffix_le [OF b(3), of pre] b by simp
  next
    case (snoc post' w)
    then have "vs = pre @ ys @ post'" using b(1) by simp
    then show ?thesis using b(2,3) unfolding dry_block_def by blast
  qed
next
  assume "dry_block p vs m \<or> m \<le> trailing_run p (vs @ [v])"
  then show "dry_block p (vs @ [v]) m"
  proof
    assume "dry_block p vs m"
    then obtain pre ys post where "vs = pre @ ys @ post" "length ys = m" "\<forall>y\<in>set ys. is_dry p y"
      by (auto simp: dry_block_def)
    then show ?thesis unfolding dry_block_def by (intro exI [of _ pre] exI [of _ ys] exI [of _ "post @ [v]"]) simp
  qed (rule dry_block_trailing)
qed

lemma longest_run_Nil: "longest_run p [] 0"
  by (auto simp: longest_run_def dry_block_def)

lemma longest_run_snoc:
  "longest_run p vs n \<Longrightarrow> longest_run p (vs @ [v]) (max n (trailing_run p (vs @ [v])))"
  by (auto simp: longest_run_def dry_block_snoc max_def simp del: trailing_run_snoc)

lemma longest_run_unique: "longest_run p vs n \<Longrightarrow> longest_run p vs m \<Longrightarrow> m = n"
  by (auto simp: longest_run_def intro: le_antisym)

section \<open>The accumulator summarizes the series\<close>

definition summarizes :: "IndexParams \<Rightarrow> i128 list \<Rightarrow> WindowAccumulator \<Rightarrow> bool" where
  "summarizes p vs acc \<longleftrightarrow> unat (days_recorded acc) = length vs \<and> rain_sum acc = sum_list vs \<and>
     in_i128 (rain_sum acc) \<and> unat (current_run acc) = trailing_run p vs \<and>
     longest_run p vs (unat (max_run acc))"

lemma summarizes_empty: "summarizes p [] empty_accumulator"
  by (simp add: summarizes_def empty_accumulator_def longest_run_Nil)

lemma unat_checked_uadd_1: "checked_uadd a 1 = Some b \<Longrightarrow> unat b = Suc (unat a)" for a :: "'n::len word"
proof -
  assume "checked_uadd a 1 = Some b"
  from uint_checked_uadd [OF this] have "int (unat b) = int (unat a) + 1" by simp
  then show ?thesis by linarith
qed

text \<open>The part of the update that counts dry days.\<close>

definition fold_run ::
    "IndexParams \<Rightarrow> WindowAccumulator \<Rightarrow> i128 \<Rightarrow> (TriggerError, WindowAccumulator) result" where
  "fold_run p acc v =
     (if v \<le> dry_floor p
      then bind_ok (or_trap (checked_uadd (current_run acc) 1)) (\<lambda>run.
           Inr (if run > max_run acc
                then acc\<lparr>rain_sum := rain_sum acc + v, current_run := run, max_run := run\<rparr>
                else acc\<lparr>rain_sum := rain_sum acc + v, current_run := run\<rparr>))
      else Inr (acc\<lparr>rain_sum := rain_sum acc + v, current_run := 0\<rparr>))"

lemma fold_value_Inr:
  "fold_value p acc v = Inr acc' \<longleftrightarrow> in_i128 (rain_sum acc + v) \<and>
     (\<exists>acc1 days. fold_run p acc v = Inr acc1 \<and>
        checked_uadd (days_recorded acc1) 1 = Some days \<and> acc' = acc1\<lparr>days_recorded := days\<rparr>)"
  by (simp add: fold_value_def fold_run_def Let_def bind_ok_Inr ok_or_Inr or_trap_Inr checked_add_Some
      eq_commute [of "_\<lparr>days_recorded := _\<rparr>"] cong: if_cong)

lemma fold_value_summarizes:
  assumes "summarizes p vs acc" and "fold_value p acc v = Inr acc'"
  shows "summarizes p (vs @ [v]) acc'"
proof -
  from assms(1) have s: "unat (days_recorded acc) = length vs" "rain_sum acc = sum_list vs"
      "unat (current_run acc) = trailing_run p vs" "longest_run p vs (unat (max_run acc))"
    by (simp_all add: summarizes_def)
  from assms(2) obtain acc1 days where sum: "in_i128 (rain_sum acc + v)"
      and run: "fold_run p acc v = Inr acc1"
      and days: "checked_uadd (days_recorded acc1) 1 = Some days" "acc' = acc1\<lparr>days_recorded := days\<rparr>"
    unfolding fold_value_Inr by blast
  have same: "days_recorded acc1 = days_recorded acc" "rain_sum acc1 = rain_sum acc + v"
    using run by (auto simp: fold_run_def bind_ok_Inr split: if_splits)
  note long = longest_run_snoc [OF s(4), of v]
  have "unat (current_run acc1) = trailing_run p (vs @ [v]) \<and>
      longest_run p (vs @ [v]) (unat (max_run acc1))"
  proof (cases "is_dry p v")
    case False
    then show ?thesis using run long by (auto simp: fold_run_def is_dry_def)
  next
    case True
    then obtain r where r: "checked_uadd (current_run acc) 1 = Some r"
        "acc1 = (if r > max_run acc
           then acc\<lparr>rain_sum := rain_sum acc + v, current_run := r, max_run := r\<rparr>
           else acc\<lparr>rain_sum := rain_sum acc + v, current_run := r\<rparr>)"
      using run by (auto simp: fold_run_def is_dry_def bind_ok_Inr or_trap_Inr)
    have u: "unat r = Suc (trailing_run p vs)" using unat_checked_uadd_1 [OF r(1)] s(3) by simp
    have "unat (max_run acc1) = max (unat (max_run acc)) (unat r)"
      using r(2) by (auto simp: word_less_nat_alt max_def)
    with long True u show ?thesis using r(2) by simp
  qed
  then show ?thesis
    using sum s unat_checked_uadd_1 [OF days(1)] same by (simp add: summarizes_def days(2))
qed

text \<open>A value that keeps the sum in range is folded, as long as the day counter has room.\<close>

lemma fold_value_total:
  assumes "summarizes p vs acc" and "in_i128 (sum_list vs + v)" and "days_recorded acc < n"
  shows "\<exists>acc'. fold_value p acc v = Inr acc'"
proof -
  from assms(1) have s: "unat (days_recorded acc) = length vs" "rain_sum acc = sum_list vs"
      "unat (current_run acc) = trailing_run p vs"
    by (simp_all add: summarizes_def)
  have "unat (current_run acc) \<le> unat (days_recorded acc)" using s trailing_run_le [of p vs] by simp
  then have "current_run acc < n" using assms(3) by (simp add: word_less_nat_alt)
  then have run: "checked_uadd (current_run acc) 1 = Some (current_run acc + 1)"
    by (rule checked_uadd_1_room)
  have days: "checked_uadd (days_recorded acc) 1 = Some (days_recorded acc + 1)"
    using assms(3) by (rule checked_uadd_1_room)
  obtain acc1 where acc1: "fold_run p acc v = Inr acc1" "days_recorded acc1 = days_recorded acc"
    by (cases "v \<le> dry_floor p") (simp_all add: fold_run_def run)
  then show ?thesis using assms(2) s(2) days by (auto simp: fold_value_Inr)
qed

section \<open>The series of a window in the store\<close>

text \<open>
  The dated values \<open>ds\<close> the window \<open>(idx, win)\<close> has been fed: strictly increasing days, at most the
  length of the window, the cursor at the last one, and the accumulator summarizing the values.
\<close>

definition window_series :: "TriggerStore \<Rightarrow> u64 \<Rightarrow> u64 \<Rightarrow> (u64 \<times> i128) list \<Rightarrow> bool" where
  "window_series s idx win ds \<longleftrightarrow>
     sorted_wrt (<) (map fst ds) \<and> (\<forall>v\<in>set (map snd ds). 0 \<le> v) \<and>
     EvalCursor s (idx, win) = (if ds = [] then None else Some (fst (last ds))) \<and>
     (case IndexDef s idx of
        None \<Rightarrow> ds = [] \<and> Accumulator s (idx, win) = None \<and> TriggerState s (idx, win) = None
      | Some def \<Rightarrow> length ds \<le> unat (window_len (index_params def)) \<and>
          summarizes (index_params def) (map snd ds) (read_accumulator s idx win))"

lemma te_publish_fields [store_simps]:
  "TeAdmin (te_publish e s) = TeAdmin s" "IndexCount (te_publish e s) = IndexCount s"
  "OracleRef (te_publish e s) = OracleRef s" "IndexDef (te_publish e s) = IndexDef s"
  "Accumulator (te_publish e s) = Accumulator s" "TriggerState (te_publish e s) = TriggerState s"
  "EvalCursor (te_publish e s) = EvalCursor s"
  by (simp_all add: te_publish_def)

lemma fold_day_ok:
  assumes "fold_day def idx win day v s = Inr s'"
  obtains acc' where "0 \<le> v" "\<forall>prev. EvalCursor s (idx, win) = Some prev \<longrightarrow> prev < day"
    "days_recorded (read_accumulator s idx win) < window_len (index_params def)"
    "fold_value (index_params def) (read_accumulator s idx win) v = Inr acc'"
    "s' = te_publish (DayRecorded idx win day)
       (s\<lparr>Accumulator := (Accumulator s)((idx, win) \<mapsto> acc'),
          EvalCursor := (EvalCursor s)((idx, win) \<mapsto> day)\<rparr>)"
  using assms
  by (auto simp: fold_day_def Let_def bind_ok_Inr read_cursor_def not_le intro!: that
      split: if_splits option.splits)

lemma sorted_wrt_less_last:
  "sorted_wrt (<) (map fst ds) \<Longrightarrow> (ds \<noteq> [] \<Longrightarrow> fst (last ds) < d) \<Longrightarrow>
   sorted_wrt (<) (map fst (ds @ [(d, v)]))" for d :: u64
proof (induction ds)
  case (Cons x xs)
  then show ?case by (cases "xs = []") (auto dest: bspec [of _ _ "last xs"])
qed simp

lemma fold_day_series:
  assumes ser: "window_series s idx win ds" and def: "IndexDef s idx = Some def"
    and f: "fold_day def idx win day v s = Inr s'"
  shows "window_series s' idx win (ds @ [(day, v)])"
proof -
  from f obtain acc' where h: "0 \<le> v" "\<forall>prev. EvalCursor s (idx, win) = Some prev \<longrightarrow> prev < day"
      "days_recorded (read_accumulator s idx win) < window_len (index_params def)"
      "fold_value (index_params def) (read_accumulator s idx win) v = Inr acc'"
      "s' = te_publish (DayRecorded idx win day)
       (s\<lparr>Accumulator := (Accumulator s)((idx, win) \<mapsto> acc'),
          EvalCursor := (EvalCursor s)((idx, win) \<mapsto> day)\<rparr>)"
    by (rule fold_day_ok)
  from ser def have w: "sorted_wrt (<) (map fst ds)" "\<forall>v\<in>set (map snd ds). 0 \<le> v"
      "EvalCursor s (idx, win) = (if ds = [] then None else Some (fst (last ds)))"
      "length ds \<le> unat (window_len (index_params def))"
      "summarizes (index_params def) (map snd ds) (read_accumulator s idx win)"
    by (simp_all add: window_series_def)
  have "sorted_wrt (<) (map fst (ds @ [(day, v)]))"
    using w(1,3) h(2) by (intro sorted_wrt_less_last) auto
  moreover have "length ds < unat (window_len (index_params def))"
    using h(3) w(5) by (simp add: summarizes_def word_less_nat_alt)
  moreover have "summarizes (index_params def) (map snd (ds @ [(day, v)])) acc'"
    using fold_value_summarizes [OF w(5) h(4)] by simp
  ultimately show ?thesis
    using w(2) h(1) def by (simp add: window_series_def h(5) store_simps read_accumulator_def)
qed

lemma window_series_same:
  assumes "window_series s idx win ds" and "IndexDef s' idx = IndexDef s idx"
    and "Accumulator s' (idx, win) = Accumulator s (idx, win)"
    and "EvalCursor s' (idx, win) = EvalCursor s (idx, win)"
    and "IndexDef s idx = None \<longrightarrow> TriggerState s' (idx, win) = None"
  shows "window_series s' idx win ds"
  using assms by (auto simp: window_series_def read_accumulator_def split: option.splits)

end
