(* ===== verification/Trigger_Run.thy ===== *)
theory Trigger_Run
  imports Trigger_Series
begin

text \<open>
  Runs of the trigger engine: the step relation carries the ledger clock. The invariant ties each
  window to the series of its daily values and each trigger state to the accumulator it was
  computed from; the forward relation says what never changes any more. The interface to the
  oracle is the locale \<open>median_source\<close>.
\<close>

section \<open>What success means\<close>

lemma create_index_ok:
  assumes "create_index env p s = Inr (idx, s')"
  obtains a nxt where "TeAdmin s = Some a" "require_auth env a" "validate_params p = Inr ()"
    "idx = unwrap_or (IndexCount s) 0" "checked_uadd idx 1 = Some nxt"
    "s' = te_publish (IndexCreated idx) (s\<lparr>IndexCount := Some nxt,
       IndexDef := (IndexDef s)(idx \<mapsto> \<lparr>index_id = idx, index_params = p\<rparr>)\<rparr>)"
  using assms
  by (auto simp: create_index_def te_require_admin_def Let_def bind_ok_Inr ok_or_Inr
      require_stored_Inr intro!: that)

lemma record_day_ok:
  assumes "record_day env idx win day v s = Inr s'"
  obtains a def where "TeAdmin s = Some a" "require_auth env a" "IndexDef s idx = Some def"
    "fold_day def idx win day v s = Inr s'"
  using assms
  by (auto simp: record_day_def te_require_admin_def read_def_def bind_ok_Inr ok_or_Inr
      require_stored_Inr intro!: that)

lemma record_day_from_oracle_ok:
  assumes "record_day_from_oracle med w env idx win day s = Inr (v, s')"
  obtains a def oref where "TeAdmin s = Some a" "require_auth env a" "IndexDef s idx = Some def"
    "OracleRef s = Some oref"
    "med w (call_env env oref) oref (ip_region (index_params def)) (ip_metric (index_params def))
       = Some v"
    "fold_day def idx win day v s = Inr s'"
  using assms
  by (auto simp: record_day_from_oracle_def te_require_admin_def read_def_def bind_ok_Inr ok_or_Inr
      or_trap_Inr require_stored_Inr intro!: that)

lemma set_oracle_ok:
  assumes "set_oracle env oref s = Inr s'"
  obtains a where "TeAdmin s = Some a" "require_auth env a"
    "s' = te_publish (OracleSet oref) (s\<lparr>OracleRef := Some oref\<rparr>)"
  using assms
  by (auto simp: set_oracle_def te_require_admin_def Let_def bind_ok_Inr require_stored_Inr intro!: that)

text \<open>The window is complete, and its accumulator breaches the index.\<close>

definition complete :: "TriggerStore \<Rightarrow> u64 \<Rightarrow> u64 \<Rightarrow> bool" where
  "complete s idx win \<longleftrightarrow> (\<exists>def. IndexDef s idx = Some def \<and>
     window_len (index_params def) \<le> days_recorded (read_accumulator s idx win))"

definition window_breached :: "TriggerStore \<Rightarrow> u64 \<Rightarrow> u64 \<Rightarrow> bool" where
  "window_breached s idx win \<longleftrightarrow> (\<exists>def sev. IndexDef s idx = Some def \<and>
     window_len (index_params def) \<le> days_recorded (read_accumulator s idx win) \<and>
     eval_index (index_params def) (read_accumulator s idx win) = Inr (True, sev))"

lemma evaluate_ok:
  assumes "evaluate env idx win s = Inr (st, s')"
  obtains (same) "s' = s" "st = read_state s idx win" "complete s idx win"
  | (fires) "read_state s idx win = Healthy" "window_breached s idx win"
      "st = Triggered (timestamp env)"
      "s' = te_publish (EvTriggered idx win (timestamp env))
         (s\<lparr>TriggerState := (TriggerState s)((idx, win) \<mapsto> Triggered (timestamp env))\<rparr>)"
  using assms
  by (auto simp: evaluate_def Let_def bind_ok_Inr read_def_def ok_or_Inr complete_def
      window_breached_def not_less split: if_splits TriggerStatus.splits)

lemma finalize_ok:
  assumes "finalize env idx win s = Inr (st, s')"
  obtains a at def sev where "TeAdmin s = Some a" "require_auth env a"
    "read_state s idx win = Triggered at" "uint at + 86400 \<le> uint (timestamp env)"
    "IndexDef s idx = Some def"
    "severity_of (index_params def) (read_accumulator s idx win) = Inr sev"
    "st = Finalized (timestamp env) sev"
    "s' = te_publish (EvFinalized idx win (timestamp env) sev)
       (s\<lparr>TriggerState := (TriggerState s)((idx, win) \<mapsto> Finalized (timestamp env) sev)\<rparr>)"
proof -
  from assms obtain a at ready def sev where h: "TeAdmin s = Some a" "require_auth env a"
    "read_state s idx win = Triggered at" "checked_uadd at CHALLENGE_WINDOW_SECS = Some ready"
    "ready \<le> timestamp env" "IndexDef s idx = Some def"
    "severity_of (index_params def) (read_accumulator s idx win) = Inr sev"
    "st = Finalized (timestamp env) sev"
    "s' = te_publish (EvFinalized idx win (timestamp env) sev)
       (s\<lparr>TriggerState := (TriggerState s)((idx, win) \<mapsto> Finalized (timestamp env) sev)\<rparr>)"
    by (auto simp: finalize_def te_require_admin_def Let_def bind_ok_Inr ok_or_Inr read_def_def
        require_stored_Inr not_less split: if_splits TriggerStatus.splits)
  have "uint at + 86400 \<le> uint (timestamp env)"
    using uint_checked_uadd [OF h(4)] h(5) by (simp add: CHALLENGE_WINDOW_SECS_def word_le_def)
  with h show ?thesis by (intro that) simp_all
qed

section \<open>Steps\<close>

inductive te_step ::
    "'w median_fn \<Rightarrow> TriggerStore \<times> u64 \<Rightarrow> TriggerStore \<times> u64 \<Rightarrow> bool"
  for med where
  te_create_index: "now \<le> timestamp env \<Longrightarrow> create_index env p s = Inr (idx, s') \<Longrightarrow>
     te_step med (s, now) (s', timestamp env)"
| te_record_day: "now \<le> timestamp env \<Longrightarrow> record_day env idx win day v s = Inr s' \<Longrightarrow>
     te_step med (s, now) (s', timestamp env)"
| te_record_oracle: "now \<le> timestamp env \<Longrightarrow>
     record_day_from_oracle med w env idx win day s = Inr (v, s') \<Longrightarrow>
     te_step med (s, now) (s', timestamp env)"
| te_set_oracle: "now \<le> timestamp env \<Longrightarrow> set_oracle env oref s = Inr s' \<Longrightarrow>
     te_step med (s, now) (s', timestamp env)"
| te_evaluate: "now \<le> timestamp env \<Longrightarrow> evaluate env idx win s = Inr (st, s') \<Longrightarrow>
     te_step med (s, now) (s', timestamp env)"
| te_finalize: "now \<le> timestamp env \<Longrightarrow> finalize env idx win s = Inr (st, s') \<Longrightarrow>
     te_step med (s, now) (s', timestamp env)"

inductive_cases te_stepE: "te_step med (s, now) (s', now')"

definition te_init :: "TriggerStore \<times> u64 \<Rightarrow> bool" where
  "te_init st \<longleftrightarrow> (\<exists>a. fst st = te_constructor a)"

definition te_reachable :: "'w median_fn \<Rightarrow> TriggerStore \<Rightarrow> u64 \<Rightarrow> bool" where
  "te_reachable med s now \<longleftrightarrow> (\<exists>a t0. (te_step med)\<^sup>*\<^sup>* (te_constructor a, t0) (s, now))"

lemma te_reachable_step:
  "te_reachable med s now \<Longrightarrow> te_step med (s, now) (s', now') \<Longrightarrow> te_reachable med s' now'"
  unfolding te_reachable_def by (blast intro: rtranclp.rtrancl_into_rtrancl)

section \<open>The invariant\<close>

definition defs_ok :: "TriggerStore \<Rightarrow> bool" where
  "defs_ok s \<longleftrightarrow> (\<forall>idx. unwrap_or (IndexCount s) 0 \<le> idx \<longrightarrow> IndexDef s idx = None) \<and>
     (\<forall>idx def. IndexDef s idx = Some def \<longrightarrow>
        index_id def = idx \<and> validate_params (index_params def) = Inr ())"

text \<open>A trigger state is the one its window's accumulator calls for.\<close>

definition state_ok :: "TriggerStore \<Rightarrow> u64 \<Rightarrow> u64 \<Rightarrow> u64 \<Rightarrow> bool" where
  "state_ok s now idx win \<longleftrightarrow> (case read_state s idx win of
     Healthy \<Rightarrow> True
   | Triggered at \<Rightarrow> at \<le> now \<and> window_breached s idx win
   | Finalized at sev \<Rightarrow> at \<le> now \<and> (\<exists>def. IndexDef s idx = Some def \<and>
       window_len (index_params def) \<le> days_recorded (read_accumulator s idx win) \<and>
       eval_index (index_params def) (read_accumulator s idx win) = Inr (True, sev)))"

definition te_inv :: "TriggerStore \<times> u64 \<Rightarrow> bool" where
  "te_inv st \<longleftrightarrow> (case st of (s, now) \<Rightarrow> defs_ok s \<and>
     (\<forall>idx win. state_ok s now idx win \<and> (\<exists>ds. window_series s idx win ds)))"

lemma te_invD:
  assumes "te_inv (s, now)"
  shows "defs_ok s" "state_ok s now idx win" "\<exists>ds. window_series s idx win ds"
  using assms by (simp_all add: te_inv_def)

lemma te_invI:
  assumes "defs_ok s" and "\<And>idx win. state_ok s now idx win \<and> (\<exists>ds. window_series s idx win ds)"
  shows "te_inv (s, now)"
  using assms by (auto simp: te_inv_def)

lemma window_breached_same:
  assumes "IndexDef s' idx = IndexDef s idx" and "Accumulator s' (idx, win) = Accumulator s (idx, win)"
  shows "window_breached s' idx win = window_breached s idx win"
  using assms by (simp add: window_breached_def read_accumulator_def)

lemma state_ok_same:
  assumes "state_ok s now idx win" and "now \<le> now'" and "IndexDef s' idx = IndexDef s idx"
    and "Accumulator s' (idx, win) = Accumulator s (idx, win)"
    and "TriggerState s' (idx, win) = TriggerState s (idx, win)"
  shows "state_ok s' now' idx win"
  using assms window_breached_same [of s' idx s win]
  by (auto simp: state_ok_def read_state_def read_accumulator_def split: TriggerStatus.splits)

text \<open>While a window is incomplete its state is Healthy.\<close>

lemma incomplete_healthy:
  assumes "state_ok s now idx win" and "\<not> complete s idx win"
  shows "read_state s idx win = Healthy"
  using assms by (auto simp: state_ok_def complete_def window_breached_def split: TriggerStatus.splits)

lemma create_index_inv:
  assumes c: "create_index env p s = Inr (idx, s')" and inv: "te_inv (s, now)" and t: "now \<le> now'"
  shows "te_inv (s', now')" and "IndexDef s idx = None"
proof -
  note I = te_invD [OF inv]
  from c obtain nxt where h: "validate_params p = Inr ()" "idx = unwrap_or (IndexCount s) 0"
      "checked_uadd idx 1 = Some nxt"
      "s' = te_publish (IndexCreated idx) (s\<lparr>IndexCount := Some nxt,
       IndexDef := (IndexDef s)(idx \<mapsto> \<lparr>index_id = idx, index_params = p\<rparr>)\<rparr>)"
    by (rule create_index_ok)
  show none: "IndexDef s idx = None" using I(1) h(2) by (simp add: defs_ok_def)
  have "idx < nxt" by (rule checked_uadd_1_gt [OF h(3)])
  then have "defs_ok s'"
    using I(1) h(1) unfolding defs_ok_def
    by (auto simp: h(4) store_simps h(2) split: if_splits dest: order.strict_trans1)
  moreover have "state_ok s' now' i w \<and> (\<exists>ds. window_series s' i w ds)" for i w
  proof (cases "i = idx")
    case False
    from I(3) [of i w] obtain ds where ds: "window_series s i w ds" ..
    have "state_ok s' now' i w"
      using False by (intro state_ok_same [OF I(2) t]) (simp_all add: h(4) store_simps)
    moreover have "window_series s' i w ds"
      using False ds by (intro window_series_same [OF ds]) (auto simp: h(4) store_simps window_series_def)
    ultimately show ?thesis by blast
  next
    case True
    from I(3) [of i w] none True have e: "EvalCursor s (i, w) = None" "Accumulator s (i, w) = None"
        "TriggerState s (i, w) = None"
      by (auto simp: window_series_def)
    then have "window_series s' i w []"
      using True by (simp add: window_series_def h(4) store_simps read_accumulator_def summarizes_empty)
    moreover have "state_ok s' now' i w"
      using e by (simp add: state_ok_def read_state_def h(4) store_simps)
    ultimately show ?thesis by blast
  qed
  ultimately show "te_inv (s', now')" by (rule te_invI)
qed

lemma fold_day_inv:
  assumes f: "fold_day def idx win day v s = Inr s'" and def: "IndexDef s idx = Some def"
    and inv: "te_inv (s, now)" and t: "now \<le> now'"
  shows "te_inv (s', now')"
proof -
  note I = te_invD [OF inv]
  from f obtain acc' where h: "days_recorded (read_accumulator s idx win) < window_len (index_params def)"
      "s' = te_publish (DayRecorded idx win day)
       (s\<lparr>Accumulator := (Accumulator s)((idx, win) \<mapsto> acc'),
          EvalCursor := (EvalCursor s)((idx, win) \<mapsto> day)\<rparr>)"
    by (rule fold_day_ok)
  have "defs_ok s'" using I(1) by (simp add: defs_ok_def h(2) store_simps)
  moreover have "state_ok s' now' i w \<and> (\<exists>ds. window_series s' i w ds)" for i w
  proof (cases "(i, w) = (idx, win)")
    case False
    from I(3) [of i w] obtain ds where ds: "window_series s i w ds" ..
    have "state_ok s' now' i w"
      using False by (intro state_ok_same [OF I(2) t]) (auto simp: h(2) store_simps)
    moreover have "window_series s' i w ds"
      using False ds by (intro window_series_same [OF ds]) (auto simp: h(2) store_simps window_series_def)
    ultimately show ?thesis by blast
  next
    case True
    have "\<not> complete s idx win" using h(1) def by (simp add: complete_def)
    then have "read_state s idx win = Healthy" by (rule incomplete_healthy [OF I(2)])
    then have "state_ok s' now' i w"
      using True by (simp add: state_ok_def read_state_def h(2) store_simps)
    moreover from I(3) [of idx win] obtain ds where "window_series s idx win ds" ..
    then have "window_series s' idx win (ds @ [(day, v)])" using def f by (rule fold_day_series)
    ultimately show ?thesis using True by blast
  qed
  ultimately show ?thesis by (rule te_invI)
qed

lemma trigger_write_inv:
  assumes inv: "te_inv (s, now)" and t: "now \<le> now'" and def: "IndexDef s idx \<noteq> None"
    and s': "s' = te_publish e (s\<lparr>TriggerState := (TriggerState s)((idx, win) \<mapsto> x)\<rparr>)"
    and ok: "state_ok s' now' idx win"
  shows "te_inv (s', now')"
proof -
  note I = te_invD [OF inv]
  have "defs_ok s'" using I(1) by (simp add: defs_ok_def s' store_simps)
  moreover have "state_ok s' now' i w" for i w
    using ok by (cases "(i, w) = (idx, win)")
      (auto intro!: state_ok_same [OF I(2) t] simp: s' store_simps)
  moreover have "\<exists>ds. window_series s' i w ds" for i w
  proof -
    from I(3) [of i w] obtain ds where ds: "window_series s i w ds" ..
    then have "window_series s' i w ds"
      using def by (intro window_series_same [OF ds]) (auto simp: s' store_simps window_series_def)
    then show ?thesis ..
  qed
  ultimately show ?thesis by (intro te_invI) blast+
qed

lemma te_inv_same:
  assumes inv: "te_inv (s, now)" and t: "now \<le> now'"
    and same: "IndexDef s' = IndexDef s" "IndexCount s' = IndexCount s" "Accumulator s' = Accumulator s"
      "TriggerState s' = TriggerState s" "EvalCursor s' = EvalCursor s"
  shows "te_inv (s', now')"
proof -
  note I = te_invD [OF inv]
  have "defs_ok s'" using I(1) by (simp add: defs_ok_def same)
  moreover have "state_ok s' now' i w" for i w
    by (intro state_ok_same [OF I(2) t]) (simp_all add: same)
  moreover have "\<exists>ds. window_series s' i w ds" for i w
  proof -
    from I(3) [of i w] obtain ds where ds: "window_series s i w ds" ..
    then have "window_series s' i w ds"
      by (intro window_series_same [OF ds]) (auto simp: same window_series_def)
    then show ?thesis ..
  qed
  ultimately show ?thesis by (intro te_invI) blast+
qed

lemma severity_of_Inr: "severity_of p acc = Inr sev \<longleftrightarrow> (\<exists>b. eval_index p acc = Inr (b, sev))"
  by (auto simp: severity_of_def bind_ok_Inr)

lemma evaluate_inv:
  assumes "evaluate env idx win s = Inr (x, s')"
    and inv: "te_inv (s, now)" and later: "now \<le> timestamp env"
  shows "te_inv (s', timestamp env)"
  using assms(1)
proof (cases rule: evaluate_ok)
  case same
  then show ?thesis using te_inv_same [OF inv, of "timestamp env" s'] later by simp
next
  case fires
  show ?thesis
    by (rule trigger_write_inv [OF inv _ _ fires(4)])
      (use fires later window_breached_same [of s' idx s win] in
        \<open>auto simp: state_ok_def read_state_def store_simps window_breached_def\<close>)
qed

lemma finalize_inv:
  assumes "finalize env idx win s = Inr (x, s')"
    and inv: "te_inv (s, now)" and later: "now \<le> timestamp env"
  shows "te_inv (s', timestamp env)"
  using assms(1)
proof (rule finalize_ok)
  fix a at def sev
  assume h: "read_state s idx win = Triggered at" "IndexDef s idx = Some def"
    "severity_of (index_params def) (read_accumulator s idx win) = Inr sev"
    "s' = te_publish (EvFinalized idx win (timestamp env) sev)
      (s\<lparr>TriggerState := (TriggerState s)((idx, win) \<mapsto> Finalized (timestamp env) sev)\<rparr>)"
  have "window_breached s idx win"
    using te_invD(2) [OF inv, of idx win] h(1) by (simp add: state_ok_def)
  with h(2,3) have "window_len (index_params def) \<le> days_recorded (read_accumulator s idx win)"
    "eval_index (index_params def) (read_accumulator s idx win) = Inr (True, sev)"
    by (auto simp: window_breached_def severity_of_Inr)
  then show ?thesis
    by (intro trigger_write_inv [OF inv _ _ h(4)])
      (use h(2) later in
        \<open>auto simp: state_ok_def h(4) read_state_def read_accumulator_def store_simps\<close>)
qed

lemma te_step_inv:
  assumes "te_step med st st'" and "te_inv st"
  shows "te_inv st'"
proof -
  obtain s now s' now' where st: "st = (s, now)" "st' = (s', now')" by (cases st; cases st')
  have inv: "te_inv (s, now)" using assms(2) by (simp add: st)
  from assms(1) have "te_step med (s, now) (s', now')" by (simp add: st)
  then have "te_inv (s', now')"
  proof cases
    case (te_create_index env p idx)
    then show ?thesis using create_index_inv(1) [OF _ inv] by blast
  next
    case (te_record_day env idx win day v)
    from te_record_day(3) show ?thesis
      by (rule record_day_ok) (use te_record_day(1,2) in \<open>blast intro: fold_day_inv [OF _ _ inv]\<close>)
  next
    case (te_record_oracle env w idx win day v)
    from te_record_oracle(3) show ?thesis
      by (rule record_day_from_oracle_ok)
        (use te_record_oracle(1,2) in \<open>blast intro: fold_day_inv [OF _ _ inv]\<close>)
  next
    case (te_set_oracle env oref)
    then have s': "s' = te_publish (OracleSet oref) (s\<lparr>OracleRef := Some oref\<rparr>)"
      by (elim set_oracle_ok)
    show ?thesis
      by (rule te_inv_same [OF inv]) (use te_set_oracle(1,2) in \<open>simp_all add: s' store_simps\<close>)
  next
    case te_evaluate
    then show ?thesis using evaluate_inv [OF _ inv] by blast
  next
    case te_finalize
    then show ?thesis using finalize_inv [OF _ inv] by blast
  qed
  then show ?thesis by (simp add: st)
qed

interpretation te: state_machine te_init "te_step med" te_inv for med
proof
  fix st :: "TriggerStore \<times> u64"
  assume "te_init st"
  then show "te_inv st"
    by (cases st) (auto simp: te_init_def te_inv_def defs_ok_def state_ok_def read_state_def
        window_series_def te_constructor_def te_empty_def intro!: exI [of _ "[]"])
qed (rule te_step_inv)

lemma te_reachable_inv: "te_reachable med s now \<Longrightarrow> te_inv (s, now)"
  using te.reachable_inv [of _ med "(s, now)"]
  by (fastforce simp: te_reachable_def te_init_def)

end
