(* ===== verification/Trigger_Forward.thy ===== *)
theory Trigger_Forward
  imports Trigger_Run
begin

text \<open>
  What never changes any more along a run of the trigger engine: definitions, the accumulators of
  complete windows, and finalized states. And the interface to the oracle: the locale
  \<open>median_source\<close> states what ingestion relies on, and its lemmas reduce the ingestion of a
  median to the ingestion of a value.
\<close>

section \<open>The lifecycle of a window\<close>

text \<open>
  How a window's status may advance from time \<open>now\<close>: a healthy window triggers no earlier than
  now and finalizes no earlier than a challenge period later; a triggered one keeps its time until
  it finalizes, a challenge period after it; a finalized one stays as it is.
\<close>

definition status_advances :: "u64 \<Rightarrow> TriggerStatus \<Rightarrow> TriggerStatus \<Rightarrow> bool" where
  "status_advances now x y \<longleftrightarrow> (case x of
     Healthy \<Rightarrow> (case y of Healthy \<Rightarrow> True | Triggered at \<Rightarrow> now \<le> at
                 | Finalized at _ \<Rightarrow> uint now + 86400 \<le> uint at)
   | Triggered at \<Rightarrow> (case y of Healthy \<Rightarrow> False | Triggered at' \<Rightarrow> at' = at
                 | Finalized at' _ \<Rightarrow> uint at + 86400 \<le> uint at')
   | Finalized _ _ \<Rightarrow> y = x)"

definition te_forward :: "TriggerStore \<times> u64 \<Rightarrow> TriggerStore \<times> u64 \<Rightarrow> bool" where
  "te_forward st st' \<longleftrightarrow> snd st \<le> snd st' \<and>
     (\<forall>idx def. IndexDef (fst st) idx = Some def \<longrightarrow> IndexDef (fst st') idx = Some def) \<and>
     (\<forall>idx win. complete (fst st) idx win \<longrightarrow>
        read_accumulator (fst st') idx win = read_accumulator (fst st) idx win) \<and>
     (\<forall>idx win. status_advances (snd st) (read_state (fst st) idx win) (read_state (fst st') idx win))"

lemma status_advances_refl: "status_advances now x x"
  by (simp add: status_advances_def split: TriggerStatus.split)

lemma status_advances_trans:
  assumes "status_advances now x y" and "status_advances now' y z" and "now \<le> now'"
  shows "status_advances now x z"
  using assms by (auto simp: status_advances_def word_le_def split: TriggerStatus.splits)

lemma te_forward_refl: "te_forward st st"
  by (simp add: te_forward_def status_advances_refl)

lemma complete_forward:
  assumes "te_forward st st'" and "complete (fst st) idx win"
  shows "complete (fst st') idx win"
  using assms by (auto simp: te_forward_def complete_def)

lemma te_forward_trans:
  assumes a: "te_forward x y" and b: "te_forward y z"
  shows "te_forward x z"
proof -
  from a have A: "snd x \<le> snd y" "\<And>i d. IndexDef (fst x) i = Some d \<Longrightarrow> IndexDef (fst y) i = Some d"
      "\<And>i w. complete (fst x) i w \<Longrightarrow> read_accumulator (fst y) i w = read_accumulator (fst x) i w"
      "\<And>i w. status_advances (snd x) (read_state (fst x) i w) (read_state (fst y) i w)"
    by (simp_all add: te_forward_def)
  from b have B: "snd y \<le> snd z" "\<And>i d. IndexDef (fst y) i = Some d \<Longrightarrow> IndexDef (fst z) i = Some d"
      "\<And>i w. complete (fst y) i w \<Longrightarrow> read_accumulator (fst z) i w = read_accumulator (fst y) i w"
      "\<And>i w. status_advances (snd y) (read_state (fst y) i w) (read_state (fst z) i w)"
    by (simp_all add: te_forward_def)
  have "status_advances (snd x) (read_state (fst x) i w) (read_state (fst z) i w)" for i w
    by (rule status_advances_trans [OF A(4) B(4) A(1)])
  moreover have "read_accumulator (fst z) i w = read_accumulator (fst x) i w"
    if "complete (fst x) i w" for i w
    using A(3) [OF that] B(3) [OF complete_forward [OF a that]] by simp
  moreover have "snd x \<le> snd z" using A(1) B(1) by (rule order_trans)
  moreover have "IndexDef (fst z) i = Some d" if "IndexDef (fst x) i = Some d" for i d
    by (rule B(2) [OF A(2) [OF that]])
  ultimately show ?thesis unfolding te_forward_def by blast
qed

lemma te_forward_quiet:
  assumes "now \<le> now'" and "\<And>idx def. IndexDef s idx = Some def \<Longrightarrow> IndexDef s' idx = Some def"
    and "Accumulator s' = Accumulator s" and "TriggerState s' = TriggerState s"
  shows "te_forward (s, now) (s', now')"
  using assms by (simp add: te_forward_def read_accumulator_def read_state_def status_advances_refl)

lemma te_forward_state:
  assumes "now \<le> now'" and "s' = te_publish e (s\<lparr>TriggerState := (TriggerState s)((idx, win) \<mapsto> x)\<rparr>)"
    and "status_advances now (read_state s idx win) x"
  shows "te_forward (s, now) (s', now')"
  using assms by (simp add: te_forward_def read_accumulator_def read_state_def store_simps
      status_advances_refl)

lemma te_forward_fold:
  assumes "fold_day def idx win day v s = Inr s'" and "IndexDef s idx = Some def" and "now \<le> now'"
  shows "te_forward (s, now) (s', now')"
proof -
  from assms(1) obtain acc' where h: "days_recorded (read_accumulator s idx win) < window_len (index_params def)"
      "s' = te_publish (DayRecorded idx win day)
       (s\<lparr>Accumulator := (Accumulator s)((idx, win) \<mapsto> acc'),
          EvalCursor := (EvalCursor s)((idx, win) \<mapsto> day)\<rparr>)"
    by (rule fold_day_ok)
  then have "\<not> complete s idx win" using assms(2) by (simp add: complete_def)
  then have "read_accumulator s' i w = read_accumulator s i w" if "complete s i w" for i w
    using that by (auto simp: h(2) read_accumulator_def store_simps)
  with assms(3) show ?thesis
    by (simp add: te_forward_def status_advances_refl) (simp add: h(2) read_state_def store_simps
        status_advances_refl)
qed

lemma te_step_forward:
  assumes "te_step med (s, now) (s', now')" and inv: "te_inv (s, now)"
  shows "te_forward (s, now) (s', now')"
  using assms(1)
proof cases
  case (te_create_index env p idx)
  then show ?thesis
    using create_index_inv(2) [OF te_create_index(3) inv te_create_index(2)]
    by (intro te_forward_quiet) (auto elim!: create_index_ok simp: store_simps)
next
  case (te_record_day env idx win day v)
  then show ?thesis by (auto elim!: record_day_ok intro: te_forward_fold)
next
  case (te_record_oracle env w idx win day v)
  then show ?thesis by (auto elim!: record_day_from_oracle_ok intro: te_forward_fold)
next
  case (te_set_oracle env oref)
  then show ?thesis by (intro te_forward_quiet) (auto elim!: set_oracle_ok simp: store_simps)
next
  case (te_evaluate env idx win x)
  from te_evaluate(3) show ?thesis
  proof (cases rule: evaluate_ok)
    case same
    then show ?thesis using te_evaluate(1,2) by (intro te_forward_quiet) simp_all
  next
    case fires
    then show ?thesis
      using te_evaluate(1,2) by (intro te_forward_state [OF _ fires(4)]) (simp_all add: status_advances_def)
  qed
next
  case (te_finalize env idx win x)
  from te_finalize(3) show ?thesis
  proof (rule finalize_ok)
    fix a at def sev
    assume h: "read_state s idx win = Triggered at" "uint at + 86400 \<le> uint (timestamp env)"
      "s' = te_publish (EvFinalized idx win (timestamp env) sev)
        (s\<lparr>TriggerState := (TriggerState s)((idx, win) \<mapsto> Finalized (timestamp env) sev)\<rparr>)"
    then show ?thesis
      using te_finalize(1,2) by (intro te_forward_state [OF _ h(3)]) (simp_all add: status_advances_def)
  qed
qed

lemma te_run_forward:
  assumes "te_reachable med s now" and "(te_step med)\<^sup>*\<^sup>* (s, now) (s', now')"
  shows "te_forward (s, now) (s', now')"
proof (rule te.run_relates [OF te_forward_refl te_forward_trans _ assms(2)])
  show "te_inv (s, now)" by (rule te_reachable_inv [OF assms(1)])
  fix x y assume "te_step med x y" and "te_inv x"
  then show "te_forward x y" by (cases x; cases y) (auto intro: te_step_forward)
qed

section \<open>The oracle interface\<close>

text \<open>
  What ingestion relies on of the median it reads: in a state \<open>w\<close> the source reaches by time
  \<open>now\<close>, a median read at or after that time is a non-negative value in range.
\<close>

locale median_source =
  fixes med :: "'w median_fn" and ok :: "'w \<Rightarrow> u64 \<Rightarrow> bool"
  assumes med_range: "ok w now \<Longrightarrow> now \<le> timestamp env \<Longrightarrow> med w env a r m = Some v \<Longrightarrow>
    0 \<le> v \<and> in_i128 v"
begin

lemma ingestion_is_record_day:
  assumes "ok w now" and "now \<le> timestamp env"
    and "record_day_from_oracle med w env idx win day s = Inr (v, s')"
  shows "record_day env idx win day v s = Inr s'" and "0 \<le> v" and "in_i128 v"
proof -
  from assms(3) obtain a def oref where h: "TeAdmin s = Some a" "require_auth env a"
      "IndexDef s idx = Some def"
      "med w (call_env env oref) oref (ip_region (index_params def)) (ip_metric (index_params def)) = Some v"
      "fold_day def idx win day v s = Inr s'"
    by (rule record_day_from_oracle_ok)
  then show "record_day env idx win day v s = Inr s'"
    by (simp add: record_day_def te_require_admin_def require_stored_def read_def_def)
  show "0 \<le> v" and "in_i128 v"
    using med_range [OF assms(1) _ h(4)] assms(2) by simp_all
qed

text \<open>A median that is available is folded: the source never makes ingestion fail by its value.\<close>

lemma ingestion_succeeds:
  assumes ok: "ok w now" "now \<le> timestamp env"
    and auth: "TeAdmin s = Some a" "require_auth env a" and def: "IndexDef s idx = Some def"
    and oref: "OracleRef s = Some oref"
    and med: "med w (call_env env oref) oref (ip_region (index_params def))
        (ip_metric (index_params def)) = Some v"
    and day: "\<forall>prev. EvalCursor s (idx, win) = Some prev \<longrightarrow> prev < day"
    and ser: "window_series s idx win ds" and room: "length ds < unat (window_len (index_params def))"
    and sum: "in_i128 (sum_list (map snd ds) + v)"
  shows "\<exists>s'. record_day_from_oracle med w env idx win day s = Inr (v, s')"
proof -
  have v: "0 \<le> v" using med_range [OF ok(1) _ med] ok(2) by simp
  from ser def have sm: "summarizes (index_params def) (map snd ds) (read_accumulator s idx win)"
    by (simp add: window_series_def)
  then have lt: "days_recorded (read_accumulator s idx win) < window_len (index_params def)"
    using room by (simp add: summarizes_def word_less_nat_alt)
  obtain acc' where "fold_value (index_params def) (read_accumulator s idx win) v = Inr acc'"
    using fold_value_total [OF sm sum lt] by blast
  then show ?thesis
    using auth def oref med v day lt
    by (auto simp: record_day_from_oracle_def te_require_admin_def require_stored_def read_def_def
        fold_day_def read_cursor_def Let_def not_le split: option.split)
qed

end

end
