(* ===== verification/Trigger_Demo.thy ===== *)
theory Trigger_Demo
  imports Trigger_Forward Demo_Parties
begin

text \<open>
  One concrete run of the trigger engine, used to witness the theorems: a rainfall index over a
  window of two days, two recorded days that breach it, the evaluation and the finalization a day
  later. The parameters are those of the golden vectors of \<^verbatim>\<open>src/docs/INDEX-SPEC.md\<close>.
\<close>

definition te_env :: "u64 \<Rightarrow> Env" where
  "te_env now = \<lparr>timestamp = now, current_contract = demo_engine, invoker = None,
     signed = demo_signed\<rparr>"

definition rain_params :: "u32 \<Rightarrow> IndexParams" where
  "rain_params len = \<lparr>ip_kind = RainfallShortfall, ip_region = ''KE_NAK'', ip_metric = ''RAIN'',
     window_len = len, baseline = 800, trigger_ratio_bps = 7500, exhaustion_ratio_bps = 4000,
     trigger_days = 0, exhaustion_days = 0, dry_floor = 0, data_source_ref = 0\<rparr>"

definition dry_params :: "u32 \<Rightarrow> IndexParams" where
  "dry_params len = \<lparr>ip_kind = ConsecutiveDryDays, ip_region = ''KE_NAK'', ip_metric = ''RAIN'',
     window_len = len, baseline = 0, trigger_ratio_bps = 0, exhaustion_ratio_bps = 0,
     trigger_days = 21, exhaustion_days = 35, dry_floor = 1, data_source_ref = 0\<rparr>"

text \<open>No oracle is read in this run.\<close>

definition no_median :: "unit median_fn" where
  "no_median w env a r m = None"

definition te_demo0 :: TriggerStore where "te_demo0 = te_constructor demo_admin"

definition te_demo1 :: TriggerStore where
  "te_demo1 = te_publish (IndexCreated 0) (te_demo0\<lparr>IndexCount := Some 1,
     IndexDef := [0 \<mapsto> \<lparr>index_id = 0, index_params = rain_params 2\<rparr>]\<rparr>)"

definition te_demo2 :: TriggerStore where
  "te_demo2 = te_publish (DayRecorded 0 7 10) (te_demo1\<lparr>
     Accumulator := [(0, 7) \<mapsto> \<lparr>days_recorded = 1, rain_sum = 300, current_run = 0, max_run = 0\<rparr>],
     EvalCursor := [(0, 7) \<mapsto> 10]\<rparr>)"

definition te_demo3 :: TriggerStore where
  "te_demo3 = te_publish (DayRecorded 0 7 12) (te_demo2\<lparr>
     Accumulator := [(0, 7) \<mapsto> \<lparr>days_recorded = 2, rain_sum = 520, current_run = 0, max_run = 0\<rparr>],
     EvalCursor := [(0, 7) \<mapsto> 12]\<rparr>)"

definition te_demo4 :: TriggerStore where
  "te_demo4 = te_publish (EvTriggered 0 7 1000)
     (te_demo3\<lparr>TriggerState := [(0, 7) \<mapsto> Triggered 1000]\<rparr>)"

definition te_demo5 :: TriggerStore where
  "te_demo5 = te_publish (EvFinalized 0 7 87400 2857)
     (te_demo4\<lparr>TriggerState := [(0, 7) \<mapsto> Finalized 87400 2857]\<rparr>)"

lemma te_demo_fields:
  "TeAdmin te_demo0 = Some demo_admin" "TeAdmin te_demo1 = Some demo_admin"
  "TeAdmin te_demo2 = Some demo_admin" "TeAdmin te_demo3 = Some demo_admin"
  "TeAdmin te_demo4 = Some demo_admin"
  "IndexCount te_demo0 = None" "IndexDef te_demo0 = Map.empty"
  "IndexDef te_demo1 = [0 \<mapsto> \<lparr>index_id = 0, index_params = rain_params 2\<rparr>]"
  "IndexDef te_demo2 = IndexDef te_demo1" "IndexDef te_demo3 = IndexDef te_demo1"
  "IndexDef te_demo4 = IndexDef te_demo1" "IndexDef te_demo5 = IndexDef te_demo1"
  "Accumulator te_demo1 = Map.empty" "EvalCursor te_demo1 = Map.empty"
  "Accumulator te_demo2 = [(0, 7) \<mapsto> \<lparr>days_recorded = 1, rain_sum = 300, current_run = 0, max_run = 0\<rparr>]"
  "EvalCursor te_demo2 = [(0, 7) \<mapsto> 10]"
  "Accumulator te_demo3 = [(0, 7) \<mapsto> \<lparr>days_recorded = 2, rain_sum = 520, current_run = 0, max_run = 0\<rparr>]"
  "Accumulator te_demo4 = Accumulator te_demo3" "Accumulator te_demo5 = Accumulator te_demo3"
  "TriggerState te_demo2 = Map.empty" "TriggerState te_demo3 = Map.empty"
  "TriggerState te_demo4 = [(0, 7) \<mapsto> Triggered 1000]"
  "TriggerState te_demo5 = [(0, 7) \<mapsto> Finalized 87400 2857]"
  by (simp_all add: te_demo0_def te_demo1_def te_demo2_def te_demo3_def te_demo4_def te_demo5_def
      te_constructor_def te_empty_def store_simps)

lemmas te_demo_defs = te_env_def demo_addresses demo_signed_def require_auth_def require_stored_def
  te_require_admin_def read_def_def Let_def

lemma rain_params_valid: "n \<noteq> 0 \<Longrightarrow> validate_params (rain_params n) = Inr ()"
  by (simp add: validate_params_ok rain_params_def)

lemma dry_params_valid: "21 \<le> n \<Longrightarrow> n \<noteq> 0 \<Longrightarrow> validate_params (dry_params n) = Inr ()"
  by (simp add: validate_params_ok dry_params_def)

lemma te_demo_create: "create_index (te_env 100) (rain_params 2) te_demo0 = Inr (0, te_demo1)"
  by (simp add: create_index_def te_demo_defs te_demo_fields rain_params_valid checked_uadd_def
      te_demo1_def)

lemma te_demo_record:
  "record_day (te_env 200) 0 7 10 300 te_demo1 = Inr te_demo2"
  "record_day (te_env 300) 0 7 12 220 te_demo2 = Inr te_demo3"
  by (simp_all add: record_day_def fold_day_def fold_value_def te_demo_defs te_demo_fields
      read_cursor_def read_accumulator_def empty_accumulator_def rain_params_def checked_arith
      checked_uadd_def)
    (simp_all add: te_demo2_def te_demo3_def word_le_def)

lemma te_demo_eval:
  "eval_index (rain_params 2) \<lparr>days_recorded = 2, rain_sum = 520, current_run = 0, max_run = 0\<rparr>
     = Inr (True, 2857)"
  by (simp add: eval_index_def eval_rainfall_def rain_params_def Let_def checked_arith
      BPS_DENOMINATOR_def as_u32_def signed_divide_int_def)

lemma te_demo_len: "window_len (rain_params n) = n"
  by (simp add: rain_params_def)

lemma te_demo_evaluate: "evaluate (te_env 1000) 0 7 te_demo3 = Inr (Triggered 1000, te_demo4)"
  by (simp add: evaluate_def te_demo_defs te_demo_fields read_accumulator_def read_state_def te_demo_eval
      te_demo_len)
    (simp add: te_demo4_def te_env_def)

lemma te_demo_finalize:
  "finalize (te_env 87400) 0 7 te_demo4 = Inr (Finalized 87400 2857, te_demo5)"
  by (simp add: finalize_def te_demo_defs te_demo_fields read_accumulator_def read_state_def te_demo_eval
      severity_of_def CHALLENGE_WINDOW_SECS_def checked_uadd_def)
    (simp add: te_demo5_def te_env_def)

lemma te_demo_reachable:
  "te_reachable no_median te_demo1 100" "te_reachable no_median te_demo2 200"
  "te_reachable no_median te_demo3 300" "te_reachable no_median te_demo4 1000"
  "te_reachable no_median te_demo5 87400"
proof -
  have t: "timestamp (te_env now) = now" for now by (simp add: te_env_def)
  have step: "te_reachable no_median s' now'"
    if "te_reachable no_median s now" "te_step no_median (s, now) (s', timestamp (te_env now'))"
    for s now s' now'
    using te_reachable_step that t by metis
  have 0: "te_reachable no_median te_demo0 50" by (auto simp: te_reachable_def te_demo0_def)
  show 1: "te_reachable no_median te_demo1 100"
    by (rule step [OF 0 te_create_index [OF _ te_demo_create]]) (simp add: t)
  show 2: "te_reachable no_median te_demo2 200"
    by (rule step [OF 1 te_record_day [OF _ te_demo_record(1)]]) (simp add: t)
  show 3: "te_reachable no_median te_demo3 300"
    by (rule step [OF 2 te_record_day [OF _ te_demo_record(2)]]) (simp add: t)
  show 4: "te_reachable no_median te_demo4 1000"
    by (rule step [OF 3 te_evaluate [OF _ te_demo_evaluate]]) (simp add: t)
  show "te_reachable no_median te_demo5 87400"
    by (rule step [OF 4 te_finalize [OF _ te_demo_finalize]]) (simp add: t)
qed

end
