(* ===== verification/Trigger_Log.thy ===== *)
theory Trigger_Log
  imports Trigger_Forward
begin

text \<open>
  Runs of the trigger engine together with the log of what they recorded: one entry for every
  successful recording, from the guardian or from the oracle, with its window, its day and the value
  that was folded. The accumulator of a window summarizes exactly the entries of that window.
\<close>

type_synonym day_log = "((u64 \<times> u64) \<times> u64 \<times> i128) list"

definition days_of :: "day_log \<Rightarrow> u64 \<Rightarrow> u64 \<Rightarrow> (u64 \<times> i128) list" where
  "days_of h idx win = map snd (filter (\<lambda>e. fst e = (idx, win)) h)"

inductive te_log :: "'w median_fn \<Rightarrow> day_log \<Rightarrow> TriggerStore \<Rightarrow> u64 \<Rightarrow> bool" for med where
  log_start: "te_log med [] (te_constructor a) now"
| log_record_day: "te_log med h s now \<Longrightarrow> now \<le> timestamp env \<Longrightarrow>
     record_day env idx win day v s = Inr s' \<Longrightarrow>
     te_log med (h @ [((idx, win), day, v)]) s' (timestamp env)"
| log_record_oracle: "te_log med h s now \<Longrightarrow> now \<le> timestamp env \<Longrightarrow>
     record_day_from_oracle med w env idx win day s = Inr (v, s') \<Longrightarrow>
     te_log med (h @ [((idx, win), day, v)]) s' (timestamp env)"
| log_create_index: "te_log med h s now \<Longrightarrow> now \<le> timestamp env \<Longrightarrow>
     create_index env p s = Inr (idx, s') \<Longrightarrow> te_log med h s' (timestamp env)"
| log_set_oracle: "te_log med h s now \<Longrightarrow> now \<le> timestamp env \<Longrightarrow>
     set_oracle env oref s = Inr s' \<Longrightarrow> te_log med h s' (timestamp env)"
| log_evaluate: "te_log med h s now \<Longrightarrow> now \<le> timestamp env \<Longrightarrow>
     evaluate env idx win s = Inr (st, s') \<Longrightarrow> te_log med h s' (timestamp env)"
| log_finalize: "te_log med h s now \<Longrightarrow> now \<le> timestamp env \<Longrightarrow>
     finalize env idx win s = Inr (st, s') \<Longrightarrow> te_log med h s' (timestamp env)"

lemma days_of_simps [simp]:
  "days_of [] idx win = []"
  "days_of (h @ [((i, w), day, v)]) idx win =
     days_of h idx win @ (if (i, w) = (idx, win) then [(day, v)] else [])"
  by (auto simp: days_of_def)

section \<open>Logged runs are runs\<close>

lemma te_log_reachable: "te_log med h s now \<Longrightarrow> te_reachable med s now"
proof (induction rule: te_log.induct)
  case (log_start a now)
  show ?case by (auto simp: te_reachable_def)
qed (blast intro: te_reachable_step te_step.intros)+

lemma te_step_log:
  assumes "te_step med (s, now) (s', now')" and "te_log med h s now"
  shows "\<exists>h'. te_log med h' s' now'"
  using assms by cases (blast intro: te_log.intros)+

text \<open>Every reachable state has a log.\<close>

lemma te_reachable_log: "te_reachable med s now \<longleftrightarrow> (\<exists>h. te_log med h s now)"
proof
  assume "te_reachable med s now"
  then obtain a t0 where "(te_step med)\<^sup>*\<^sup>* (te_constructor a, t0) (s, now)"
    by (auto simp: te_reachable_def)
  then show "\<exists>h. te_log med h s now"
  proof (induction "(s, now)" arbitrary: s now rule: rtranclp_induct)
    case base
    then show ?case by (blast intro: log_start)
  next
    case (step y)
    then show ?case by (cases y) (blast intro: te_step_log)
  qed
qed (auto dest: te_log_reachable)

section \<open>The accumulator summarizes the log\<close>

text \<open>Outside a recording every window keeps its series.\<close>

lemma create_index_series:
  assumes c: "create_index env p s = Inr (idx, s')" and none: "IndexDef s idx = None"
    and ser: "window_series s i w ds"
  shows "window_series s' i w ds"
proof -
  from c obtain nxt where s': "s' = te_publish (IndexCreated idx) (s\<lparr>IndexCount := Some nxt,
       IndexDef := (IndexDef s)(idx \<mapsto> \<lparr>index_id = idx, index_params = p\<rparr>)\<rparr>)"
    by (rule create_index_ok)
  show ?thesis
    using ser none
    by (cases "i = idx") (auto simp: window_series_def s' store_simps read_accumulator_def summarizes_empty
        split: option.splits)
qed

lemma trigger_write_series:
  assumes "window_series s i w ds" and "IndexDef s idx \<noteq> None"
    and "s' = te_publish e (s\<lparr>TriggerState := (TriggerState s)((idx, win) \<mapsto> x)\<rparr>)"
  shows "window_series s' i w ds"
  using assms(2) by (intro window_series_same [OF assms(1)])
    (use assms(1) in \<open>auto simp: assms(3) store_simps window_series_def\<close>)

lemma recorded_series:
  assumes f: "fold_day def idx win day v s = Inr s'" and "def": "IndexDef s idx = Some def"
    and ser: "\<And>i w. window_series s i w (days_of h i w)"
  shows "window_series s' i w (days_of (h @ [((idx, win), day, v)]) i w)"
proof (cases "(i, w) = (idx, win)")
  case True
  then show ?thesis using fold_day_series [OF ser "def" f] by simp
next
  case False
  from f obtain acc' where s': "s' = te_publish (DayRecorded idx win day)
       (s\<lparr>Accumulator := (Accumulator s)((idx, win) \<mapsto> acc'),
          EvalCursor := (EvalCursor s)((idx, win) \<mapsto> day)\<rparr>)"
    by (rule fold_day_ok)
  have "window_series s' i w (days_of h i w)"
    using False ser [of i w]
    by (intro window_series_same [OF ser]) (auto simp: s' store_simps window_series_def)
  with False show ?thesis by auto
qed

lemma te_log_series: "te_log med h s now \<Longrightarrow> window_series s idx win (days_of h idx win)"
proof (induction arbitrary: idx win rule: te_log.induct)
  case (log_start a now)
  show ?case by (simp add: window_series_def te_constructor_def te_empty_def)
next
  case (log_record_day h s now env i w day v s')
  from log_record_day(3) obtain "def" where "IndexDef s i = Some def" "fold_day def i w day v s = Inr s'"
    by (rule record_day_ok)
  from this(2,1) show ?case by (rule recorded_series) (rule log_record_day.IH)
next
  case (log_record_oracle h s now env wd i w day v s')
  from log_record_oracle(3) obtain "def" where "IndexDef s i = Some def" "fold_day def i w day v s = Inr s'"
    by (rule record_day_from_oracle_ok)
  from this(2,1) show ?case by (rule recorded_series) (rule log_record_oracle.IH)
next
  case (log_create_index h s now env p i s')
  have "te_inv (s, now)" by (rule te_reachable_inv [OF te_log_reachable [OF log_create_index(1)]])
  from create_index_inv(2) [OF log_create_index(3) this order_refl] show ?case
    by (rule create_index_series [OF log_create_index(3) _ log_create_index.IH])
next
  case (log_set_oracle h s now env oref s')
  from log_set_oracle(3) have s': "s' = te_publish (OracleSet oref) (s\<lparr>OracleRef := Some oref\<rparr>)"
    by (elim set_oracle_ok; simp)
  then show ?case
    using log_set_oracle.IH [of idx win] by (simp add: window_series_def store_simps read_accumulator_def
        split: option.splits)
next
  case (log_evaluate h s now env i w st s')
  from log_evaluate(3) show ?case
  proof (cases rule: evaluate_ok)
    case fires
    show ?thesis
      by (rule trigger_write_series [OF log_evaluate.IH _ fires(4)]) (use fires(2) in \<open>auto simp: window_breached_def\<close>)
  qed (simp add: log_evaluate.IH)
next
  case (log_finalize h s now env i w st s')
  then show ?case by (elim finalize_ok) (rule trigger_write_series [OF log_finalize.IH], simp_all)
qed

end
