(* ===== verification/Trigger_Earned.thy ===== *)
theory Trigger_Earned
  imports Trigger_Forward
begin

text \<open>
  What a finalized window says of the weather it recorded, and what it pays: in every reachable state
  a finalized window is complete and breached, its severity is the curve's, and a positive payout is
  the floor of that share of the coverage.
\<close>

lemma eval_rainfall_in_range: "eval_rainfall p acc = Inr r \<Longrightarrow> in_i128 (rain_sum acc * 10000)"
  by (auto simp: eval_rainfall_def Let_def bind_ok_Inr ok_or_Inr checked_mul_Some BPS_DENOMINATOR_def)

text \<open>Whenever the evaluation succeeds, it is the curve.\<close>

lemma eval_index_Inr:
  assumes "validate_params p = Inr ()" and "0 \<le> rain_sum acc" and "eval_index p acc = Inr (b, sev)"
  shows "b = breached p acc" and "uint sev = severity_ramp (index_span p) (index_depth p acc)"
    and "uint sev \<le> 10000"
proof -
  have "eval_index p acc = Inr (breached p acc, as_u32 (severity_ramp (index_span p) (index_depth p acc)))"
  proof (cases "ip_kind p")
    case RainfallShortfall
    then have "in_i128 (rain_sum acc * 10000)"
      using assms(3) eval_rainfall_in_range by (simp add: eval_index_def)
    then show ?thesis by (rule eval_index_ramp [OF assms(1,2)])
  next
    case ConsecutiveDryDays
    then show ?thesis
      using assms(1) by (simp add: validate_params_ok eval_index_def eval_dry_days_ramp breached_def
          index_depth_def index_span_def Let_def)
  qed
  then show "b = breached p acc" and "uint sev = severity_ramp (index_span p) (index_depth p acc)"
    and "uint sev \<le> 10000"
    using assms(3) severity_ramp_bounds [OF index_span_pos [OF assms(1)], of "index_depth p acc"]
    by (auto simp: order.strict_trans1 [of _ 10000])
qed

lemma finalized_window:
  assumes run: "te_reachable med s now" and st: "read_state s idx win = Finalized at sev"
  obtains def where "at \<le> now" "complete s idx win" "index_def s idx = Inr def"
    "breached (index_params def) (accumulator s idx win)"
    "uint sev = severity_ramp (index_span (index_params def))
       (index_depth (index_params def) (accumulator s idx win))" "uint sev \<le> 10000"
proof -
  note inv = te_reachable_inv [OF run]
  from st te_invD(2) [OF inv, of idx win] obtain def where h: "at \<le> now" "IndexDef s idx = Some def"
      "window_len (index_params def) \<le> days_recorded (read_accumulator s idx win)"
      "eval_index (index_params def) (read_accumulator s idx win) = Inr (True, sev)"
    by (auto simp: state_ok_def)
  have valid: "validate_params (index_params def) = Inr ()"
    using te_invD(1) [OF inv] h(2) by (simp add: defs_ok_def)
  obtain ds where "window_series s idx win ds" using te_invD(3) [OF inv] by blast
  then have nn: "0 \<le> rain_sum (read_accumulator s idx win)"
    using h(2) by (auto simp: window_series_def summarizes_def intro!: sum_list_nonneg)
  note E = eval_index_Inr [OF valid nn h(4)]
  have "complete s idx win" using h(2,3) by (auto simp: complete_def)
  moreover have "index_def s idx = Inr def" by (simp add: index_def_def read_def_def h(2))
  ultimately show ?thesis
    by (intro that [of def]) (use h(1) E in \<open>simp_all add: accumulator_def\<close>)
qed

lemma payout_of_finalized:
  assumes st: "read_state s idx win = Finalized at sev" and sev: "uint sev \<le> 10000"
    and pay: "payout_for idx win coverage s = Inr x" and nn: "0 \<le> coverage"
  shows "x = coverage * uint sev div 10000" and "0 \<le> x" and "x \<le> coverage"
proof -
  from pay obtain y where "apply_bps coverage sev = Some y" "x = min y coverage"
    using st by (auto simp: payout_for_def bind_ok_Inr ok_or_Inr)
  then show "x = coverage * uint sev div 10000" and "0 \<le> x" and "x \<le> coverage"
    using apply_bps_floor [OF _ nn] mul_div_10000_le [OF nn sev] by auto
qed

text \<open>Whatever the coverage asked for, a payout is at most that, so a positive payout is one for a
  positive coverage.\<close>

lemma payout_for_le: "payout_for idx win coverage s = Inr x \<Longrightarrow> x \<le> coverage"
  by (auto simp: payout_for_def bind_ok_Inr ok_or_Inr split: TriggerStatus.splits)

lemma payout_for_earned:
  assumes run: "te_reachable med s now" and pay: "payout_for idx win coverage s = Inr x" and pos: "0 < x"
  obtains at sev def where "read_state s idx win = Finalized at sev" "complete s idx win"
    "index_def s idx = Inr def" "breached (index_params def) (accumulator s idx win)"
    "uint sev = severity_ramp (index_span (index_params def))
       (index_depth (index_params def) (accumulator s idx win))"
    "x = coverage * uint sev div 10000" "x \<le> coverage"
proof -
  from pay obtain at sev where st: "read_state s idx win = Finalized at sev"
    by (auto simp: payout_for_def split: TriggerStatus.splits)
  have nn: "0 \<le> coverage" using payout_for_le [OF pay] pos by simp
  from finalized_window [OF run st] obtain def where h: "complete s idx win" "index_def s idx = Inr def"
      "breached (index_params def) (accumulator s idx win)"
      "uint sev = severity_ramp (index_span (index_params def))
         (index_depth (index_params def) (accumulator s idx win))" "uint sev \<le> 10000" .
  show ?thesis
    by (rule that [OF st h(1-4)]) (use payout_of_finalized [OF st h(5) pay nn] in simp_all)
qed

end
