(* ===== verification/Trigger_Outcome.thy ===== *)
theory Trigger_Outcome
  imports Trigger_Earned
begin

text \<open>
  The complete outcome of an evaluation and of a finalization in a reachable state, errors included:
  which of the tests in the code can fail there, and what is written when none does.
\<close>

text \<open>The rainfall formula multiplies the sum of the window by 10000, which can overflow; the formula for
  dry days computes with counters only.\<close>

definition computable :: "IndexParams \<Rightarrow> WindowAccumulator \<Rightarrow> bool" where
  "computable p acc \<longleftrightarrow> (case ip_kind p of
     RainfallShortfall \<Rightarrow> in_i128 (rain_sum acc * 10000) | ConsecutiveDryDays \<Rightarrow> True)"

definition curve_severity :: "IndexParams \<Rightarrow> WindowAccumulator \<Rightarrow> Bps" where
  "curve_severity p acc = as_u32 (severity_ramp (index_span p) (index_depth p acc))"

lemma eval_index_outcome:
  assumes valid: "validate_params p = Inr ()" and nn: "0 \<le> rain_sum acc"
  shows "eval_index p acc = (if computable p acc then Inr (breached p acc, curve_severity p acc)
     else Inl (Err TeOverflow))"
proof (cases "ip_kind p")
  case RainfallShortfall
  show ?thesis
  proof (cases "in_i128 (rain_sum acc * 10000)")
    case True
    then show ?thesis
      using eval_index_ramp [OF valid nn] RainfallShortfall by (simp add: computable_def curve_severity_def)
  next
    case False
    then show ?thesis
      using RainfallShortfall
      by (simp add: computable_def eval_index_def eval_rainfall_def Let_def BPS_DENOMINATOR_def
          checked_mul_def checked_def)
  qed
next
  case ConsecutiveDryDays
  then show ?thesis
    using valid by (simp add: computable_def validate_params_ok eval_index_def eval_dry_days_ramp breached_def
        index_depth_def index_span_def Let_def curve_severity_def)
qed

text \<open>What a defined index brings in a reachable state.\<close>

lemma reachable_index:
  assumes run: "te_reachable med s now" and "index_def s idx = Inr def"
  shows "IndexDef s idx = Some def" and "validate_params (index_params def) = Inr ()"
    and "0 \<le> rain_sum (read_accumulator s idx win)"
proof -
  note inv = te_reachable_inv [OF run]
  from assms(2) show d: "IndexDef s idx = Some def" by (simp add: index_def_def read_def_def ok_or_Inr)
  then show "validate_params (index_params def) = Inr ()"
    using te_invD(1) [OF inv] by (simp add: defs_ok_def)
  obtain ds where "window_series s idx win ds" using te_invD(3) [OF inv] by blast
  then show "0 \<le> rain_sum (read_accumulator s idx win)"
    using d by (auto simp: window_series_def summarizes_def intro!: sum_list_nonneg)
qed

text \<open>A triggered window was evaluated from the accumulator it still has.\<close>

lemma triggered_window:
  assumes run: "te_reachable med s now" and def: "index_def s idx = Inr def"
    and st: "read_state s idx win = Triggered at"
  shows "severity_of (index_params def) (read_accumulator s idx win)
    = Inr (curve_severity (index_params def) (read_accumulator s idx win))"
proof -
  have "window_breached s idx win"
    using te_invD(2) [OF te_reachable_inv [OF run], of idx win] st by (simp add: state_ok_def)
  then obtain sev where "eval_index (index_params def) (read_accumulator s idx win) = Inr (True, sev)"
    using reachable_index(1) [OF run def] by (auto simp: window_breached_def)
  then show ?thesis
    using eval_index_outcome [OF reachable_index(2,3) [OF run def], of win]
    by (auto simp: severity_of_def split: if_splits)
qed

text \<open>The end of a challenge period, in the range of the clock.\<close>

lemma challenge_end:
  "checked_uadd at CHALLENGE_WINDOW_SECS =
     (if 2 ^ 64 \<le> uint at + 86400 then None else Some (at + 86400))"
  "uint at + 86400 < 2 ^ 64 \<Longrightarrow> now < at + 86400 \<longleftrightarrow> uint now < uint at + 86400"
  for at now :: u64
  using uint_add_lem [of at 86400] by (auto simp: checked_uadd_def CHALLENGE_WINDOW_SECS_def word_less_def)

end
