(* ===== verification/Trigger_Props.thy ===== *)
theory Trigger_Props
  imports Trigger_Demo Trigger_Log Trigger_Outcome
begin

text \<open>
  The properties of the trigger engine, each with a witness on the concrete run of Trigger_Demo.
\<close>

section \<open>Severity\<close>

text \<open>C16. The severity curve (FR-TRG-2, INDEX-SPEC 4 to 6): with valid parameters and an accumulator
  whose scaled sum is in range, both index formulas compute, without error, the same ramp of how
  deep the window is past its threshold: no payout at the threshold, the whole coverage from the
  exhaustion depth on, linear and rounded down between. Rainfall triggers strictly below its
  threshold, a dry run at its own.\<close>

theorem evaluation_is_ramp:
  assumes "validate_params p = Inr ()" and "0 \<le> rain_sum acc" and "in_i128 (rain_sum acc * 10000)"
  shows "\<exists>sev. eval_index p acc = Inr (breached p acc, sev) \<and>
    uint sev = severity_ramp (index_span p) (index_depth p acc) \<and> uint sev \<le> 10000"
  using eval_index_ramp [OF assms] eval_index_Inr(2,3) [OF assms(1,2)] by auto

text \<open>The witness is the golden vectors G3, G6 and G7.\<close>

theorem evaluation_is_ramp_witness:
  "(\<exists>sev. eval_index (rain_params 90) \<lparr>days_recorded = 90, rain_sum = 520, current_run = 0, max_run = 0\<rparr>
     = Inr (True, sev) \<and> uint sev = 2857) \<and>
   (\<exists>sev. eval_index (dry_params 90) \<lparr>days_recorded = 90, rain_sum = 0, current_run = 0, max_run = 21\<rparr>
     = Inr (True, sev) \<and> uint sev = 0) \<and>
   (\<exists>sev. eval_index (dry_params 90) \<lparr>days_recorded = 90, rain_sum = 0, current_run = 0, max_run = 28\<rparr>
     = Inr (True, sev) \<and> uint sev = 5000)"
  using evaluation_is_ramp [OF rain_params_valid, of 90
      "\<lparr>days_recorded = 90, rain_sum = 520, current_run = 0, max_run = 0\<rparr>"]
    evaluation_is_ramp [OF dry_params_valid, of 90
      "\<lparr>days_recorded = 90, rain_sum = 0, current_run = 0, max_run = 21\<rparr>"]
    evaluation_is_ramp [OF dry_params_valid, of 90
      "\<lparr>days_recorded = 90, rain_sum = 0, current_run = 0, max_run = 28\<rparr>"]
  by (simp add: in_i128_def breached_def index_depth_def index_span_def severity_ramp_def
      rain_params_def dry_params_def) blast

text \<open>A worse index never pays less (INDEX-SPEC 6): for one index and one coverage, the payout
  grows with the depth of the breach, less rain or a longer dry run meaning deeper, and it never
  exceeds the coverage.\<close>

theorem worse_index_pays_no_less:
  assumes p: "validate_params p = Inr ()" and nn: "0 \<le> rain_sum acc" "0 \<le> rain_sum acc'" "0 \<le> coverage"
    and deeper: "ip_kind p = RainfallShortfall \<and> rain_sum acc' \<le> rain_sum acc \<or>
      ip_kind p = ConsecutiveDryDays \<and> max_run acc \<le> max_run acc'"
    and ev: "severity_of p acc = Inr sev" "severity_of p acc' = Inr sev'"
    and pay: "apply_bps coverage sev = Some x" "apply_bps coverage sev' = Some x'"
  shows "0 \<le> x \<and> x \<le> x' \<and> x' \<le> coverage"
proof -
  obtain b b' where e: "eval_index p acc = Inr (b, sev)" "eval_index p acc' = Inr (b', sev')"
    using ev by (auto simp: severity_of_Inr)
  note E = eval_index_Inr [OF p nn(1) e(1)] eval_index_Inr [OF p nn(2) e(2)]
  have "index_depth p acc \<le> index_depth p acc'"
    using deeper p
    by (auto simp: index_depth_def validate_params_ok word_le_def intro!: zdiv_mono1)
  then have "uint sev \<le> uint sev'"
    using E(2,5) severity_ramp_mono [OF index_span_pos [OF p]] by simp
  then have "coverage * uint sev div 10000 \<le> coverage * uint sev' div 10000"
    using nn(3) by (intro zdiv_mono1 mult_left_mono) simp_all
  moreover have "x' \<le> coverage"
    using apply_bps_floor(1) [OF pay(2) nn(3)] mul_div_10000_le [OF nn(3) E(6)] by simp
  ultimately show ?thesis
    using apply_bps_floor [OF pay(1) nn(3)] apply_bps_floor [OF pay(2) nn(3)] by simp
qed

theorem worse_index_pays_no_less_witness:
  "(28::i128) \<le> 100 \<and>
   severity_of (rain_params 2) \<lparr>days_recorded = 2, rain_sum = 520, current_run = 0, max_run = 0\<rparr> = Inr 2857"
proof -
  let ?a = "\<lparr>days_recorded = 2, rain_sum = 520, current_run = 0, max_run = 0\<rparr> :: WindowAccumulator"
  have "severity_of (rain_params 2) ?a = Inr 2857" by (simp add: severity_of_def te_demo_eval)
  moreover have "apply_bps 100 2857 = Some 28"
    by (simp add: apply_bps_def BPS_DENOMINATOR_def checked_arith signed_divide_int_def)
  ultimately show ?thesis
    using worse_index_pays_no_less [OF rain_params_valid, of 2 ?a ?a 100 2857 2857 28 28]
    by (simp add: rain_params_def)
qed

section \<open>Windows\<close>

text \<open>C15. The accumulator is the series: along every run of the engine with the log \<open>h\<close> of its recordings
  (one entry per successful recording, with its window, day and value; every reachable state has such a
  log), the accumulator of a window summarizes exactly the entries of that window, in their order. Their
  days are strictly increasing, their values not negative, and there are at most as many as the window
  is long; the accumulator's fields are their number, the sum of their values, the length of the dry run
  they end with, and the length of the longest run of dry days among them. Runs are counted over
  recorded days that follow each other in the log: a day that was not recorded does not interrupt one.\<close>

theorem accumulator_summarizes_series:
  assumes "te_log med h s now" and "index_def s idx = Inr def" and ds: "ds = days_of h idx win"
  shows "sorted_wrt (<) (map fst ds) \<and> (\<forall>v\<in>set (map snd ds). 0 \<le> v) \<and>
    length ds \<le> unat (window_len (index_params def)) \<and>
    unat (days_recorded (accumulator s idx win)) = length ds \<and>
    rain_sum (accumulator s idx win) = sum_list (map snd ds) \<and>
    unat (current_run (accumulator s idx win)) = trailing_run (index_params def) (map snd ds) \<and>
    longest_run (index_params def) (map snd ds) (unat (max_run (accumulator s idx win)))"
proof -
  from assms(2) have def: "IndexDef s idx = Some def"
    by (simp add: index_def_def read_def_def ok_or_Inr)
  show ?thesis
    using te_log_series [OF assms(1), of idx win] def
    by (simp add: ds window_series_def summarizes_def accumulator_def)
qed

lemma te_demo_log: "te_log no_median [((0, 7), 10, 300), ((0, 7), 12, 220)] te_demo3 300"
proof -
  have t: "timestamp (te_env now) = now" for now by (simp add: te_env_def)
  have 0: "te_log no_median [] te_demo0 50" unfolding te_demo0_def by (rule log_start)
  have 1: "te_log no_median [] te_demo1 100"
    using log_create_index [OF 0 _ te_demo_create] by (simp add: t)
  have 2: "te_log no_median [((0, 7), 10, 300)] te_demo2 200"
    using log_record_day [OF 1 _ te_demo_record(1)] by (simp add: t)
  show ?thesis using log_record_day [OF 2 _ te_demo_record(2)] by (simp add: t)
qed

theorem accumulator_summarizes_series_witness:
  "rain_sum (accumulator te_demo3 0 7) = 300 + 220 \<and> unat (days_recorded (accumulator te_demo3 0 7)) = 2 \<and>
   unat (current_run (accumulator te_demo3 0 7)) = 0"
proof -
  have "index_def te_demo3 0 = Inr \<lparr>index_id = 0, index_params = rain_params 2\<rparr>"
    by (simp add: index_def_def read_def_def te_demo_fields)
  from accumulator_summarizes_series [OF te_demo_log this refl, of 7] show ?thesis
    by (simp add: days_of_def trailing_run_def is_dry_def rain_params_def)
qed

text \<open>C26. The trigger state machine (FR-TRG-1, FR-TRG-4): along every run an index definition is never
  changed, the accumulator of a complete window is never written again, a healthy window is
  finalized no earlier than 24 hours from now, a triggered one keeps its trigger time and is
  finalized no earlier than 24 hours after it, and a finalized one never changes.\<close>

theorem windows_move_forward:
  assumes "te_reachable med s now" and "(te_step med)\<^sup>*\<^sup>* (s, now) (s', now')"
  shows "(\<forall>idx def. index_def s idx = Inr def \<longrightarrow> index_def s' idx = Inr def) \<and>
    (\<forall>idx win. complete s idx win \<longrightarrow> accumulator s' idx win = accumulator s idx win) \<and>
    (\<forall>idx win at sev. trigger_state s idx win = Finalized at sev \<longrightarrow>
       trigger_state s' idx win = Finalized at sev) \<and>
    (\<forall>idx win at sev. trigger_state s idx win = Healthy \<longrightarrow>
       trigger_state s' idx win = Finalized at sev \<longrightarrow> uint now + 86400 \<le> uint at) \<and>
    (\<forall>idx win at. trigger_state s idx win = Triggered at \<longrightarrow> trigger_state s' idx win = Triggered at \<or>
       (\<exists>at' sev. trigger_state s' idx win = Finalized at' sev \<and> uint at + 86400 \<le> uint at'))"
proof -
  have fw: "te_forward (s, now) (s', now')" by (rule te_run_forward [OF assms])
  then have st: "status_advances now (read_state s idx win) (read_state s' idx win)" for idx win
    by (simp add: te_forward_def)
  have "read_state s' idx win = Triggered at \<or>
      (\<exists>at' sev. read_state s' idx win = Finalized at' sev \<and> uint at + 86400 \<le> uint at')"
    if "read_state s idx win = Triggered at" for idx win at
    using st [of idx win] that by (simp add: status_advances_def split: TriggerStatus.splits)
  moreover have "uint now + 86400 \<le> uint at"
    if "read_state s idx win = Healthy" "read_state s' idx win = Finalized at sev" for idx win at sev
    using st [of idx win] that by (simp add: status_advances_def)
  moreover have "read_state s' idx win = Finalized at sev"
    if "read_state s idx win = Finalized at sev" for idx win at sev
    using st [of idx win] that by (simp add: status_advances_def)
  ultimately show ?thesis
    using fw by (simp add: te_forward_def trigger_state_def accumulator_def index_def_def read_def_def
        ok_or_Inr)
qed

theorem windows_move_forward_witness:
  "\<exists>at sev. trigger_state te_demo5 0 7 = Finalized at sev \<and> 1000 + 86400 \<le> uint at"
proof -
  have run: "(te_step no_median)\<^sup>*\<^sup>* (te_demo4, 1000) (te_demo5, 87400)"
    using te_finalize [OF _ te_demo_finalize, of 1000 no_median] by (simp add: te_env_def r_into_rtranclp)
  have "trigger_state te_demo4 0 7 = Triggered 1000" "trigger_state te_demo5 0 7 \<noteq> Triggered 1000"
    by (simp_all add: trigger_state_def read_state_def te_demo_fields)
  moreover have "\<forall>idx win at. trigger_state te_demo4 idx win = Triggered at \<longrightarrow>
      trigger_state te_demo5 idx win = Triggered at \<or>
      (\<exists>at' sev. trigger_state te_demo5 idx win = Finalized at' sev \<and> uint at + 86400 \<le> uint at')"
    using windows_move_forward [OF te_demo_reachable(4) run] by blast
  ultimately show ?thesis by fastforce
qed

text \<open>Finalizations are earned, and payouts are bounded (FR-TRG-5, the fail-safe of FR-TRG-2): in every
  reachable state a finalized window is complete, its accumulator breaches its index, and its
  severity is the curve's; a payout for a coverage is then the floor of that fraction of it, and
  never more than the coverage. A window that is not finalized pays nothing.\<close>

theorem finalized_is_earned:
  assumes run: "te_reachable med s now"
  shows "case trigger_state s idx win of
      Finalized at sev \<Rightarrow> complete s idx win \<and> at \<le> now \<and>
        (\<exists>def. index_def s idx = Inr def \<and> breached (index_params def) (accumulator s idx win) \<and>
           uint sev = severity_ramp (index_span (index_params def))
             (index_depth (index_params def) (accumulator s idx win))) \<and>
        (\<forall>coverage x. 0 \<le> coverage \<and> payout_for idx win coverage s = Inr x \<longrightarrow>
           x = coverage * uint sev div 10000 \<and> 0 \<le> x \<and> x \<le> coverage)
    | _ \<Rightarrow> (\<forall>coverage. payout_for idx win coverage s = Inl (Err NotTriggered))"
proof (cases "read_state s idx win")
  case (Finalized at sev)
  from finalized_window [OF run Finalized] obtain def where h: "at \<le> now" "complete s idx win"
      "index_def s idx = Inr def" "breached (index_params def) (accumulator s idx win)"
      "uint sev = severity_ramp (index_span (index_params def))
         (index_depth (index_params def) (accumulator s idx win))" "uint sev \<le> 10000" .
  have "x = coverage * uint sev div 10000 \<and> 0 \<le> x \<and> x \<le> coverage"
    if "0 \<le> coverage" "payout_for idx win coverage s = Inr x" for coverage x
    using payout_of_finalized [OF Finalized h(6) that(2,1)] by simp
  then show ?thesis
    unfolding trigger_state_def Finalized TriggerStatus.case using h(1-5) by blast
qed (simp_all add: trigger_state_def payout_for_def)

theorem finalized_is_earned_witness:
  "trigger_state te_demo5 0 7 = Finalized 87400 2857 \<and> complete te_demo5 0 7 \<and>
   payout_for 0 7 1000000000 te_demo5 = Inr 285700000 \<and>
   (285700000::i128) = 1000000000 * 2857 div 10000"
proof -
  have st: "trigger_state te_demo5 0 7 = Finalized 87400 2857"
    by (simp add: trigger_state_def read_state_def te_demo_fields)
  have pay: "payout_for 0 7 1000000000 te_demo5 = Inr 285700000"
    by (simp add: payout_for_def read_state_def te_demo_fields apply_bps_def BPS_DENOMINATOR_def
        checked_arith signed_divide_int_def)
  show ?thesis
    using finalized_is_earned [OF te_demo_reachable(5), of 0 7] st pay by simp
qed

section \<open>Outcomes\<close>

text \<open>C37. The outcome of an evaluation (FR-TRG-1, FR-TRG-2): in every reachable state the evaluation of a
  window of a defined index is one of the following. An incomplete window is refused with
  \<^verbatim>\<open>StaleIndex\<close>. A triggered or finalized window answers its status and nothing changes. For a healthy
  complete one, \<^verbatim>\<open>Overflow\<close> if the index is one of rainfall and ten thousand times the sum of the window
  leaves the range, the only way the formula can fail; otherwise, if the window breaches the index, it
  is triggered at the time of the call, in the store and in the log, and if not it stays healthy and
  nothing changes.\<close>

theorem evaluate_outcome:
  assumes run: "te_reachable med s now" and def: "index_def s idx = Inr def"
    and acc: "acc = accumulator s idx win"
  shows "evaluate env idx win s =
    (if days_recorded acc < window_len (index_params def) then Inl (Err StaleIndex)
     else case trigger_state s idx win of
       Healthy \<Rightarrow>
         if ip_kind (index_params def) = RainfallShortfall \<and> \<not> in_i128 (rain_sum acc * 10000)
         then Inl (Err TeOverflow)
         else if breached (index_params def) acc
         then Inr (Triggered (timestamp env), s\<lparr>
           TriggerState := (TriggerState s)((idx, win) \<mapsto> Triggered (timestamp env)),
           te_events := te_events s @ [EvTriggered idx win (timestamp env)]\<rparr>)
         else Inr (Healthy, s)
     | status \<Rightarrow> Inr (status, s))"
  using reachable_index(1) [OF run def] eval_index_outcome [OF reachable_index(2,3) [OF run def], of win]
  by (auto simp: evaluate_def read_def_def acc accumulator_def trigger_state_def Let_def te_publish_def
      computable_def split: TriggerStatus.split IndexKind.split)

theorem evaluate_outcome_witness:
  "evaluate (te_env 250) 0 7 te_demo2 = Inl (Err StaleIndex) \<and>
   (\<exists>s'. evaluate (te_env 1000) 0 7 te_demo3 = Inr (Triggered 1000, s') \<and>
      trigger_state s' 0 7 = Triggered 1000)"
proof -
  have d: "index_def te_demo2 0 = Inr \<lparr>index_id = 0, index_params = rain_params 2\<rparr>"
    "index_def te_demo3 0 = Inr \<lparr>index_id = 0, index_params = rain_params 2\<rparr>"
    by (simp_all add: index_def_def read_def_def te_demo_fields)
  have b: "breached (rain_params 2) (accumulator te_demo3 0 7)"
    by (simp add: breached_def index_depth_def accumulator_def read_accumulator_def te_demo_fields rain_params_def)
  show ?thesis
    using evaluate_outcome [OF te_demo_reachable(2) d(1) refl, of "te_env 250" 7]
      evaluate_outcome [OF te_demo_reachable(3) d(2) refl, of "te_env 1000" 7] b
    by (simp add: te_demo_fields te_demo_len accumulator_def read_accumulator_def trigger_state_def
        read_state_def in_i128_def te_env_def)
qed

text \<open>C38. The outcome of a finalization (FR-TRG-4): in every reachable state the finalization of a window
  of a defined index needs the guardian's authorization; a healthy window is refused with
  \<^verbatim>\<open>NotTriggered\<close>, a finalized one with \<^verbatim>\<open>AlreadyFinalized\<close>, and a triggered one with \<^verbatim>\<open>TimelockPending\<close>
  until 24 hours after its trigger (or \<^verbatim>\<open>Overflow\<close>, should that be beyond the end of the clock). From
  then on it always succeeds: the window is finalized at the time of the call with the severity of the
  curve, in the store and in the log, and nothing else changes.\<close>

theorem finalize_outcome:
  assumes run: "te_reachable med s now" and def: "index_def s idx = Inr def" and adm: "te_admin s = Inr a"
    and acc: "acc = accumulator s idx win"
    and sev: "sev = as_u32 (severity_ramp (index_span (index_params def)) (index_depth (index_params def) acc))"
  shows "finalize env idx win s =
    (if \<not> require_auth env a then Inl Trap
     else case trigger_state s idx win of
       Healthy \<Rightarrow> Inl (Err NotTriggered)
     | Finalized _ _ \<Rightarrow> Inl (Err AlreadyFinalized)
     | Triggered at \<Rightarrow>
         if 2 ^ 64 \<le> uint at + 86400 then Inl (Err TeOverflow)
         else if uint (timestamp env) < uint at + 86400 then Inl (Err TeTimelockPending)
         else Inr (Finalized (timestamp env) sev, s\<lparr>
           TriggerState := (TriggerState s)((idx, win) \<mapsto> Finalized (timestamp env) sev),
           te_events := te_events s @ [EvFinalized idx win (timestamp env) sev]\<rparr>))"
proof (cases "read_state s idx win")
  case (Triggered at)
  note sv = triggered_window [OF run def Triggered]
  show ?thesis
    using adm reachable_index(1) [OF run def] Triggered
    by (simp add: finalize_def te_require_admin_def require_stored_def te_admin_def ok_or_Inr trigger_state_def
        challenge_end ok_or_def Let_def read_def_def sv te_publish_def sev acc accumulator_def curve_severity_def)
qed (use adm in \<open>simp_all add: finalize_def te_require_admin_def require_stored_def te_admin_def ok_or_Inr
    trigger_state_def\<close>)

theorem finalize_outcome_witness:
  "finalize (te_env 87399) 0 7 te_demo4 = Inl (Err TeTimelockPending) \<and>
   (\<exists>sev s'. finalize (te_env 87400) 0 7 te_demo4 = Inr (Finalized 87400 sev, s') \<and>
      trigger_state s' 0 7 = Finalized 87400 sev)"
proof -
  have d: "index_def te_demo4 0 = Inr \<lparr>index_id = 0, index_params = rain_params 2\<rparr>"
    "te_admin te_demo4 = Inr demo_admin" "trigger_state te_demo4 0 7 = Triggered 1000"
    by (simp_all add: index_def_def read_def_def te_demo_fields te_admin_def trigger_state_def read_state_def)
  have "require_auth (te_env n) demo_admin" for n
    by (simp add: require_auth_def te_env_def demo_signed_def demo_admin_def)
  then show ?thesis
    using finalize_outcome [OF te_demo_reachable(4) d(1,2) refl refl, of "te_env 87399" 7]
      finalize_outcome [OF te_demo_reachable(4) d(1,2) refl refl, of "te_env 87400" 7]
    by (simp add: d(3) te_env_def) (simp add: trigger_state_def read_state_def)
qed

end
