(* ===== verification/PolicyContract.thy ===== *)
theory PolicyContract
  imports Host Common
begin

text \<open>
  The \<^verbatim>\<open>policy\<close> contract (\<^verbatim>\<open>src/contracts/policy/src/lib.rs\<close>): quoting, minting one or a batch of
  policy certificates against the risk pool, the lifecycle of a certificate, cancellation with a
  refund, and transfer.

  The risk pool is called through a client interface. The client is a record of functions on the
  state \<open>w\<close> of the rest of the ledger, one per method of the trait, each \<^term>\<open>None\<close> when the call
  traps; the operations that call it take and return \<open>w\<close>.
\<close>

section \<open>The risk pool client\<close>

record 'w RiskPoolClient =
  client_premium_for :: "Env \<Rightarrow> Address \<Rightarrow> u64 \<Rightarrow> i128 \<Rightarrow> 'w \<Rightarrow> i128 option"
  client_collect_premium ::
    "Env \<Rightarrow> Address \<Rightarrow> u64 \<Rightarrow> u64 \<Rightarrow> Address \<Rightarrow> i128 \<Rightarrow> 'w \<Rightarrow> (i128 \<times> 'w) option"
  client_refund_premium ::
    "Env \<Rightarrow> Address \<Rightarrow> u64 \<Rightarrow> u64 \<Rightarrow> Address \<Rightarrow> i128 \<Rightarrow> 'w \<Rightarrow> (i128 \<times> 'w) option"

section \<open>Data\<close>

datatype PolicyState = PolActive | PolTriggered | PolPaid | PolExpired | PolCancelled

record PolicyRecord =
  pol_owner :: Address
  pol_pool_id :: u64
  pol_season_id :: u64
  pol_region :: Symbol
  pol_coverage :: i128
  pol_index_ref :: u64
  pol_window_start :: u64
  pol_window_end :: u64
  pol_severity_curve :: u32
  premium_paid :: i128
  net_reserved :: i128
  pol_state :: PolicyState

record PolicyTerms =
  term_region :: Symbol
  term_coverage :: i128
  term_index_ref :: u64
  term_window_start :: u64
  term_window_end :: u64
  term_severity_curve :: u32

record BatchEntry =
  entry_owner :: Address
  entry_terms :: PolicyTerms
  entry_max_premium :: i128
  entry_metadata :: Bytes32

definition MAX_BATCH :: nat where "MAX_BATCH = 20"

datatype PolicyError =
    PolicyNotFound | InvalidState | WindowStarted | NotTransferable | QuoteMismatch
  | InvalidCoverage | InvalidWindow | NotExpired | InvalidBatch
  | PolUnauthorized | PolNotInitialized | PolOverflow

fun pol_error_code :: "PolicyError \<Rightarrow> u32" where
  "pol_error_code PolicyNotFound = 200"
| "pol_error_code InvalidState = 201"
| "pol_error_code WindowStarted = 202"
| "pol_error_code NotTransferable = 203"
| "pol_error_code QuoteMismatch = 204"
| "pol_error_code InvalidCoverage = 205"
| "pol_error_code InvalidWindow = 206"
| "pol_error_code NotExpired = 207"
| "pol_error_code InvalidBatch = 208"
| "pol_error_code PolUnauthorized = 900"
| "pol_error_code PolNotInitialized = 902"
| "pol_error_code PolOverflow = 903"

datatype PolicyEvent =
    PolicyMinted u64 Address u64 u64 i128 i128
  | PolicyStateChanged u64 PolicyState
  | PolicyCancelled u64 Address i128
  | BatchMinted Address u64 u64 nat
  | PolicyTransferred u64 Address Address
  | TransferabilitySet u64 bool

text \<open>The store: the variants of \<^verbatim>\<open>DataKey\<close>, and the events published so far.\<close>

record PolicyStore =
  PolAdmin :: "Address option"
  PolRiskPool :: "Address option"
  PolicyCounter :: "u64 option"
  PolicyOf :: "u64 \<rightharpoonup> PolicyRecord"
  MetaPointer :: "u64 \<rightharpoonup> Bytes32"
  Transferable :: "u64 \<rightharpoonup> bool"
  pol_events :: "PolicyEvent list"

definition pol_empty :: PolicyStore where
  "pol_empty = \<lparr>PolAdmin = None, PolRiskPool = None, PolicyCounter = None, PolicyOf = Map.empty,
     MetaPointer = Map.empty, Transferable = Map.empty, pol_events = []\<rparr>"

definition pol_publish :: "PolicyEvent \<Rightarrow> PolicyStore \<Rightarrow> PolicyStore" where
  "pol_publish e s = s\<lparr>pol_events := pol_events s @ [e]\<rparr>"

section \<open>Store access\<close>

definition read_transferable :: "PolicyStore \<Rightarrow> u64 \<Rightarrow> bool" where
  "read_transferable s pool_id = unwrap_or (Transferable s pool_id) False"

definition read_policy :: "PolicyStore \<Rightarrow> u64 \<Rightarrow> (PolicyError, PolicyRecord) result" where
  "read_policy s policy_id = ok_or (PolicyOf s policy_id) PolicyNotFound"

definition read_risk_pool :: "PolicyStore \<Rightarrow> (PolicyError, Address) result" where
  "read_risk_pool s = ok_or (PolRiskPool s) PolNotInitialized"

definition pol_require_admin :: "Env \<Rightarrow> PolicyStore \<Rightarrow> (PolicyError, Address) result" where
  "pol_require_admin env s = require_stored env (PolAdmin s) PolNotInitialized"

definition write_policy :: "u64 \<Rightarrow> PolicyRecord \<Rightarrow> PolicyStore \<Rightarrow> PolicyStore" where
  "write_policy policy_id r s = s\<lparr>PolicyOf := (PolicyOf s)(policy_id \<mapsto> r)\<rparr>"

definition transition ::
    "u64 \<Rightarrow> PolicyState \<Rightarrow> PolicyState \<Rightarrow> PolicyStore \<Rightarrow> (PolicyError, PolicyStore) result" where
  "transition policy_id src dst s =
     bind_ok (read_policy s policy_id) (\<lambda>r.
     if pol_state r \<noteq> src then Inl (Err InvalidState)
     else let s = write_policy policy_id (r\<lparr>pol_state := dst\<rparr>) s in
       Inr (pol_publish (PolicyStateChanged policy_id dst) s))"

section \<open>Construction and quoting\<close>

definition pol_constructor :: "Address \<Rightarrow> Address \<Rightarrow> PolicyStore" where
  "pol_constructor a rp = pol_empty\<lparr>PolAdmin := Some a, PolRiskPool := Some rp\<rparr>"

definition pol_admin :: "PolicyStore \<Rightarrow> (PolicyError, Address) result" where
  "pol_admin s = ok_or (PolAdmin s) PolNotInitialized"

definition risk_pool :: "PolicyStore \<Rightarrow> (PolicyError, Address) result" where
  "risk_pool s = read_risk_pool s"

definition quote ::
    "'w RiskPoolClient \<Rightarrow> Env \<Rightarrow> u64 \<Rightarrow> i128 \<Rightarrow> PolicyStore \<Rightarrow> 'w \<Rightarrow> (PolicyError, i128) result" where
  "quote client env pool_id coverage s w =
     bind_ok (read_risk_pool s) (\<lambda>rp.
     or_trap (client_premium_for client (call_env env rp) rp pool_id coverage w))"

section \<open>Minting\<close>

definition mint_one ::
    "'w RiskPoolClient \<Rightarrow> Address \<Rightarrow> Env \<Rightarrow> Address \<Rightarrow> Address \<Rightarrow> u64 \<Rightarrow> u64 \<Rightarrow> PolicyTerms \<Rightarrow> i128 \<Rightarrow>
     Bytes32 \<Rightarrow> PolicyStore \<Rightarrow> 'w \<Rightarrow> (PolicyError, u64 \<times> PolicyStore \<times> 'w) result" where
  "mint_one client rp env holder payer pool_id season_id terms max_premium metadata s w =
     (if term_coverage terms \<le> 0 then Inl (Err InvalidCoverage)
      else if term_window_end terms \<le> term_window_start terms then Inl (Err InvalidWindow)
      else
        bind_ok (or_trap (client_premium_for client (call_env env rp) rp pool_id
                            (term_coverage terms) w)) (\<lambda>premium.
        if premium > max_premium then Inl (Err QuoteMismatch)
        else
          bind_ok (or_trap (client_collect_premium client (call_env env rp) rp pool_id season_id
                              payer premium w)) (\<lambda>(net, w).
          bind_ok (ok_or (checked_uadd (unwrap_or (PolicyCounter s) 0) 1) PolOverflow) (\<lambda>policy_id.
          let s = s\<lparr>PolicyCounter := Some policy_id\<rparr>;
              r = \<lparr>pol_owner = holder, pol_pool_id = pool_id, pol_season_id = season_id,
                   pol_region = term_region terms, pol_coverage = term_coverage terms,
                   pol_index_ref = term_index_ref terms,
                   pol_window_start = term_window_start terms,
                   pol_window_end = term_window_end terms,
                   pol_severity_curve = term_severity_curve terms,
                   premium_paid = premium, net_reserved = net, pol_state = PolActive\<rparr>;
              s = write_policy policy_id r s;
              s = s\<lparr>MetaPointer := (MetaPointer s)(policy_id \<mapsto> metadata)\<rparr> in
          Inr (policy_id,
               pol_publish (PolicyMinted policy_id holder pool_id season_id (term_coverage terms)
                              premium) s, w)))))"

definition mint ::
    "'w RiskPoolClient \<Rightarrow> Env \<Rightarrow> Address \<Rightarrow> u64 \<Rightarrow> u64 \<Rightarrow> PolicyTerms \<Rightarrow> i128 \<Rightarrow> Bytes32 \<Rightarrow>
     PolicyStore \<Rightarrow> 'w \<Rightarrow> (PolicyError, u64 \<times> PolicyStore \<times> 'w) result" where
  "mint client env buyer pool_id season_id terms max_premium metadata s w =
     (if \<not> require_auth env buyer then Inl Trap
      else
        bind_ok (read_risk_pool s) (\<lambda>rp.
        mint_one client rp env buyer buyer pool_id season_id terms max_premium metadata s w))"

text \<open>The loop over the entries; \<open>ids\<close> are those minted so far.\<close>

fun mint_entries ::
    "'w RiskPoolClient \<Rightarrow> Address \<Rightarrow> Env \<Rightarrow> Address \<Rightarrow> u64 \<Rightarrow> u64 \<Rightarrow> BatchEntry list \<Rightarrow> u64 list \<Rightarrow>
     PolicyStore \<Rightarrow> 'w \<Rightarrow> (PolicyError, u64 list \<times> PolicyStore \<times> 'w) result" where
  "mint_entries client rp env payer pool_id season_id [] ids s w = Inr (ids, s, w)"
| "mint_entries client rp env payer pool_id season_id (entry # entries) ids s w =
     bind_ok (mint_one client rp env (entry_owner entry) payer pool_id season_id (entry_terms entry)
                (entry_max_premium entry) (entry_metadata entry) s w) (\<lambda>(i, s, w).
     mint_entries client rp env payer pool_id season_id entries (ids @ [i]) s w)"

definition mint_batch ::
    "'w RiskPoolClient \<Rightarrow> Env \<Rightarrow> Address \<Rightarrow> u64 \<Rightarrow> u64 \<Rightarrow> BatchEntry list \<Rightarrow> PolicyStore \<Rightarrow> 'w \<Rightarrow>
     (PolicyError, u64 list \<times> PolicyStore \<times> 'w) result" where
  "mint_batch client env payer pool_id season_id entries s w =
     (if \<not> require_auth env payer then Inl Trap
      else let cnt = length entries in
      if cnt = 0 \<or> cnt > MAX_BATCH then Inl (Err InvalidBatch)
      else
        bind_ok (read_risk_pool s) (\<lambda>rp.
        bind_ok (mint_entries client rp env payer pool_id season_id entries [] s w) (\<lambda>(ids, s, w).
        Inr (ids, pol_publish (BatchMinted payer pool_id season_id cnt) s, w))))"

section \<open>Lifecycle\<close>

definition mark_triggered :: "Env \<Rightarrow> u64 \<Rightarrow> PolicyStore \<Rightarrow> (PolicyError, PolicyStore) result" where
  "mark_triggered env policy_id s =
     bind_ok (pol_require_admin env s) (\<lambda>_. transition policy_id PolActive PolTriggered s)"

definition mark_paid :: "Env \<Rightarrow> u64 \<Rightarrow> PolicyStore \<Rightarrow> (PolicyError, PolicyStore) result" where
  "mark_paid env policy_id s =
     bind_ok (pol_require_admin env s) (\<lambda>_. transition policy_id PolTriggered PolPaid s)"

definition expire :: "Env \<Rightarrow> u64 \<Rightarrow> PolicyStore \<Rightarrow> (PolicyError, PolicyStore) result" where
  "expire env policy_id s =
     bind_ok (read_policy s policy_id) (\<lambda>r.
     if timestamp env < pol_window_end r then Inl (Err NotExpired)
     else transition policy_id PolActive PolExpired s)"

definition cancel ::
    "'w RiskPoolClient \<Rightarrow> Env \<Rightarrow> u64 \<Rightarrow> PolicyStore \<Rightarrow> 'w \<Rightarrow>
     (PolicyError, i128 \<times> PolicyStore \<times> 'w) result" where
  "cancel client env policy_id s w =
     bind_ok (read_policy s policy_id) (\<lambda>r.
     if \<not> require_auth env (pol_owner r) then Inl Trap
     else if pol_state r \<noteq> PolActive then Inl (Err InvalidState)
     else if timestamp env \<ge> pol_window_start r then Inl (Err WindowStarted)
     else
       bind_ok (read_risk_pool s) (\<lambda>rp.
       bind_ok (or_trap (client_refund_premium client (call_env env rp) rp (pol_pool_id r)
                           (pol_season_id r) (pol_owner r) (net_reserved r) w)) (\<lambda>(refunded, w).
       let r = r\<lparr>pol_state := PolCancelled\<rparr>;
           s = write_policy policy_id r s in
       Inr (refunded, pol_publish (PolicyCancelled policy_id (pol_owner r) refunded) s, w))))"

definition set_metadata ::
    "Env \<Rightarrow> u64 \<Rightarrow> Bytes32 \<Rightarrow> PolicyStore \<Rightarrow> (PolicyError, PolicyStore) result" where
  "set_metadata env policy_id pointer s =
     bind_ok (read_policy s policy_id) (\<lambda>r.
     if \<not> require_auth env (pol_owner r) then Inl Trap
     else Inr (s\<lparr>MetaPointer := (MetaPointer s)(policy_id \<mapsto> pointer)\<rparr>))"

definition set_transferable ::
    "Env \<Rightarrow> u64 \<Rightarrow> bool \<Rightarrow> PolicyStore \<Rightarrow> (PolicyError, PolicyStore) result" where
  "set_transferable env pool_id allowed s =
     bind_ok (pol_require_admin env s) (\<lambda>_.
     let s = s\<lparr>Transferable := (Transferable s)(pool_id \<mapsto> allowed)\<rparr> in
     Inr (pol_publish (TransferabilitySet pool_id allowed) s))"

definition transfer :: "Env \<Rightarrow> u64 \<Rightarrow> Address \<Rightarrow> PolicyStore \<Rightarrow> (PolicyError, PolicyStore) result"
  where "transfer env policy_id to_owner s =
     bind_ok (read_policy s policy_id) (\<lambda>r.
     if \<not> require_auth env (pol_owner r) then Inl Trap
     else if \<not> read_transferable s (pol_pool_id r) then Inl (Err NotTransferable)
     else if pol_state r \<noteq> PolActive then Inl (Err InvalidState)
     else let src = pol_owner r;
              s = write_policy policy_id (r\<lparr>pol_owner := to_owner\<rparr>) s in
       Inr (pol_publish (PolicyTransferred policy_id src to_owner) s))"

section \<open>Reads\<close>

definition policy :: "PolicyStore \<Rightarrow> u64 \<Rightarrow> (PolicyError, PolicyRecord) result" where
  "policy s policy_id = read_policy s policy_id"

definition metadata_of :: "PolicyStore \<Rightarrow> u64 \<Rightarrow> (PolicyError, Bytes32) result" where
  "metadata_of s policy_id = ok_or (MetaPointer s policy_id) PolicyNotFound"

definition transferable :: "PolicyStore \<Rightarrow> u64 \<Rightarrow> bool" where
  "transferable s pool_id = read_transferable s pool_id"

end
