(* ===== verification/Policy_Run.thy ===== *)
theory Policy_Run
  imports PolicyContract
begin

text \<open>
  Runs of the policy contract: what the success of each operation means, the step relation over the
  store, the rest of the ledger and the clock, the invariant of the certificates, and what only
  moves forward in the life of a certificate.
\<close>

section \<open>What success means\<close>

lemma pol_publish_fields [store_simps]:
  "PolAdmin (pol_publish e s) = PolAdmin s" "PolRiskPool (pol_publish e s) = PolRiskPool s"
  "PolicyCounter (pol_publish e s) = PolicyCounter s" "PolicyOf (pol_publish e s) = PolicyOf s"
  "MetaPointer (pol_publish e s) = MetaPointer s" "Transferable (pol_publish e s) = Transferable s"
  "pol_events (pol_publish e s) = pol_events s @ [e]"
  by (simp_all add: pol_publish_def)

lemma write_policy_fields [store_simps]:
  "PolAdmin (write_policy i r s) = PolAdmin s" "PolRiskPool (write_policy i r s) = PolRiskPool s"
  "PolicyCounter (write_policy i r s) = PolicyCounter s"
  "PolicyOf (write_policy i r s) = (PolicyOf s)(i \<mapsto> r)"
  "MetaPointer (write_policy i r s) = MetaPointer s"
  "Transferable (write_policy i r s) = Transferable s"
  "pol_events (write_policy i r s) = pol_events s"
  by (simp_all add: write_policy_def)

lemmas pol_reads = read_transferable_def read_policy_def read_risk_pool_def pol_require_admin_def

text \<open>The certificate a purchase writes.\<close>

definition new_policy ::
    "Address \<Rightarrow> u64 \<Rightarrow> u64 \<Rightarrow> PolicyTerms \<Rightarrow> i128 \<Rightarrow> i128 \<Rightarrow> PolicyRecord" where
  "new_policy holder pool_id season_id terms premium net =
     \<lparr>pol_owner = holder, pol_pool_id = pool_id, pol_season_id = season_id,
      pol_region = term_region terms, pol_coverage = term_coverage terms,
      pol_index_ref = term_index_ref terms, pol_window_start = term_window_start terms,
      pol_window_end = term_window_end terms, pol_severity_curve = term_severity_curve terms,
      premium_paid = premium, net_reserved = net, pol_state = PolActive\<rparr>"

definition issue :: "u64 \<Rightarrow> PolicyRecord \<Rightarrow> Bytes32 \<Rightarrow> PolicyStore \<Rightarrow> PolicyStore" where
  "issue i r md s = s\<lparr>PolicyCounter := Some i, PolicyOf := (PolicyOf s)(i \<mapsto> r),
     MetaPointer := (MetaPointer s)(i \<mapsto> md),
     pol_events := pol_events s @ [PolicyMinted i (pol_owner r) (pol_pool_id r) (pol_season_id r)
       (pol_coverage r) (premium_paid r)]\<rparr>"

lemma issue_fields [store_simps]:
  "PolAdmin (issue i r md s) = PolAdmin s" "PolRiskPool (issue i r md s) = PolRiskPool s"
  "PolicyCounter (issue i r md s) = Some i" "PolicyOf (issue i r md s) = (PolicyOf s)(i \<mapsto> r)"
  "MetaPointer (issue i r md s) = (MetaPointer s)(i \<mapsto> md)"
  "Transferable (issue i r md s) = Transferable s"
  by (simp_all add: issue_def)

lemma mint_one_ok:
  assumes "mint_one client rp env holder payer p i terms maxp md s w = Inr (n, s', w')"
  obtains premium net where "0 < term_coverage terms"
    "term_window_start terms < term_window_end terms"
    "client_premium_for client (call_env env rp) rp p (term_coverage terms) w = Some premium"
    "premium \<le> maxp"
    "client_collect_premium client (call_env env rp) rp p i payer premium w = Some (net, w')"
    "checked_uadd (unwrap_or (PolicyCounter s) 0) 1 = Some n"
    "s' = issue n (new_policy holder p i terms premium net) md s"
  using assms
  by (auto simp: mint_one_def Let_def ok_simps not_le write_policy_def pol_publish_def issue_def
      new_policy_def split: prod.splits intro!: that)

lemma mint_ok:
  assumes "mint client env buyer p i terms maxp md s w = Inr (n, s', w')"
  obtains rp where "require_auth env buyer" "PolRiskPool s = Some rp"
    "mint_one client rp env buyer buyer p i terms maxp md s w = Inr (n, s', w')"
  using assms by (auto simp: mint_def read_risk_pool_def ok_simps intro!: that)

lemma mint_batch_ok:
  assumes "mint_batch client env payer p i entries s w = Inr (ids, s', w')"
  obtains rp s1 where "require_auth env payer" "entries \<noteq> []" "length entries \<le> 20"
    "PolRiskPool s = Some rp"
    "mint_entries client rp env payer p i entries [] s w = Inr (ids, s1, w')"
    "s' = pol_publish (BatchMinted payer p i (length entries)) s1"
  using assms
  by (auto simp: mint_batch_def read_risk_pool_def Let_def MAX_BATCH_def ok_simps not_less
      split: prod.splits intro!: that)

lemma transition_ok:
  assumes "transition i src dst s = Inr s'"
  obtains r where "PolicyOf s i = Some r" "pol_state r = src"
    "s' = pol_publish (PolicyStateChanged i dst) (write_policy i (r\<lparr>pol_state := dst\<rparr>) s)"
  using assms by (auto simp: transition_def read_policy_def Let_def ok_simps intro!: that)

lemma cancel_ok:
  assumes "cancel client env i s w = Inr (n, s', w')"
  obtains r rp where "PolicyOf s i = Some r" "require_auth env (pol_owner r)"
    "pol_state r = PolActive" "timestamp env < pol_window_start r" "PolRiskPool s = Some rp"
    "client_refund_premium client (call_env env rp) rp (pol_pool_id r) (pol_season_id r)
       (pol_owner r) (net_reserved r) w = Some (n, w')"
    "s' = pol_publish (PolicyCancelled i (pol_owner r) n)
       (write_policy i (r\<lparr>pol_state := PolCancelled\<rparr>) s)"
  using assms
  by (auto simp: cancel_def read_policy_def read_risk_pool_def Let_def ok_simps not_le
      split: prod.splits intro!: that)

lemma transfer_ok:
  assumes "transfer env i dst s = Inr s'"
  obtains r where "PolicyOf s i = Some r" "require_auth env (pol_owner r)"
    "read_transferable s (pol_pool_id r)" "pol_state r = PolActive"
    "s' = pol_publish (PolicyTransferred i (pol_owner r) dst)
       (write_policy i (r\<lparr>pol_owner := dst\<rparr>) s)"
  using assms by (auto simp: transfer_def read_policy_def Let_def ok_simps intro!: that)

lemma set_metadata_ok:
  assumes "set_metadata env i md s = Inr s'"
  obtains r where "PolicyOf s i = Some r" "require_auth env (pol_owner r)"
    "s' = s\<lparr>MetaPointer := (MetaPointer s)(i \<mapsto> md)\<rparr>"
  using assms by (auto simp: set_metadata_def read_policy_def ok_simps intro!: that)

lemma set_transferable_ok:
  assumes "set_transferable env p b s = Inr s'"
  obtains a where "PolAdmin s = Some a" "require_auth env a"
    "s' = pol_publish (TransferabilitySet p b) (s\<lparr>Transferable := (Transferable s)(p \<mapsto> b)\<rparr>)"
  using assms by (auto simp: set_transferable_def pol_require_admin_def Let_def ok_simps intro!: that)

lemma mark_triggered_ok:
  assumes "mark_triggered env i s = Inr s'"
  obtains a where "PolAdmin s = Some a" "require_auth env a"
    "transition i PolActive PolTriggered s = Inr s'"
  using assms by (auto simp: mark_triggered_def pol_require_admin_def ok_simps intro!: that)

lemma mark_paid_ok:
  assumes "mark_paid env i s = Inr s'"
  obtains a where "PolAdmin s = Some a" "require_auth env a"
    "transition i PolTriggered PolPaid s = Inr s'"
  using assms by (auto simp: mark_paid_def pol_require_admin_def ok_simps intro!: that)

lemma expire_ok:
  assumes "expire env i s = Inr s'"
  obtains r where "PolicyOf s i = Some r" "pol_window_end r \<le> timestamp env"
    "transition i PolActive PolExpired s = Inr s'"
  using assms by (auto simp: expire_def read_policy_def ok_simps not_less intro!: that)

section \<open>Steps\<close>

text \<open>
  The state is the store, the rest of the ledger, and the clock. The rule \<open>pol_rest\<close> is what other
  contracts do between two invocations.
\<close>

inductive pol_step ::
    "'w RiskPoolClient \<Rightarrow> ('w \<Rightarrow> 'w \<Rightarrow> bool) \<Rightarrow> Address \<Rightarrow>
     PolicyStore \<times> 'w \<times> u64 \<Rightarrow> PolicyStore \<times> 'w \<times> u64 \<Rightarrow> bool"
  for client ext me where
  pol_mint: "host_env me env \<Longrightarrow> now \<le> timestamp env \<Longrightarrow>
     mint client env buyer p i terms maxp md s w = Inr (n, s', w') \<Longrightarrow>
     pol_step client ext me (s, w, now) (s', w', timestamp env)"
| pol_mint_batch: "host_env me env \<Longrightarrow> now \<le> timestamp env \<Longrightarrow>
     mint_batch client env payer p i entries s w = Inr (ids, s', w') \<Longrightarrow>
     pol_step client ext me (s, w, now) (s', w', timestamp env)"
| pol_mark_triggered: "host_env me env \<Longrightarrow> now \<le> timestamp env \<Longrightarrow>
     mark_triggered env n s = Inr s' \<Longrightarrow> pol_step client ext me (s, w, now) (s', w, timestamp env)"
| pol_mark_paid: "host_env me env \<Longrightarrow> now \<le> timestamp env \<Longrightarrow>
     mark_paid env n s = Inr s' \<Longrightarrow> pol_step client ext me (s, w, now) (s', w, timestamp env)"
| pol_expire: "host_env me env \<Longrightarrow> now \<le> timestamp env \<Longrightarrow>
     expire env n s = Inr s' \<Longrightarrow> pol_step client ext me (s, w, now) (s', w, timestamp env)"
| pol_cancel: "host_env me env \<Longrightarrow> now \<le> timestamp env \<Longrightarrow>
     cancel client env n s w = Inr (refunded, s', w') \<Longrightarrow>
     pol_step client ext me (s, w, now) (s', w', timestamp env)"
| pol_set_metadata: "host_env me env \<Longrightarrow> now \<le> timestamp env \<Longrightarrow>
     set_metadata env n md s = Inr s' \<Longrightarrow> pol_step client ext me (s, w, now) (s', w, timestamp env)"
| pol_set_transferable: "host_env me env \<Longrightarrow> now \<le> timestamp env \<Longrightarrow>
     set_transferable env p b s = Inr s' \<Longrightarrow> pol_step client ext me (s, w, now) (s', w, timestamp env)"
| pol_transfer: "host_env me env \<Longrightarrow> now \<le> timestamp env \<Longrightarrow>
     transfer env n dst s = Inr s' \<Longrightarrow> pol_step client ext me (s, w, now) (s', w, timestamp env)"
| pol_rest: "ext w w' \<Longrightarrow> now \<le> now' \<Longrightarrow> pol_step client ext me (s, w, now) (s, w', now')"

inductive_cases pol_stepE: "pol_step client ext me (s, w, now) (s', w', now')"

definition pol_init :: "PolicyStore \<times> 'w \<times> u64 \<Rightarrow> bool" where
  "pol_init st \<longleftrightarrow> (\<exists>a rp. fst st = pol_constructor a rp)"

definition pol_reachable ::
    "'w RiskPoolClient \<Rightarrow> ('w \<Rightarrow> 'w \<Rightarrow> bool) \<Rightarrow> Address \<Rightarrow> PolicyStore \<Rightarrow> 'w \<Rightarrow> u64 \<Rightarrow> bool" where
  "pol_reachable client ext me s w now \<longleftrightarrow>
     (\<exists>a rp w0 t0. (pol_step client ext me)\<^sup>*\<^sup>* (pol_constructor a rp, w0, t0) (s, w, now))"

lemma pol_reachable_step:
  "pol_reachable client ext me s w now \<Longrightarrow> pol_step client ext me (s, w, now) (s', w', now') \<Longrightarrow>
   pol_reachable client ext me s' w' now'"
  unfolding pol_reachable_def by (blast intro: rtranclp.rtrancl_into_rtrancl)

section \<open>The invariant\<close>

text \<open>
  Ids are issued without gaps from 1, every certificate has a metadata pointer, and its terms were
  checked: a positive coverage and a window that is not empty.
\<close>

definition terms_ok :: "PolicyRecord \<Rightarrow> bool" where
  "terms_ok r \<longleftrightarrow> 0 < pol_coverage r \<and> pol_window_start r < pol_window_end r"

definition pol_inv :: "PolicyStore \<Rightarrow> bool" where
  "pol_inv s \<longleftrightarrow>
     (\<forall>i. PolicyOf s i \<noteq> None \<longleftrightarrow> 0 < i \<and> i \<le> unwrap_or (PolicyCounter s) 0) \<and>
     dom (MetaPointer s) = dom (PolicyOf s) \<and> (\<forall>i r. PolicyOf s i = Some r \<longrightarrow> terms_ok r)"

lemma pol_inv_update:
  assumes "pol_inv s" and "PolicyOf s i = Some r" and "terms_ok r'"
    and "PolicyCounter s' = PolicyCounter s" and "PolicyOf s' = (PolicyOf s)(i \<mapsto> r')"
    and "MetaPointer s' = MetaPointer s"
  shows "pol_inv s'"
  using assms unfolding pol_inv_def by (auto simp: domIff)

lemma pol_inv_same:
  assumes "pol_inv s" and "PolicyCounter s' = PolicyCounter s" and "PolicyOf s' = PolicyOf s"
    and "dom (MetaPointer s') = dom (MetaPointer s)"
  shows "pol_inv s'"
  using assms unfolding pol_inv_def by simp

lemma transition_keeps:
  assumes "transition i src dst s = Inr s'" and inv: "pol_inv s"
  shows "pol_inv s'"
  using assms(1)
proof (rule transition_ok)
  fix r
  assume h: "PolicyOf s i = Some r"
    "s' = pol_publish (PolicyStateChanged i dst) (write_policy i (r\<lparr>pol_state := dst\<rparr>) s)"
  then have "terms_ok (r\<lparr>pol_state := dst\<rparr>)" using inv by (simp add: pol_inv_def terms_ok_def)
  then show ?thesis using pol_inv_update [OF inv h(1)] by (simp add: h(2) store_simps)
qed

lemma cancel_keeps:
  assumes "cancel client env i s w = Inr (n, s', w')" and inv: "pol_inv s"
  shows "pol_inv s'"
  using assms(1)
proof (rule cancel_ok)
  fix r
  assume h: "PolicyOf s i = Some r"
    "s' = pol_publish (PolicyCancelled i (pol_owner r) n)
       (write_policy i (r\<lparr>pol_state := PolCancelled\<rparr>) s)"
  then have "terms_ok (r\<lparr>pol_state := PolCancelled\<rparr>)" using inv by (simp add: pol_inv_def terms_ok_def)
  then show ?thesis using pol_inv_update [OF inv h(1)] by (simp add: h(2) store_simps)
qed

lemma transfer_keeps:
  assumes "transfer env i dst s = Inr s'" and inv: "pol_inv s"
  shows "pol_inv s'"
  using assms(1)
proof (rule transfer_ok)
  fix r
  assume h: "PolicyOf s i = Some r"
    "s' = pol_publish (PolicyTransferred i (pol_owner r) dst)
       (write_policy i (r\<lparr>pol_owner := dst\<rparr>) s)"
  then have "terms_ok (r\<lparr>pol_owner := dst\<rparr>)" using inv by (simp add: pol_inv_def terms_ok_def)
  then show ?thesis using pol_inv_update [OF inv h(1)] by (simp add: h(2) store_simps)
qed

lemma set_metadata_keeps:
  assumes "set_metadata env i md s = Inr s'" and inv: "pol_inv s"
  shows "pol_inv s'"
  using assms(1)
proof (rule set_metadata_ok)
  fix r
  assume h: "PolicyOf s i = Some r" "s' = s\<lparr>MetaPointer := (MetaPointer s)(i \<mapsto> md)\<rparr>"
  then have "i \<in> dom (MetaPointer s)" using inv by (auto simp: pol_inv_def)
  then show ?thesis by (intro pol_inv_same [OF inv]) (auto simp: h(2))
qed

lemma set_transferable_keeps:
  "set_transferable env p b s = Inr s' \<Longrightarrow> pol_inv s \<Longrightarrow> pol_inv s'"
  by (erule set_transferable_ok) (auto simp: store_simps intro: pol_inv_same)

text \<open>The next id is fresh, and a purchase adds exactly its certificate.\<close>

lemma next_id_fresh:
  assumes "pol_inv s" and "checked_uadd (unwrap_or (PolicyCounter s) 0) 1 = Some n"
  shows "PolicyOf s n = None" and "0 < n" and "\<And>i. i \<le> n \<longleftrightarrow> i = n \<or> i \<le> unwrap_or (PolicyCounter s) 0"
proof -
  let ?c = "unwrap_or (PolicyCounter s) 0"
  have n: "uint n = uint ?c + 1" using uint_checked_uadd [OF assms(2)] by simp
  then have "\<not> n \<le> ?c" by (simp add: word_le_def)
  then show "PolicyOf s n = None" using assms(1) unfolding pol_inv_def by blast
  show "0 < n" using n by (simp add: word_less_def)
  show "i \<le> n \<longleftrightarrow> i = n \<or> i \<le> ?c" for i
    using n by (auto simp: word_le_def word_uint_eq_iff)
qed

lemma mint_one_keeps:
  assumes "mint_one client rp env holder payer p i terms maxp md s w = Inr (n, s', w')"
    and inv: "pol_inv s"
  shows "pol_inv s'" and "PolicyOf s n = None"
proof -
  obtain premium net where h: "0 < term_coverage terms"
    "term_window_start terms < term_window_end terms"
    "checked_uadd (unwrap_or (PolicyCounter s) 0) 1 = Some n"
    "s' = issue n (new_policy holder p i terms premium net) md s"
    by (rule mint_one_ok [OF assms(1)])
  note f = next_id_fresh [OF inv h(3)]
  show "PolicyOf s n = None" by (rule f(1))
  have "terms_ok (new_policy holder p i terms premium net)"
    using h(1,2) by (simp add: terms_ok_def new_policy_def)
  then show "pol_inv s'"
    using inv f(2) unfolding pol_inv_def by (auto simp: h(4) store_simps f(3))
qed

text \<open>What every purchase does, a batch of purchases does: the rule for the loop.\<close>

lemma mint_entries_relates:
  assumes "mint_entries client rp env payer p i entries ids0 s w = Inr (ids, s', w')"
    and "\<And>s w. R s w s w"
    and "\<And>s w s1 w1 s2 w2. R s w s1 w1 \<Longrightarrow> R s1 w1 s2 w2 \<Longrightarrow> R s w s2 w2"
    and "\<And>holder terms maxp md n s w s1 w1.
      mint_one client rp env holder payer p i terms maxp md s w = Inr (n, s1, w1) \<Longrightarrow> R s w s1 w1"
  shows "R s w s' w'"
  using assms(1)
proof (induction entries arbitrary: ids0 s w)
  case Nil
  then show ?case using assms(2) by simp
next
  case (Cons e es)
  then obtain n s1 w1 where "mint_one client rp env (entry_owner e) payer p i (entry_terms e)
      (entry_max_premium e) (entry_metadata e) s w = Inr (n, s1, w1)"
    and "mint_entries client rp env payer p i es (ids0 @ [n]) s1 w1 = Inr (ids, s', w')"
    by (auto simp: ok_simps split: prod.splits)
  then show ?case using Cons.IH assms(3,4) by blast
qed

text \<open>The stores before and after purchases.\<close>

definition purchases :: "PolicyStore \<Rightarrow> PolicyStore \<Rightarrow> bool" where
  "purchases s s' \<longleftrightarrow> pol_inv s \<longrightarrow> pol_inv s' \<and> PolicyOf s \<subseteq>\<^sub>m PolicyOf s' \<and>
     PolAdmin s' = PolAdmin s \<and> PolRiskPool s' = PolRiskPool s \<and> Transferable s' = Transferable s"

lemma purchases_trans: "purchases s s1 \<Longrightarrow> purchases s1 s2 \<Longrightarrow> purchases s s2"
  by (auto simp: purchases_def intro: map_le_trans)

lemma mint_one_purchases:
  assumes "mint_one client rp env holder payer p i terms maxp md s w = Inr (n, s', w')"
  shows "purchases s s'"
  unfolding purchases_def
proof
  assume inv: "pol_inv s"
  note k = mint_one_keeps [OF assms inv]
  obtain premium net where "s' = issue n (new_policy holder p i terms premium net) md s"
    by (rule mint_one_ok [OF assms])
  with k show "pol_inv s' \<and> PolicyOf s \<subseteq>\<^sub>m PolicyOf s' \<and>
     PolAdmin s' = PolAdmin s \<and> PolRiskPool s' = PolRiskPool s \<and> Transferable s' = Transferable s"
    by (auto simp: store_simps map_le_def)
qed

lemma mint_purchases:
  assumes "mint client env buyer p i terms maxp md s w = Inr (n, s', w')"
  shows "purchases s s'"
  using assms by (auto elim!: mint_ok intro: mint_one_purchases)

lemma mint_entries_purchases:
  assumes "mint_entries client rp env payer p i entries ids0 s w = Inr (ids, s', w')"
  shows "purchases s s'"
  using mint_entries_relates [OF assms, of "\<lambda>s w s' w'. purchases s s'"]
  by (auto intro: purchases_trans mint_one_purchases simp: purchases_def [of s s for s])

lemma mint_batch_purchases:
  assumes "mint_batch client env payer p i entries s w = Inr (ids, s', w')"
  shows "purchases s s'"
  using assms
proof (rule mint_batch_ok)
  fix rp s1
  assume "mint_entries client rp env payer p i entries [] s w = Inr (ids, s1, w')"
    and e: "s' = pol_publish (BatchMinted payer p i (length entries)) s1"
  then have "purchases s s1" by (blast intro: mint_entries_purchases)
  then show ?thesis
    by (auto simp: purchases_def e store_simps intro: pol_inv_same)
qed

lemma pol_step_inv:
  assumes "pol_step client ext me (s, w, now) (s', w', now')" and "pol_inv s"
  shows "pol_inv s'"
  using assms(1)
proof cases
  case pol_mint
  then show ?thesis using mint_purchases [OF pol_mint(4)] assms(2) by (simp add: purchases_def)
next
  case pol_mint_batch
  then show ?thesis
    using mint_batch_purchases [OF pol_mint_batch(4)] assms(2) by (simp add: purchases_def)
qed (use assms(2) in \<open>auto elim!: mark_triggered_ok mark_paid_ok expire_ok
    intro: transition_keeps cancel_keeps set_metadata_keeps set_transferable_keeps transfer_keeps\<close>)

lemma pol_inv_constructor: "pol_inv (pol_constructor a rp)"
  by (auto simp: pol_inv_def pol_constructor_def pol_empty_def)

interpretation pol: state_machine pol_init "pol_step client ext me" "\<lambda>st. pol_inv (fst st)"
  for client ext me
proof
  fix st :: "PolicyStore \<times> 'a \<times> u64"
  assume "pol_init st"
  then show "pol_inv (fst st)" by (auto simp: pol_init_def pol_inv_constructor)
next
  fix st st' :: "PolicyStore \<times> 'a \<times> u64"
  assume "pol_step client ext me st st'" and "pol_inv (fst st)"
  then show "pol_inv (fst st')" by (cases st; cases st') (auto intro: pol_step_inv)
qed

lemma pol_reachable_inv: "pol_reachable client ext me s w now \<Longrightarrow> pol_inv s"
  using pol.reachable_inv [of _ client ext me "(s, w, now)"]
  by (fastforce simp: pol_reachable_def pol_init_def)

section \<open>The life of a certificate\<close>

definition state_leads :: "PolicyState \<Rightarrow> PolicyState \<Rightarrow> bool" where
  "state_leads x y \<longleftrightarrow> x = y \<or> x = PolActive \<or> (x = PolTriggered \<and> y = PolPaid)"

lemma state_leads_trans: "state_leads x y \<Longrightarrow> state_leads y z \<Longrightarrow> state_leads x z"
  by (auto simp: state_leads_def)

lemma state_leads_active: "state_leads x PolActive \<Longrightarrow> x = PolActive"
  by (auto simp: state_leads_def)

text \<open>
  How a certificate may change between the times \<open>now\<close> and \<open>now'\<close>: its terms never do, it is owned by
  someone else only if it was still active, it is cancelled only before its window opens and expired
  only after it ends.
\<close>

definition pol_terms ::
    "PolicyRecord \<Rightarrow> u64 \<times> u64 \<times> Symbol \<times> i128 \<times> u64 \<times> u64 \<times> u64 \<times> u32 \<times> i128 \<times> i128" where
  "pol_terms r = (pol_pool_id r, pol_season_id r, pol_region r, pol_coverage r, pol_index_ref r,
     pol_window_start r, pol_window_end r, pol_severity_curve r, premium_paid r, net_reserved r)"

definition policy_advances :: "u64 \<Rightarrow> u64 \<Rightarrow> PolicyRecord \<Rightarrow> PolicyRecord \<Rightarrow> bool" where
  "policy_advances now now' x y \<longleftrightarrow>
     pol_terms y = pol_terms x \<and>
     state_leads (pol_state x) (pol_state y) \<and>
     (pol_owner y \<noteq> pol_owner x \<longrightarrow> pol_state x = PolActive) \<and>
     (pol_state y = PolCancelled \<longrightarrow> pol_state x = PolCancelled \<or> now < pol_window_start x) \<and>
     (pol_state y = PolExpired \<longrightarrow> pol_state x = PolExpired \<or> pol_window_end x \<le> now')"

definition pol_forward :: "PolicyStore \<times> 'w \<times> u64 \<Rightarrow> PolicyStore \<times> 'w \<times> u64 \<Rightarrow> bool" where
  "pol_forward st st' \<longleftrightarrow> snd (snd st) \<le> snd (snd st') \<and>
     PolRiskPool (fst st') = PolRiskPool (fst st) \<and>
     (\<forall>i r. PolicyOf (fst st) i = Some r \<longrightarrow> (\<exists>r'. PolicyOf (fst st') i = Some r' \<and>
        policy_advances (snd (snd st)) (snd (snd st')) r r'))"

lemma policy_advances_refl: "policy_advances now now' x x"
  by (simp add: policy_advances_def state_leads_def)

lemma policy_advances_trans:
  assumes "policy_advances t1 t2 x y" and "policy_advances t2 t3 y z" and "t1 \<le> t2" and "t2 \<le> t3"
  shows "policy_advances t1 t3 x z"
proof -
  have win: "pol_window_start y = pol_window_start x" "pol_window_end y = pol_window_end x"
    using assms(1) by (simp_all add: policy_advances_def pol_terms_def)
  show ?thesis
    unfolding policy_advances_def
  proof (intro conjI impI)
    show "pol_terms z = pol_terms x" using assms(1,2) by (simp add: policy_advances_def)
    show "state_leads (pol_state x) (pol_state z)"
      using assms(1,2) unfolding policy_advances_def by (blast intro: state_leads_trans)
  next
    assume "pol_owner z \<noteq> pol_owner x"
    then consider "pol_owner y \<noteq> pol_owner x" | "pol_owner z \<noteq> pol_owner y" by metis
    then show "pol_state x = PolActive"
      using assms(1,2) by cases (auto simp: policy_advances_def intro: state_leads_active)
  next
    assume "pol_state z = PolCancelled"
    then show "pol_state x = PolCancelled \<or> t1 < pol_window_start x"
      using assms unfolding policy_advances_def win by (meson order_le_less_trans)
  next
    assume "pol_state z = PolExpired"
    then show "pol_state x = PolExpired \<or> pol_window_end x \<le> t3"
      using assms unfolding policy_advances_def win by (meson order_trans)
  qed
qed

lemma pol_forwardD:
  assumes "pol_forward (s, w, now) (s', w', now')" and "PolicyOf s n = Some r"
  obtains r' where "PolicyOf s' n = Some r'" "policy_advances now now' r r'"
  using assms unfolding pol_forward_def by fastforce

lemma pol_forward_refl: "pol_forward st st"
  by (simp add: pol_forward_def policy_advances_refl)

lemma pol_forward_trans:
  assumes "pol_forward x y" and "pol_forward y z"
  shows "pol_forward x z"
  unfolding pol_forward_def
proof (intro conjI allI impI)
  show "snd (snd x) \<le> snd (snd z)" and "PolRiskPool (fst z) = PolRiskPool (fst x)"
    using assms by (auto simp: pol_forward_def)
  fix i r
  assume "PolicyOf (fst x) i = Some r"
  with assms show "\<exists>r'. PolicyOf (fst z) i = Some r' \<and>
      policy_advances (snd (snd x)) (snd (snd z)) r r'"
    unfolding pol_forward_def by (meson policy_advances_trans)
qed

lemma pol_forward_quiet:
  assumes "now \<le> now'" and "PolRiskPool s' = PolRiskPool s" and "PolicyOf s \<subseteq>\<^sub>m PolicyOf s'"
  shows "pol_forward (s, w, now) (s', w', now')"
proof -
  have "PolicyOf s' i = Some r" if "PolicyOf s i = Some r" for i r
    using assms(3) that by (auto simp: map_le_def dom_def)
  with assms(1,2) show ?thesis by (auto simp: pol_forward_def intro: policy_advances_refl)
qed

lemma pol_forward_update:
  assumes "now \<le> now'" and "PolRiskPool s' = PolRiskPool s" and "PolicyOf s i = Some r"
    and "PolicyOf s' = (PolicyOf s)(i \<mapsto> r')" and "policy_advances now now' r r'"
  shows "pol_forward (s, w, now) (s', w', now')"
  using assms by (auto simp: pol_forward_def intro: policy_advances_refl)

lemma pol_forward_transition:
  assumes "transition i src dst s = Inr s'" and "now \<le> now'" and "state_leads src dst"
    and "dst \<noteq> PolCancelled"
    and "\<And>r. PolicyOf s i = Some r \<Longrightarrow> dst = PolExpired \<Longrightarrow> pol_window_end r \<le> now'"
  shows "pol_forward (s, w, now) (s', w', now')"
  using assms(1)
proof (rule transition_ok)
  fix r
  assume h: "PolicyOf s i = Some r" "pol_state r = src"
    "s' = pol_publish (PolicyStateChanged i dst) (write_policy i (r\<lparr>pol_state := dst\<rparr>) s)"
  show ?thesis
    by (rule pol_forward_update [OF assms(2) _ h(1)])
      (use h assms(3-5) in \<open>auto simp: store_simps policy_advances_def pol_terms_def\<close>)
qed

lemma pol_step_forward:
  assumes "pol_step client ext me (s, w, now) (s', w', now')" and inv: "pol_inv s"
  shows "pol_forward (s, w, now) (s', w', now')"
  using assms(1)
proof cases
  case (pol_mint env buyer p i terms maxp md n)
  then show ?thesis
    using mint_purchases [OF pol_mint(4)] inv by (intro pol_forward_quiet) (simp_all add: purchases_def)
next
  case (pol_mint_batch env payer p i entries ids)
  then show ?thesis
    using mint_batch_purchases [OF pol_mint_batch(4)] inv
    by (intro pol_forward_quiet) (simp_all add: purchases_def)
next
  case (pol_mark_triggered env n)
  then show ?thesis
    by (auto elim!: mark_triggered_ok intro: pol_forward_transition simp: state_leads_def)
next
  case (pol_mark_paid env n)
  then show ?thesis
    by (auto elim!: mark_paid_ok intro: pol_forward_transition simp: state_leads_def)
next
  case (pol_expire env n)
  then show ?thesis
    by (auto elim!: expire_ok intro!: pol_forward_transition simp: state_leads_def)
next
  case (pol_cancel env n refunded)
  from pol_cancel(4) show ?thesis
  proof (rule cancel_ok)
    fix r
    assume h: "PolicyOf s n = Some r" "pol_state r = PolActive" "timestamp env < pol_window_start r"
      "s' = pol_publish (PolicyCancelled n (pol_owner r) refunded)
         (write_policy n (r\<lparr>pol_state := PolCancelled\<rparr>) s)"
    then show ?thesis
      using pol_cancel(1,3) by (intro pol_forward_update [OF _ _ h(1)])
        (auto simp: store_simps policy_advances_def pol_terms_def state_leads_def)
  qed
next
  case (pol_set_metadata env n md)
  then show ?thesis by (auto elim!: set_metadata_ok intro: pol_forward_quiet)
next
  case (pol_set_transferable env p b)
  then show ?thesis by (auto elim!: set_transferable_ok intro: pol_forward_quiet simp: store_simps)
next
  case (pol_transfer env n dst)
  from pol_transfer(5) show ?thesis
  proof (rule transfer_ok)
    fix r
    assume h: "PolicyOf s n = Some r" "pol_state r = PolActive"
      "s' = pol_publish (PolicyTransferred n (pol_owner r) dst)
         (write_policy n (r\<lparr>pol_owner := dst\<rparr>) s)"
    then show ?thesis
      using pol_transfer(2,4) by (intro pol_forward_update [OF _ _ h(1)])
        (auto simp: store_simps policy_advances_def pol_terms_def state_leads_def)
  qed
next
  case pol_rest
  then show ?thesis by (simp add: pol_forward_quiet)
qed

lemma pol_run_forward:
  assumes "pol_reachable client ext me s w now"
    and "(pol_step client ext me)\<^sup>*\<^sup>* (s, w, now) (s', w', now')"
  shows "pol_forward (s, w, now) (s', w', now')"
proof (rule pol.run_relates [OF pol_forward_refl pol_forward_trans _ assms(2)])
  show "pol_inv (fst (s, w, now))" using pol_reachable_inv [OF assms(1)] by simp
  fix x y :: "PolicyStore \<times> 'a \<times> u64"
  assume "pol_step client ext me x y" and "pol_inv (fst x)"
  then show "pol_forward x y" by (cases x; cases y) (auto intro: pol_step_forward)
qed

end
