(* ===== verification/Policy_Batch.thy ===== *)
theory Policy_Batch
  imports Policy_Run
begin

text \<open>
  The loop of a cooperative purchase: what it adds to the store, entry by entry.
\<close>

text \<open>\<open>minted\<close> says of one entry that the certificate \<open>n\<close> in the store is the one it asked for.\<close>

definition minted :: "u64 \<Rightarrow> u64 \<Rightarrow> PolicyStore \<Rightarrow> BatchEntry \<Rightarrow> u64 \<Rightarrow> bool" where
  "minted p i s e n \<longleftrightarrow> (\<exists>premium net. premium \<le> entry_max_premium e \<and>
     PolicyOf s n = Some (new_policy (entry_owner e) p i (entry_terms e) premium net) \<and>
     MetaPointer s n = Some (entry_metadata e))"

definition last_id :: "PolicyStore \<Rightarrow> u64" where
  "last_id s = unwrap_or (PolicyCounter s) 0"

definition added :: "PolicyStore \<Rightarrow> PolicyStore \<Rightarrow> u64 list \<Rightarrow> bool" where
  "added s s' ns \<longleftrightarrow>
     (\<forall>j<length ns. uint (ns ! j) = uint (last_id s) + 1 + int j) \<and>
     uint (last_id s') = uint (last_id s) + int (length ns) \<and>
     (\<forall>n. n \<notin> set ns \<longrightarrow> PolicyOf s' n = PolicyOf s n \<and> MetaPointer s' n = MetaPointer s n)"

lemma mint_one_added:
  assumes "mint_one client rp env holder payer p i terms maxp md s w = Inr (n, s1, w1)"
  shows "uint n = uint (last_id s) + 1" and "last_id s1 = n"
    and "\<And>m. m \<noteq> n \<Longrightarrow> PolicyOf s1 m = PolicyOf s m \<and> MetaPointer s1 m = MetaPointer s m"
    and "\<exists>premium net. premium \<le> maxp \<and> PolicyOf s1 n = Some (new_policy holder p i terms premium net) \<and>
      MetaPointer s1 n = Some md"
proof -
  obtain premium net where h: "premium \<le> maxp"
    "checked_uadd (unwrap_or (PolicyCounter s) 0) 1 = Some n"
    "s1 = issue n (new_policy holder p i terms premium net) md s"
    by (rule mint_one_ok [OF assms])
  show "uint n = uint (last_id s) + 1"
    using uint_checked_uadd [OF h(2)] by (simp add: last_id_def)
  show "last_id s1 = n" by (simp add: last_id_def h(3) store_simps)
  show "m \<noteq> n \<Longrightarrow> PolicyOf s1 m = PolicyOf s m \<and> MetaPointer s1 m = MetaPointer s m" for m
    by (simp add: h(3) store_simps)
  show "\<exists>premium net. premium \<le> maxp \<and> PolicyOf s1 n = Some (new_policy holder p i terms premium net) \<and>
      MetaPointer s1 n = Some md"
    using h(1) by (auto simp: h(3) store_simps)
qed

lemma mint_entries_added:
  assumes "mint_entries client rp env payer p i es ids0 s w = Inr (ids, s', w')"
  shows "\<exists>ns. ids = ids0 @ ns \<and> added s s' ns \<and> list_all2 (minted p i s') es ns"
  using assms
proof (induction es arbitrary: ids0 s w)
  case Nil
  then show ?case by (simp add: added_def)
next
  case (Cons e es)
  from Cons.prems obtain n s1 w1 where h:
    "mint_one client rp env (entry_owner e) payer p i (entry_terms e) (entry_max_premium e)
       (entry_metadata e) s w = Inr (n, s1, w1)"
    "mint_entries client rp env payer p i es (ids0 @ [n]) s1 w1 = Inr (ids, s', w')"
    by (auto simp: ok_simps split: prod.splits)
  obtain ns where ns: "ids = (ids0 @ [n]) @ ns" "added s1 s' ns" "list_all2 (minted p i s') es ns"
    using Cons.IH [OF h(2)] by blast
  note one = mint_one_added [OF h(1)]
  have later: "uint n < uint m" if m: "m \<in> set ns" for m
  proof -
    from m obtain j where "j < length ns" "m = ns ! j" by (auto simp: in_set_conv_nth)
    then show ?thesis using ns(2) one(2) by (simp add: added_def)
  qed
  then have fresh: "n \<notin> set ns" by auto
  have "minted p i s' e n"
    using one(4) ns(2) fresh unfolding minted_def added_def by metis
  moreover have "added s s' (n # ns)"
    using ns(2) one(1-3) unfolding added_def by (auto simp: nth_Cons split: nat.split)
  ultimately show ?case using ns(1,3) by (intro exI [of _ "n # ns"]) simp
qed

end
