(* ===== verification/Policy_Ledger.thy ===== *)
theory Policy_Ledger
  imports Policy_Run
begin

text \<open>
  The contract between the policy contract and the risk pool: the locale \<open>premium_ledger\<close> states
  what the policy contract relies on of the premiums the pool keeps per season, and its lemma shows
  that the premiums reserved by the certificates that can still be refunded stay covered by them.
\<close>

section \<open>What the certificates of a season have reserved\<close>

definition refundable :: "PolicyRecord option \<Rightarrow> u64 \<times> u64 \<Rightarrow> int" where
  "refundable x k = (case x of None \<Rightarrow> 0 | Some r \<Rightarrow>
     if pol_state r \<noteq> PolCancelled \<and> (pol_pool_id r, pol_season_id r) = k then net_reserved r else 0)"

definition reserved_in :: "PolicyStore \<Rightarrow> u64 \<times> u64 \<Rightarrow> int" where
  "reserved_in s k = (\<Sum>i\<in>UNIV. refundable (PolicyOf s i) k)"

lemma refundable_None [simp]: "refundable None k = 0"
  by (simp add: refundable_def)

lemma reserved_in_update:
  "PolicyOf s' = (PolicyOf s)(i \<mapsto> r) \<Longrightarrow>
   reserved_in s' k = reserved_in s k - refundable (PolicyOf s i) k + refundable (Some r) k"
  unfolding reserved_in_def by (subst sum_point_eq [of i "\<lambda>j. refundable (PolicyOf s' j) k"
    "\<lambda>j. refundable (PolicyOf s j) k"]) simp_all

lemma reserved_in_same: "PolicyOf s' = PolicyOf s \<Longrightarrow> reserved_in s' k = reserved_in s k"
  by (simp add: reserved_in_def)

text \<open>The reserve of a certificate is the part of its premium that fees did not take.\<close>

definition premiums_ok :: "PolicyStore \<Rightarrow> bool" where
  "premiums_ok s \<longleftrightarrow> (\<forall>i r. PolicyOf s i = Some r \<longrightarrow> 0 \<le> net_reserved r \<and> net_reserved r \<le> premium_paid r)"

lemma premiums_ok_update:
  "premiums_ok s \<Longrightarrow> PolicyOf s' = (PolicyOf s)(i \<mapsto> r) \<Longrightarrow> 0 \<le> net_reserved r \<Longrightarrow>
   net_reserved r \<le> premium_paid r \<Longrightarrow> premiums_ok s'"
  by (simp add: premiums_ok_def)

lemma refundable_nonneg: "premiums_ok s \<Longrightarrow> 0 \<le> refundable (PolicyOf s i) k"
  by (auto simp: refundable_def premiums_ok_def split: option.split)

lemma refundable_le_reserved:
  "premiums_ok s \<Longrightarrow> refundable (PolicyOf s i) k \<le> reserved_in s k"
  unfolding reserved_in_def by (rule sum_ge_single) (rule refundable_nonneg)

text \<open>The certificates are well formed, and in every season the ledger state \<open>w\<close> of the provider
  credits at least what they have reserved.\<close>

definition covered ::
    "('w \<Rightarrow> u64 \<times> u64 \<Rightarrow> int) \<Rightarrow> ('w \<Rightarrow> bool) \<Rightarrow> PolicyStore \<Rightarrow> 'w \<Rightarrow> bool" where
  "covered credited ok s w \<longleftrightarrow>
     pol_inv s \<and> premiums_ok s \<and> ok w \<and> (\<forall>k. reserved_in s k \<le> credited w k)"

lemma coveredD:
  assumes "covered credited ok s w"
  shows "pol_inv s" "premiums_ok s" "ok w" "reserved_in s k \<le> credited w k"
  using assms unfolding covered_def by blast+

lemma coveredI:
  assumes "pol_inv s" "premiums_ok s" "ok w" "\<And>k. reserved_in s k \<le> credited w k"
  shows "covered credited ok s w"
  using assms unfolding covered_def by blast

section \<open>The interface\<close>

text \<open>
  \<open>credited w (p, i)\<close> is what the provider in state \<open>w\<close> keeps as the premiums of season \<open>i\<close> of pool
  \<open>p\<close>. A collection credits the net it answers, which the fees leave of the amount; a refund takes
  exactly its amount, which must be there; nothing else lowers the credit.
\<close>

locale premium_ledger =
  fixes client :: "'w RiskPoolClient" and credited :: "'w \<Rightarrow> u64 \<times> u64 \<Rightarrow> int"
    and ok :: "'w \<Rightarrow> bool" and ext :: "'w \<Rightarrow> 'w \<Rightarrow> bool"
  assumes collect_law:
    "ok w \<Longrightarrow> client_collect_premium client env a p i src amount w = Some (net, w') \<Longrightarrow>
       ok w' \<and> 0 \<le> net \<and> net \<le> amount \<and>
       credited w' k = credited w k + (if k = (p, i) then net else 0)"
    and refund_law:
    "ok w \<Longrightarrow> client_refund_premium client env a p i dst net w = Some (n, w') \<Longrightarrow>
       ok w' \<and> n = net \<and> credited w' k = credited w k - (if k = (p, i) then net else 0)"
    and ext_law: "ok w \<Longrightarrow> ext w w' \<Longrightarrow> ok w' \<and> credited w k \<le> credited w' k"
    and credited_nonneg: "ok w \<Longrightarrow> 0 \<le> credited w k"
begin

lemma mint_one_covered:
  assumes "mint_one client rp env holder payer p i terms maxp md s w = Inr (n, s', w')"
    and cov: "covered credited ok s w"
  shows "covered credited ok s' w'"
proof -
  note c = coveredD [OF cov]
  obtain premium net where h:
    "client_collect_premium client (call_env env rp) rp p i payer premium w = Some (net, w')"
    "s' = issue n (new_policy holder p i terms premium net) md s"
    by (rule mint_one_ok [OF assms(1)])
  let ?r = "new_policy holder p i terms premium net"
  note law = collect_law [OF c(3) h(1)] and keep = mint_one_keeps [OF assms(1) c(1)]
  have of_s: "PolicyOf s' = (PolicyOf s)(n \<mapsto> ?r)" by (simp add: h(2) store_simps)
  show ?thesis
  proof (rule coveredI)
    fix k
    have "refundable (Some ?r) k = (if k = (p, i) then net else 0)"
      by (auto simp: refundable_def new_policy_def)
    with law have "credited w' k = credited w k + refundable (Some ?r) k" by simp
    with c(4) [of k] show "reserved_in s' k \<le> credited w' k"
      by (simp add: reserved_in_update [OF of_s] keep(2))
  next
    show "premiums_ok s'"
      using law by (intro premiums_ok_update [OF c(2) of_s]) (simp_all add: new_policy_def)
  qed (use keep(1) law in simp_all)
qed

lemma mint_covered:
  assumes "mint client env buyer p i terms maxp md s w = Inr (n, s', w')"
    and "covered credited ok s w"
  shows "covered credited ok s' w'"
  using assms by (auto elim!: mint_ok intro: mint_one_covered)

lemma mint_batch_covered:
  assumes "mint_batch client env payer p i entries s w = Inr (ids, s', w')"
    and "covered credited ok s w"
  shows "covered credited ok s' w'"
proof -
  obtain rp s1 where h: "mint_entries client rp env payer p i entries [] s w = Inr (ids, s1, w')"
    "s' = pol_publish (BatchMinted payer p i (length entries)) s1"
    by (rule mint_batch_ok [OF assms(1)])
  have "covered credited ok s w \<longrightarrow> covered credited ok s1 w'"
    by (rule mint_entries_relates [OF h(1)]) (blast intro: mint_one_covered)+
  with assms(2) have c: "covered credited ok s1 w'" by blast
  show ?thesis
    by (rule coveredI) (use coveredD [OF c] in
      \<open>auto simp: h(2) store_simps premiums_ok_def reserved_in_def intro: pol_inv_same\<close>)
qed

lemma cancel_covered:
  assumes "cancel client env n s w = Inr (refunded, s', w')" and cov: "covered credited ok s w"
  shows "covered credited ok s' w'"
proof -
  note c = coveredD [OF cov]
  obtain r rp where h: "PolicyOf s n = Some r" "pol_state r = PolActive"
    "client_refund_premium client (call_env env rp) rp (pol_pool_id r) (pol_season_id r)
       (pol_owner r) (net_reserved r) w = Some (refunded, w')"
    "s' = pol_publish (PolicyCancelled n (pol_owner r) refunded)
       (write_policy n (r\<lparr>pol_state := PolCancelled\<rparr>) s)"
    by (rule cancel_ok [OF assms(1)])
  note law = refund_law [OF c(3) h(3)]
  have of_s: "PolicyOf s' = (PolicyOf s)(n \<mapsto> r\<lparr>pol_state := PolCancelled\<rparr>)"
    by (simp add: h(4) store_simps)
  show ?thesis
  proof (rule coveredI)
    fix k
    have "credited w' k = credited w k - refundable (PolicyOf s n) k"
      using law by (auto simp: refundable_def h(1,2))
    moreover have "refundable (Some (r\<lparr>pol_state := PolCancelled\<rparr>)) k = 0"
      by (simp add: refundable_def)
    ultimately show "reserved_in s' k \<le> credited w' k"
      using c(4) [of k] by (simp add: reserved_in_update [OF of_s])
  next
    show "premiums_ok s'"
      using c(2) h(1) by (intro premiums_ok_update [OF c(2) of_s]) (simp_all add: premiums_ok_def)
  qed (use cancel_keeps [OF assms(1) c(1)] law in simp_all)
qed

text \<open>A move that keeps the state of cancellation, the pool, the season and the amounts keeps the
  cover.\<close>

lemma update_covered:
  assumes "covered credited ok s w" and "PolicyOf s n = Some r"
    and "PolicyOf s' = (PolicyOf s)(n \<mapsto> r')" and "pol_inv s'"
    and "pol_terms r' = pol_terms r" and "pol_state r \<noteq> PolCancelled" and "pol_state r' \<noteq> PolCancelled"
  shows "covered credited ok s' w"
proof (rule coveredI)
  note c = coveredD [OF assms(1)]
  show "premiums_ok s'"
    using c(2) assms(2,5)
    by (intro premiums_ok_update [OF c(2) assms(3)]) (auto simp: premiums_ok_def pol_terms_def)
  fix k
  have "refundable (Some r') k = refundable (PolicyOf s n) k"
    using assms(2,5-7) by (simp add: refundable_def pol_terms_def)
  with c(4) [of k] show "reserved_in s' k \<le> credited w k"
    by (simp add: reserved_in_update [OF assms(3)])
qed (use coveredD(3) [OF assms(1)] assms(4) in simp_all)

lemma transition_covered:
  assumes "transition n src dst s = Inr s'" and cov: "covered credited ok s w"
    and "src \<noteq> PolCancelled" and "dst \<noteq> PolCancelled"
  shows "covered credited ok s' w"
  using assms(1)
proof (rule transition_ok)
  fix r
  assume h: "PolicyOf s n = Some r" "pol_state r = src"
    "s' = pol_publish (PolicyStateChanged n dst) (write_policy n (r\<lparr>pol_state := dst\<rparr>) s)"
  show ?thesis
    by (rule update_covered [OF cov h(1), of _ "r\<lparr>pol_state := dst\<rparr>"])
      (use h assms(3,4) transition_keeps [OF assms(1) coveredD(1) [OF cov]] in
        \<open>simp_all add: store_simps pol_terms_def\<close>)
qed

lemma transfer_covered:
  assumes "transfer env n dst s = Inr s'" and cov: "covered credited ok s w"
  shows "covered credited ok s' w"
  using assms(1)
proof (rule transfer_ok)
  fix r
  assume h: "PolicyOf s n = Some r" "pol_state r = PolActive"
    "s' = pol_publish (PolicyTransferred n (pol_owner r) dst)
       (write_policy n (r\<lparr>pol_owner := dst\<rparr>) s)"
  show ?thesis
    by (rule update_covered [OF cov h(1), of _ "r\<lparr>pol_owner := dst\<rparr>"])
      (use h transfer_keeps [OF assms(1) coveredD(1) [OF cov]] in
        \<open>simp_all add: store_simps pol_terms_def\<close>)
qed

lemma quiet_covered:
  assumes "covered credited ok s w" and "PolicyOf s' = PolicyOf s" and "pol_inv s'"
  shows "covered credited ok s' w"
proof (rule coveredI)
  note c = coveredD [OF assms(1)]
  show "premiums_ok s'" using c(2) by (simp add: premiums_ok_def assms(2))
  show "reserved_in s' k \<le> credited w k" for k
    using c(4) [of k] by (simp add: reserved_in_same [OF assms(2)])
qed (use coveredD(3) [OF assms(1)] assms(3) in simp_all)

lemma rest_covered:
  assumes "covered credited ok s w" and "ext w w'"
  shows "covered credited ok s w'"
proof -
  note c = coveredD [OF assms(1)]
  have e: "ok w' \<and> credited w k \<le> credited w' k" for k by (rule ext_law [OF c(3) assms(2)])
  show ?thesis
  proof (rule coveredI)
    show "reserved_in s k \<le> credited w' k" for k using c(4) [of k] e [of k] by linarith
  qed (use c e in simp_all)
qed

lemma pol_step_covered:
  assumes "pol_step client ext me (s, w, now) (s', w', now')" and cov: "covered credited ok s w"
  shows "covered credited ok s' w'"
proof -
  have inv: "pol_inv s'" by (rule pol_step_inv [OF assms(1) coveredD(1) [OF cov]])
  from assms(1) show ?thesis
  proof (elim pol_stepE)
    fix env n md
    assume h: "set_metadata env n md s = Inr s'" and w: "w' = w"
    from h have "PolicyOf s' = PolicyOf s" by (auto elim!: set_metadata_ok)
    then show ?thesis using quiet_covered [OF cov _ inv] w by simp
  next
    fix env p b
    assume h: "set_transferable env p b s = Inr s'" and w: "w' = w"
    from h have "PolicyOf s' = PolicyOf s" by (auto elim!: set_transferable_ok simp: store_simps)
    then show ?thesis using quiet_covered [OF cov _ inv] w by simp
  qed (auto elim!: mark_triggered_ok mark_paid_ok expire_ok
      intro: mint_covered mint_batch_covered cancel_covered transition_covered transfer_covered
        rest_covered cov)
qed

text \<open>The constructor starts covered, on whatever premiums the provider already holds.\<close>

lemma constructor_covered: "ok w \<Longrightarrow> covered credited ok (pol_constructor a rp) w"
  using credited_nonneg
  by (intro coveredI) (auto simp: premiums_ok_def reserved_in_def pol_constructor_def pol_empty_def
      pol_inv_def)

text \<open>So a refund the policy contract can still ask for is one the ledger can give.\<close>

lemma refund_within_credit:
  assumes "covered credited ok s w" and "PolicyOf s n = Some r" and "pol_state r \<noteq> PolCancelled"
  shows "net_reserved r \<le> credited w (pol_pool_id r, pol_season_id r)"
  using coveredD(4) [OF assms(1), of "(pol_pool_id r, pol_season_id r)"]
    refundable_le_reserved [OF coveredD(2) [OF assms(1)], of n "(pol_pool_id r, pol_season_id r)"] assms(2,3)
  by (simp add: refundable_def)

end

text \<open>A provider with these laws makes the policy contract a state machine whose runs stay
  covered.\<close>

sublocale premium_ledger \<subseteq> run: state_machine
  "\<lambda>st. pol_init st \<and> ok (fst (snd st))" "pol_step client ext me"
  "\<lambda>st. covered credited ok (fst st) (fst (snd st))" for me
proof
  fix st
  assume "pol_init st \<and> ok (fst (snd st))"
  then show "covered credited ok (fst st) (fst (snd st))"
    by (auto simp: pol_init_def constructor_covered)
next
  fix st st'
  assume "pol_step client ext me st st'" "covered credited ok (fst st) (fst (snd st))"
  then show "covered credited ok (fst st') (fst (snd st'))"
    by (cases st; cases st') (auto intro: pol_step_covered)
qed

end
