(* ===== verification/VaultContract.thy ===== *)
theory VaultContract
  imports Host Common
begin

text \<open>
  The \<^verbatim>\<open>payout-vault\<close> contract (\<^verbatim>\<open>src/contracts/payout-vault/src/lib.rs\<close>): the payout of a batch of
  policies of a finalized window, the claim ledger, claims, the pause flag and the batch
  checkpoints.

  The trigger engine and the risk pool are called through a client interface: a record of two
  functions on the state \<open>w\<close> of the rest of the ledger, each \<^term>\<open>None\<close> when the call traps. The
  token is the parameter \<open>tk\<close>, acting on the same state.
\<close>

section \<open>The clients\<close>

record 'w VaultClients =
  client_payout_for :: "Env \<Rightarrow> Address \<Rightarrow> u64 \<Rightarrow> u64 \<Rightarrow> i128 \<Rightarrow> 'w \<Rightarrow> i128 option"
  client_pay_out ::
    "Env \<Rightarrow> Address \<Rightarrow> u64 \<Rightarrow> u64 \<Rightarrow> Address \<Rightarrow> i128 \<Rightarrow> 'w \<Rightarrow> (i128 \<times> 'w) option"

section \<open>Data\<close>

definition VAULT_MAX_BATCH :: nat where "VAULT_MAX_BATCH = 20"

datatype BatchState = BatchOpen | BatchInProgress | BatchDone

record PayoutEntry =
  payee_policy :: u64
  payee_owner :: Address
  payee_coverage :: i128

record PayoutRecord =
  payout_owner :: Address
  payout_amount :: i128
  paid_at :: u64

record BatchProgress =
  policies_paid :: u32
  total_disbursed :: i128
  batch_state :: BatchState

datatype VaultError =
    Paused | BatchComplete | NoFinalizedTrigger | PayoutExists | NothingToClaim
  | VaInvalidBatch | InvalidEntry | VaUnauthorized | VaNotInitialized | VaOverflow

fun va_error_code :: "VaultError \<Rightarrow> u32" where
  "va_error_code Paused = 500"
| "va_error_code BatchComplete = 501"
| "va_error_code NoFinalizedTrigger = 502"
| "va_error_code PayoutExists = 503"
| "va_error_code NothingToClaim = 504"
| "va_error_code VaInvalidBatch = 505"
| "va_error_code InvalidEntry = 506"
| "va_error_code VaUnauthorized = 900"
| "va_error_code VaNotInitialized = 902"
| "va_error_code VaOverflow = 903"

datatype VaultEvent =
    PayoutRecorded u64 Address i128
  | Claimed Address i128
  | PauseSet bool

text \<open>The store: the variants of \<^verbatim>\<open>DataKey\<close>, and the events published so far.\<close>

record VaultStore =
  VaAdmin :: "Address option"
  VaPaused :: "bool option"
  BatchOf :: "u64 \<times> u64 \<rightharpoonup> BatchProgress"
  PayoutOf :: "u64 \<rightharpoonup> PayoutRecord"
  PoolRef :: "Address option"
  PolicyRef :: "Address option"
  TriggerRef :: "Address option"
  VaToken :: "Address option"
  ClaimOf :: "Address \<rightharpoonup> i128"
  va_events :: "VaultEvent list"

definition va_empty :: VaultStore where
  "va_empty = \<lparr>VaAdmin = None, VaPaused = None, BatchOf = Map.empty, PayoutOf = Map.empty,
     PoolRef = None, PolicyRef = None, TriggerRef = None, VaToken = None, ClaimOf = Map.empty,
     va_events = []\<rparr>"

definition va_publish :: "VaultEvent \<Rightarrow> VaultStore \<Rightarrow> VaultStore" where
  "va_publish e s = s\<lparr>va_events := va_events s @ [e]\<rparr>"

section \<open>Store access\<close>

definition va_require_admin :: "Env \<Rightarrow> VaultStore \<Rightarrow> (VaultError, Address) result" where
  "va_require_admin env s = require_stored env (VaAdmin s) VaNotInitialized"

definition is_paused_inner :: "VaultStore \<Rightarrow> bool" where
  "is_paused_inner s = unwrap_or (VaPaused s) False"

definition read_ref :: "Address option \<Rightarrow> (VaultError, Address) result" where
  "read_ref stored = ok_or stored VaNotInitialized"

definition read_claim :: "VaultStore \<Rightarrow> Address \<Rightarrow> i128" where
  "read_claim s a = unwrap_or (ClaimOf s a) 0"

definition read_batch :: "VaultStore \<Rightarrow> u64 \<Rightarrow> u64 \<Rightarrow> BatchProgress" where
  "read_batch s idx win = unwrap_or (BatchOf s (idx, win))
     \<lparr>policies_paid = 0, total_disbursed = 0, batch_state = BatchOpen\<rparr>"

section \<open>Construction and the pause flag\<close>

definition va_constructor ::
    "Address \<Rightarrow> Address \<Rightarrow> Address \<Rightarrow> Address \<Rightarrow> Address \<Rightarrow> VaultStore" where
  "va_constructor a pool pol trigger tok = va_empty\<lparr>VaAdmin := Some a, PoolRef := Some pool,
     PolicyRef := Some pol, TriggerRef := Some trigger, VaToken := Some tok, VaPaused := Some False\<rparr>"

definition pause :: "Env \<Rightarrow> VaultStore \<Rightarrow> (VaultError, VaultStore) result" where
  "pause env s = bind_ok (va_require_admin env s) (\<lambda>_.
     Inr (va_publish (PauseSet True) (s\<lparr>VaPaused := Some True\<rparr>)))"

definition unpause :: "Env \<Rightarrow> VaultStore \<Rightarrow> (VaultError, VaultStore) result" where
  "unpause env s = bind_ok (va_require_admin env s) (\<lambda>_.
     Inr (va_publish (PauseSet False) (s\<lparr>VaPaused := Some False\<rparr>)))"

section \<open>Paying a batch\<close>

text \<open>
  One pass of the loop body: \<open>progress\<close> and \<open>paid\<close> are the loop's local variables. The two
  counters are plain \<^verbatim>\<open>u32\<close> additions, which panic on overflow.
\<close>

definition pay_entry ::
    "'w VaultClients \<Rightarrow> Env \<Rightarrow> Address \<Rightarrow> Address \<Rightarrow> u64 \<Rightarrow> u64 \<Rightarrow> u64 \<Rightarrow> u64 \<Rightarrow> PayoutEntry \<Rightarrow>
     BatchProgress \<times> u32 \<times> VaultStore \<times> 'w \<Rightarrow>
     (VaultError, BatchProgress \<times> u32 \<times> VaultStore \<times> 'w) result" where
  "pay_entry clients env pool trigger idx win pool_id season_id entry st =
     (case st of (progress, paid, s, w) \<Rightarrow>
      if PayoutOf s (payee_policy entry) \<noteq> None then Inr (progress, paid, s, w)
      else if payee_coverage entry \<le> 0 then Inl (Err InvalidEntry)
      else
        bind_ok (or_trap (client_payout_for clients (call_env env trigger) trigger idx win
                            (payee_coverage entry) w)) (\<lambda>amount.
        if amount \<le> 0 then Inr (progress, paid, s, w)
        else
          bind_ok (or_trap (client_pay_out clients (call_env env pool) pool pool_id season_id
                              (current_contract env) amount w)) (\<lambda>(_, w).
          bind_ok (ok_or (checked_add (read_claim s (payee_owner entry)) amount) VaOverflow)
            (\<lambda>credited.
          let s = s\<lparr>ClaimOf := (ClaimOf s)(payee_owner entry \<mapsto> credited)\<rparr>;
              record = \<lparr>payout_owner = payee_owner entry, payout_amount = amount,
                        paid_at = timestamp env\<rparr>;
              s = s\<lparr>PayoutOf := (PayoutOf s)(payee_policy entry \<mapsto> record)\<rparr> in
          bind_ok (ok_or (checked_add (total_disbursed progress) amount) VaOverflow) (\<lambda>disbursed.
          let progress = progress\<lparr>total_disbursed := disbursed\<rparr> in
          bind_ok (or_trap (checked_uadd (policies_paid progress) 1)) (\<lambda>policies.
          let progress = progress\<lparr>policies_paid := policies\<rparr> in
          bind_ok (or_trap (checked_uadd paid 1)) (\<lambda>paid.
          Inr (progress, paid,
               va_publish (PayoutRecorded (payee_policy entry) (payee_owner entry) amount) s,
               w))))))))"

fun pay_entries ::
    "'w VaultClients \<Rightarrow> Env \<Rightarrow> Address \<Rightarrow> Address \<Rightarrow> u64 \<Rightarrow> u64 \<Rightarrow> u64 \<Rightarrow> u64 \<Rightarrow> PayoutEntry list \<Rightarrow>
     BatchProgress \<times> u32 \<times> VaultStore \<times> 'w \<Rightarrow>
     (VaultError, BatchProgress \<times> u32 \<times> VaultStore \<times> 'w) result" where
  "pay_entries clients env pool trigger idx win pool_id season_id [] st = Inr st"
| "pay_entries clients env pool trigger idx win pool_id season_id (entry # entries) st =
     bind_ok (pay_entry clients env pool trigger idx win pool_id season_id entry st) (\<lambda>st.
     pay_entries clients env pool trigger idx win pool_id season_id entries st)"

definition pay_batch ::
    "'w VaultClients \<Rightarrow> Env \<Rightarrow> u64 \<Rightarrow> u64 \<Rightarrow> u64 \<Rightarrow> u64 \<Rightarrow> PayoutEntry list \<Rightarrow> VaultStore \<Rightarrow> 'w \<Rightarrow>
     (VaultError, u32 \<times> VaultStore \<times> 'w) result" where
  "pay_batch clients env idx win pool_id season_id entries s w =
     bind_ok (va_require_admin env s) (\<lambda>_.
     if is_paused_inner s then Inl (Err Paused)
     else let cnt = length entries in
     if cnt = 0 \<or> cnt > VAULT_MAX_BATCH then Inl (Err VaInvalidBatch)
     else let progress = read_batch s idx win in
     if batch_state progress = BatchDone then Inl (Err BatchComplete)
     else
       bind_ok (read_ref (PoolRef s)) (\<lambda>pool.
       bind_ok (read_ref (TriggerRef s)) (\<lambda>trigger.
       bind_ok (pay_entries clients env pool trigger idx win pool_id season_id entries
                  (progress, 0, s, w)) (\<lambda>(progress, paid, s, w).
       let progress = (if paid > 0 then progress\<lparr>batch_state := BatchInProgress\<rparr> else progress);
           s = s\<lparr>BatchOf := (BatchOf s)((idx, win) \<mapsto> progress)\<rparr> in
       Inr (paid, s, w)))))"

definition close_batch ::
    "Env \<Rightarrow> u64 \<Rightarrow> u64 \<Rightarrow> VaultStore \<Rightarrow> (VaultError, VaultStore) result" where
  "close_batch env idx win s =
     bind_ok (va_require_admin env s) (\<lambda>_.
     let progress = (read_batch s idx win)\<lparr>batch_state := BatchDone\<rparr> in
     Inr (s\<lparr>BatchOf := (BatchOf s)((idx, win) \<mapsto> progress)\<rparr>))"

section \<open>Claims\<close>

definition claim ::
    "'w transfer_fn \<Rightarrow> Env \<Rightarrow> Address \<Rightarrow> VaultStore \<Rightarrow> 'w \<Rightarrow>
     (VaultError, i128 \<times> VaultStore \<times> 'w) result" where
  "claim tk env holder s w =
     (let amount = read_claim s holder in
      if amount \<le> 0 then Inl (Err NothingToClaim)
      else
        bind_ok (read_ref (VaToken s)) (\<lambda>tok.
        let s = s\<lparr>ClaimOf := (ClaimOf s)(holder \<mapsto> 0)\<rparr> in
        bind_ok (or_trap (tk (call_env env tok) tok (current_contract env) holder amount w)) (\<lambda>w.
        Inr (amount, va_publish (Claimed holder amount) s, w))))"

section \<open>Reads\<close>

definition va_admin :: "VaultStore \<Rightarrow> (VaultError, Address) result" where
  "va_admin s = ok_or (VaAdmin s) VaNotInitialized"

definition is_paused :: "VaultStore \<Rightarrow> bool" where
  "is_paused s = is_paused_inner s"

definition claimable :: "VaultStore \<Rightarrow> Address \<Rightarrow> i128" where
  "claimable s a = read_claim s a"

definition payout :: "VaultStore \<Rightarrow> u64 \<Rightarrow> (VaultError, PayoutRecord) result" where
  "payout s policy_id = ok_or (PayoutOf s policy_id) NoFinalizedTrigger"

definition batch :: "VaultStore \<Rightarrow> u64 \<Rightarrow> u64 \<Rightarrow> BatchProgress" where
  "batch s idx win = read_batch s idx win"

end
