(* ===== verification/Vault_Run.thy ===== *)
theory Vault_Run
  imports VaultContract
begin

text \<open>
  Runs of the payout vault: what the success of each operation means, the step relation over the
  store, the rest of the ledger and the clock, the invariant that ties the claim ledger and the
  batch checkpoints to the payout records, and what only moves forward.
\<close>

section \<open>What success means\<close>

lemma va_publish_fields [store_simps]:
  "VaAdmin (va_publish e s) = VaAdmin s" "VaPaused (va_publish e s) = VaPaused s"
  "BatchOf (va_publish e s) = BatchOf s" "PayoutOf (va_publish e s) = PayoutOf s"
  "PoolRef (va_publish e s) = PoolRef s" "PolicyRef (va_publish e s) = PolicyRef s"
  "TriggerRef (va_publish e s) = TriggerRef s" "VaToken (va_publish e s) = VaToken s"
  "ClaimOf (va_publish e s) = ClaimOf s" "va_events (va_publish e s) = va_events s @ [e]"
  by (simp_all add: va_publish_def)

text \<open>The writes for one entry that is paid.\<close>

definition payout_record :: "PayoutEntry \<Rightarrow> i128 \<Rightarrow> u64 \<Rightarrow> PayoutRecord" where
  "payout_record e amount now =
     \<lparr>payout_owner = payee_owner e, payout_amount = amount, paid_at = now\<rparr>"

definition record_payout :: "PayoutEntry \<Rightarrow> i128 \<Rightarrow> u64 \<Rightarrow> VaultStore \<Rightarrow> VaultStore" where
  "record_payout e amount now s = va_publish (PayoutRecorded (payee_policy e) (payee_owner e) amount)
     (s\<lparr>ClaimOf := (ClaimOf s)(payee_owner e \<mapsto> read_claim s (payee_owner e) + amount),
        PayoutOf := (PayoutOf s)(payee_policy e \<mapsto> payout_record e amount now)\<rparr>)"

lemma record_payout_fields [store_simps]:
  "VaAdmin (record_payout e a now s) = VaAdmin s" "VaPaused (record_payout e a now s) = VaPaused s"
  "BatchOf (record_payout e a now s) = BatchOf s" "PoolRef (record_payout e a now s) = PoolRef s"
  "TriggerRef (record_payout e a now s) = TriggerRef s" "VaToken (record_payout e a now s) = VaToken s"
  "PayoutOf (record_payout e a now s) = (PayoutOf s)(payee_policy e \<mapsto> payout_record e a now)"
  "ClaimOf (record_payout e a now s) =
     (ClaimOf s)(payee_owner e \<mapsto> read_claim s (payee_owner e) + a)"
  "va_events (record_payout e a now s) =
     va_events s @ [PayoutRecorded (payee_policy e) (payee_owner e) a]"
  by (simp_all add: record_payout_def va_publish_def)

lemma pay_entry_ok:
  assumes "pay_entry clients env pool trigger idx win p i e (progress, paid, s, w)
      = Inr (progress', paid', s', w')"
  obtains (recorded) "PayoutOf s (payee_policy e) \<noteq> None"
      "(progress', paid', s', w') = (progress, paid, s, w)"
  | (nothing_due) amount where "PayoutOf s (payee_policy e) = None" "0 < payee_coverage e"
      "client_payout_for clients (call_env env trigger) trigger idx win (payee_coverage e) w
        = Some amount" "amount \<le> 0" "(progress', paid', s', w') = (progress, paid, s, w)"
  | (pays) amount n where "PayoutOf s (payee_policy e) = None" "0 < payee_coverage e"
      "client_payout_for clients (call_env env trigger) trigger idx win (payee_coverage e) w
        = Some amount" "0 < amount"
      "client_pay_out clients (call_env env pool) pool p i (current_contract env) amount w
        = Some (n, w')"
      "in_i128 (read_claim s (payee_owner e) + amount)"
      "in_i128 (total_disbursed progress + amount)"
      "checked_uadd (policies_paid progress) 1 = Some (policies_paid progress')"
      "total_disbursed progress' = total_disbursed progress + amount"
      "batch_state progress' = batch_state progress" "checked_uadd paid 1 = Some paid'"
      "s' = record_payout e amount (timestamp env) s"
proof (cases "PayoutOf s (payee_policy e) = None")
  case False
  then show ?thesis using assms by (intro recorded) (auto simp: pay_entry_def)
next
  case True
  with assms obtain amount where q: "0 < payee_coverage e"
      "client_payout_for clients (call_env env trigger) trigger idx win (payee_coverage e) w
        = Some amount"
    by (auto simp: pay_entry_def Let_def bind_ok_Inr or_trap_Inr not_le split: if_splits)
  show ?thesis
  proof (cases "amount \<le> 0")
    case le: True
    with assms True q show ?thesis by (intro nothing_due [OF True q le]) (simp add: pay_entry_def)
  next
    case gt: False
    with assms True q obtain n where
      "client_pay_out clients (call_env env pool) pool p i (current_contract env) amount w
        = Some (n, w')"
      "in_i128 (read_claim s (payee_owner e) + amount)"
      "in_i128 (total_disbursed progress + amount)"
      "checked_uadd (policies_paid progress) 1 = Some (policies_paid progress')"
      "total_disbursed progress' = total_disbursed progress + amount"
      "batch_state progress' = batch_state progress" "checked_uadd paid 1 = Some paid'"
      "s' = record_payout e amount (timestamp env) s"
      by (auto simp: pay_entry_def Let_def bind_ok_Inr or_trap_Inr ok_or_Inr checked_add_Some
          record_payout_def payout_record_def)
    with True q gt show ?thesis by (intro pays [OF True q]) simp_all
  qed
qed

lemma pay_batch_ok:
  assumes "pay_batch clients env idx win p i entries s w = Inr (paid, s', w')"
  obtains a pool trigger progress s1 where "VaAdmin s = Some a" "require_auth env a"
    "\<not> is_paused_inner s" "entries \<noteq> []" "length entries \<le> 20"
    "batch_state (read_batch s idx win) \<noteq> BatchDone" "PoolRef s = Some pool"
    "TriggerRef s = Some trigger"
    "pay_entries clients env pool trigger idx win p i entries (read_batch s idx win, 0, s, w)
       = Inr (progress, paid, s1, w')"
    "s' = s1\<lparr>BatchOf := (BatchOf s1)((idx, win) \<mapsto>
       (if paid > 0 then progress\<lparr>batch_state := BatchInProgress\<rparr> else progress))\<rparr>"
  using assms
  by (auto simp: pay_batch_def Let_def VAULT_MAX_BATCH_def va_require_admin_def read_ref_def
      bind_ok_Inr ok_or_Inr require_stored_Inr not_less split: prod.splits if_splits intro!: that)

lemma close_batch_ok:
  assumes "close_batch env idx win s = Inr s'"
  obtains a where "VaAdmin s = Some a" "require_auth env a"
    "s' = s\<lparr>BatchOf := (BatchOf s)((idx, win) \<mapsto> (read_batch s idx win)\<lparr>batch_state := BatchDone\<rparr>)\<rparr>"
  using assms by (auto simp: close_batch_def va_require_admin_def Let_def ok_simps intro!: that)

lemma claim_ok:
  assumes "claim tk env holder s w = Inr (n, s', w')"
  obtains tok where "n = read_claim s holder" "0 < n" "VaToken s = Some tok"
    "tk (call_env env tok) tok (current_contract env) holder n w = Some w'"
    "s' = va_publish (Claimed holder n) (s\<lparr>ClaimOf := (ClaimOf s)(holder \<mapsto> 0)\<rparr>)"
  using assms by (auto simp: claim_def read_ref_def Let_def ok_simps not_le intro!: that)

lemma pause_ok:
  assumes "pause env s = Inr s'"
  obtains a where "VaAdmin s = Some a" "require_auth env a"
    "s' = va_publish (PauseSet True) (s\<lparr>VaPaused := Some True\<rparr>)"
  using assms by (auto simp: pause_def va_require_admin_def ok_simps intro!: that)

lemma unpause_ok:
  assumes "unpause env s = Inr s'"
  obtains a where "VaAdmin s = Some a" "require_auth env a"
    "s' = va_publish (PauseSet False) (s\<lparr>VaPaused := Some False\<rparr>)"
  using assms by (auto simp: unpause_def va_require_admin_def ok_simps intro!: that)

section \<open>Steps\<close>

inductive va_step ::
    "'w VaultClients \<Rightarrow> 'w transfer_fn \<Rightarrow> ('w \<Rightarrow> 'w \<Rightarrow> bool) \<Rightarrow> Address \<Rightarrow>
     VaultStore \<times> 'w \<times> u64 \<Rightarrow> VaultStore \<times> 'w \<times> u64 \<Rightarrow> bool"
  for clients tk ext me where
  va_pause: "host_env me env \<Longrightarrow> now \<le> timestamp env \<Longrightarrow> pause env s = Inr s' \<Longrightarrow>
     va_step clients tk ext me (s, w, now) (s', w, timestamp env)"
| va_unpause: "host_env me env \<Longrightarrow> now \<le> timestamp env \<Longrightarrow> unpause env s = Inr s' \<Longrightarrow>
     va_step clients tk ext me (s, w, now) (s', w, timestamp env)"
| va_pay_batch: "host_env me env \<Longrightarrow> now \<le> timestamp env \<Longrightarrow>
     pay_batch clients env idx win p i entries s w = Inr (paid, s', w') \<Longrightarrow>
     va_step clients tk ext me (s, w, now) (s', w', timestamp env)"
| va_close_batch: "host_env me env \<Longrightarrow> now \<le> timestamp env \<Longrightarrow> close_batch env idx win s = Inr s' \<Longrightarrow>
     va_step clients tk ext me (s, w, now) (s', w, timestamp env)"
| va_claim: "host_env me env \<Longrightarrow> now \<le> timestamp env \<Longrightarrow> claim tk env holder s w = Inr (n, s', w') \<Longrightarrow>
     va_step clients tk ext me (s, w, now) (s', w', timestamp env)"
| va_rest: "ext w w' \<Longrightarrow> now \<le> now' \<Longrightarrow> va_step clients tk ext me (s, w, now) (s, w', now')"

inductive_cases va_stepE: "va_step clients tk ext me (s, w, now) (s', w', now')"

definition va_init :: "VaultStore \<times> 'w \<times> u64 \<Rightarrow> bool" where
  "va_init st \<longleftrightarrow> (\<exists>a pool pol trigger tok. fst st = va_constructor a pool pol trigger tok)"

definition va_reachable ::
    "'w VaultClients \<Rightarrow> 'w transfer_fn \<Rightarrow> ('w \<Rightarrow> 'w \<Rightarrow> bool) \<Rightarrow> Address \<Rightarrow>
     VaultStore \<Rightarrow> 'w \<Rightarrow> u64 \<Rightarrow> bool" where
  "va_reachable clients tk ext me s w now \<longleftrightarrow> (\<exists>a pool pol trigger tok w0 t0.
     (va_step clients tk ext me)\<^sup>*\<^sup>* (va_constructor a pool pol trigger tok, w0, t0) (s, w, now))"

lemma va_reachable_step:
  "va_reachable clients tk ext me s w now \<Longrightarrow> va_step clients tk ext me (s, w, now) (s', w', now') \<Longrightarrow>
   va_reachable clients tk ext me s' w' now'"
  unfolding va_reachable_def by (blast intro: rtranclp.rtrancl_into_rtrancl)

section \<open>The invariant\<close>

text \<open>What payout records give an owner, and what an owner has claimed.\<close>

definition owed_by :: "PayoutRecord option \<Rightarrow> Address \<Rightarrow> int" where
  "owed_by x h = (case x of None \<Rightarrow> 0 | Some r \<Rightarrow> if payout_owner r = h then payout_amount r else 0)"

definition granted :: "VaultStore \<Rightarrow> Address \<Rightarrow> int" where
  "granted s h = (\<Sum>i\<in>UNIV. owed_by (PayoutOf s i) h)"

fun claimed_in :: "VaultEvent list \<Rightarrow> Address \<Rightarrow> int" where
  "claimed_in [] h = 0"
| "claimed_in (Claimed a n # es) h = (if a = h then n else 0) + claimed_in es h"
| "claimed_in (_ # es) h = claimed_in es h"

definition amount_of :: "PayoutRecord option \<Rightarrow> int" where
  "amount_of x = (case x of None \<Rightarrow> 0 | Some r \<Rightarrow> payout_amount r)"

definition paid_total :: "VaultStore \<Rightarrow> int" where
  "paid_total s = (\<Sum>i\<in>UNIV. amount_of (PayoutOf s i))"

definition batch_total :: "VaultStore \<Rightarrow> int" where
  "batch_total s = (\<Sum>k\<in>UNIV. total_disbursed (read_batch s (fst k) (snd k)))"

definition batch_count :: "VaultStore \<Rightarrow> int" where
  "batch_count s = (\<Sum>k\<in>UNIV. uint (policies_paid (read_batch s (fst k) (snd k))))"

text \<open>
  Every owner's claim and the sum of his past claims are together what the payout records grant
  him; the batches disbursed exactly the recorded amounts, over exactly the recorded policies.
\<close>

definition va_books :: "VaultStore \<Rightarrow> bool" where
  "va_books s \<longleftrightarrow> (\<forall>h. read_claim s h + claimed_in (va_events s) h = granted s h) \<and>
     (\<forall>h. 0 \<le> read_claim s h) \<and> (\<forall>i r. PayoutOf s i = Some r \<longrightarrow> 0 < payout_amount r)"

definition va_inv :: "VaultStore \<Rightarrow> bool" where
  "va_inv s \<longleftrightarrow> va_books s \<and> batch_total s = paid_total s \<and>
     batch_count s = int (card (dom (PayoutOf s)))"

lemma claimed_in_append [simp]: "claimed_in (xs @ ys) h = claimed_in xs h + claimed_in ys h"
  by (induction xs h rule: claimed_in.induct) simp_all

lemma granted_update:
  "PayoutOf s' = (PayoutOf s)(i \<mapsto> r) \<Longrightarrow>
   granted s' h = granted s h - owed_by (PayoutOf s i) h + owed_by (Some r) h"
  unfolding granted_def by (subst sum_point_eq [of i "\<lambda>j. owed_by (PayoutOf s' j) h"
    "\<lambda>j. owed_by (PayoutOf s j) h"]) simp_all

lemma paid_total_update:
  "PayoutOf s' = (PayoutOf s)(i \<mapsto> r) \<Longrightarrow>
   paid_total s' = paid_total s - amount_of (PayoutOf s i) + payout_amount r"
  unfolding paid_total_def by (subst sum_point_eq [of i "\<lambda>j. amount_of (PayoutOf s' j)"
    "\<lambda>j. amount_of (PayoutOf s j)"]) (simp_all add: amount_of_def)

lemma batch_sum_update:
  assumes "BatchOf s' = (BatchOf s)((idx, win) \<mapsto> b)"
  shows "batch_total s' = batch_total s - total_disbursed (read_batch s idx win) + total_disbursed b"
    and "batch_count s' = batch_count s - uint (policies_paid (read_batch s idx win))
      + uint (policies_paid b)"
proof -
  have off: "read_batch s' (fst k) (snd k) = read_batch s (fst k) (snd k)" if "k \<noteq> (idx, win)" for k
    using that by (auto simp: read_batch_def assms)
  have on: "read_batch s' idx win = b" by (simp add: read_batch_def assms)
  show "batch_total s' = batch_total s - total_disbursed (read_batch s idx win) + total_disbursed b"
    unfolding batch_total_def
    by (subst sum_point_eq [of "(idx, win)" "\<lambda>k. total_disbursed (read_batch s' (fst k) (snd k))"
      "\<lambda>k. total_disbursed (read_batch s (fst k) (snd k))"]) (simp_all add: off on)
  show "batch_count s' = batch_count s - uint (policies_paid (read_batch s idx win))
      + uint (policies_paid b)"
    unfolding batch_count_def
    by (subst sum_point_eq [of "(idx, win)" "\<lambda>k. uint (policies_paid (read_batch s' (fst k) (snd k)))"
      "\<lambda>k. uint (policies_paid (read_batch s (fst k) (snd k)))"]) (simp_all add: off on)
qed

lemma batch_sums_same:
  "BatchOf s' = BatchOf s \<Longrightarrow> batch_total s' = batch_total s"
  "BatchOf s' = BatchOf s \<Longrightarrow> batch_count s' = batch_count s"
  by (simp_all add: batch_total_def batch_count_def read_batch_def)

text \<open>The books survive one recorded payout and one claim.\<close>

lemma read_claim_update:
  "ClaimOf s' = (ClaimOf s)(h \<mapsto> n) \<Longrightarrow> read_claim s' h' = (if h' = h then n else read_claim s h')"
  by (simp add: read_claim_def)

lemma owed_by_record: "owed_by (Some (payout_record e a now)) h = (if payee_owner e = h then a else 0)"
  by (simp add: owed_by_def payout_record_def)

lemma owed_by_None [simp]: "owed_by None h = 0" and amount_of_None [simp]: "amount_of None = 0"
  by (simp_all add: owed_by_def amount_of_def)

lemma record_payout_books:
  assumes "va_books s" and "PayoutOf s (payee_policy e) = None" and "0 < a"
  shows "va_books (record_payout e a now s)"
proof -
  let ?s = "record_payout e a now s"
  have g: "granted ?s h = granted s h + (if payee_owner e = h then a else 0)" for h
    using granted_update [of ?s s "payee_policy e" "payout_record e a now" h] assms(2)
    by (simp add: store_simps owed_by_record)
  have c: "read_claim ?s h = read_claim s h + (if payee_owner e = h then a else 0)" for h
    using read_claim_update [of ?s s "payee_owner e" "read_claim s (payee_owner e) + a" h]
    by (simp add: store_simps)
  show ?thesis
    using assms(1,3) unfolding va_books_def by (auto simp: g c store_simps payout_record_def)
qed

lemma claim_books:
  assumes "va_books s"
  shows "va_books (va_publish (Claimed h (read_claim s h)) (s\<lparr>ClaimOf := (ClaimOf s)(h \<mapsto> 0)\<rparr>))"
    (is "va_books ?s")
proof -
  have "read_claim ?s h' = (if h' = h then 0 else read_claim s h')" for h'
    by (rule read_claim_update) (simp add: store_simps)
  moreover have "granted ?s h' = granted s h'" for h' by (simp add: granted_def store_simps)
  ultimately show ?thesis using assms unfolding va_books_def by (simp add: store_simps add.commute)
qed

lemma va_books_same:
  assumes "va_books s" and "PayoutOf s' = PayoutOf s" and "ClaimOf s' = ClaimOf s"
    and "\<And>h. claimed_in (va_events s') h = claimed_in (va_events s) h"
  shows "va_books s'"
  using assms unfolding va_books_def by (simp add: read_claim_def granted_def)

section \<open>The loop over the entries\<close>

text \<open>
  What a pass of the loop does to its locals and the store, a run of passes does: records are only
  added, the books stay balanced, and the two counters and the disbursed total grow with them.
\<close>

definition payouts_count :: "VaultStore \<Rightarrow> int" where
  "payouts_count s = int (card (dom (PayoutOf s)))"

definition loop_advances ::
    "BatchProgress \<times> u32 \<times> VaultStore \<Rightarrow> BatchProgress \<times> u32 \<times> VaultStore \<Rightarrow> bool" where
  "loop_advances x y \<longleftrightarrow> (case (x, y) of ((pr, paid, s), (pr', paid', s')) \<Rightarrow>
     va_books s \<longrightarrow> va_books s' \<and> PayoutOf s \<subseteq>\<^sub>m PayoutOf s' \<and> BatchOf s' = BatchOf s \<and>
       VaToken s' = VaToken s \<and> PoolRef s' = PoolRef s \<and> TriggerRef s' = TriggerRef s \<and>
       batch_state pr' = batch_state pr \<and>
       total_disbursed pr' - total_disbursed pr = paid_total s' - paid_total s \<and>
       uint (policies_paid pr') - uint (policies_paid pr) = payouts_count s' - payouts_count s \<and>
       uint paid' - uint paid = payouts_count s' - payouts_count s)"

lemma loop_advances_refl: "loop_advances x x"
  by (simp add: loop_advances_def split: prod.split)

lemma loop_advances_trans: "loop_advances x y \<Longrightarrow> loop_advances y z \<Longrightarrow> loop_advances x z"
  unfolding loop_advances_def by (auto intro: map_le_trans)

lemma payouts_count_update:
  "PayoutOf s' = (PayoutOf s)(i \<mapsto> r) \<Longrightarrow> PayoutOf s i = None \<Longrightarrow>
   payouts_count s' = payouts_count s + 1"
  by (simp add: payouts_count_def domIff)

lemma pay_entry_advances:
  assumes "pay_entry clients env pool trigger idx win p i e (pr, paid, s, w) = Inr (pr', paid', s', w')"
  shows "loop_advances (pr, paid, s) (pr', paid', s')"
  using assms
proof (cases rule: pay_entry_ok)
  case (pays amount n)
  then have h: "PayoutOf s' = (PayoutOf s)(payee_policy e \<mapsto> payout_record e amount (timestamp env))"
    by (simp add: store_simps)
  have "payout_amount (payout_record e amount (timestamp env)) = amount"
    by (simp add: payout_record_def)
  then have "paid_total s' = paid_total s + amount"
    using paid_total_update [OF h] pays(1) by simp
  moreover have "payouts_count s' = payouts_count s + 1"
    by (rule payouts_count_update [OF h pays(1)])
  moreover have "PayoutOf s \<subseteq>\<^sub>m PayoutOf s'" using pays(1) by (auto simp: h map_le_def)
  ultimately show ?thesis
    using pays(4,9,10) uint_checked_uadd [OF pays(8)] uint_checked_uadd [OF pays(11)]
      record_payout_books [of s e amount "timestamp env"] pays(1)
    by (simp add: loop_advances_def) (simp add: pays(12) store_simps)
qed (simp_all add: loop_advances_refl)

lemma pay_entries_advances:
  "pay_entries clients env pool trigger idx win p i es (pr, paid, s, w) = Inr (pr', paid', s', w') \<Longrightarrow>
   loop_advances (pr, paid, s) (pr', paid', s')"
proof (induction es arbitrary: pr paid s w)
  case Nil
  then show ?case by (simp add: loop_advances_refl)
next
  case (Cons e es)
  then obtain pr1 paid1 s1 w1 where h:
      "pay_entry clients env pool trigger idx win p i e (pr, paid, s, w) = Inr (pr1, paid1, s1, w1)"
      "pay_entries clients env pool trigger idx win p i es (pr1, paid1, s1, w1)
        = Inr (pr', paid', s', w')"
    by (auto simp: bind_ok_Inr)
  show ?case by (rule loop_advances_trans [OF pay_entry_advances [OF h(1)] Cons.IH [OF h(2)]])
qed

text \<open>What a whole batch does to the store.\<close>

lemma pay_batch_advances:
  assumes "pay_batch clients env idx win p i es s w = Inr (paid, s', w')" and inv: "va_inv s"
  obtains b where "va_inv s'" "PayoutOf s \<subseteq>\<^sub>m PayoutOf s'" "BatchOf s' = (BatchOf s)((idx, win) \<mapsto> b)"
    "batch_state (read_batch s idx win) \<noteq> BatchDone" "batch_state b \<noteq> BatchDone"
    "VaToken s' = VaToken s" "PoolRef s' = PoolRef s" "TriggerRef s' = TriggerRef s"
    "uint paid = payouts_count s' - payouts_count s"
    "total_disbursed b - total_disbursed (read_batch s idx win) = paid_total s' - paid_total s"
    "uint (policies_paid b) = uint (policies_paid (read_batch s idx win)) + uint paid"
proof -
  obtain pool trigger pr s1 where h: "batch_state (read_batch s idx win) \<noteq> BatchDone"
    "pay_entries clients env pool trigger idx win p i es (read_batch s idx win, 0, s, w)
       = Inr (pr, paid, s1, w')"
    "s' = s1\<lparr>BatchOf := (BatchOf s1)((idx, win) \<mapsto>
       (if paid > 0 then pr\<lparr>batch_state := BatchInProgress\<rparr> else pr))\<rparr>"
    by (rule pay_batch_ok [OF assms(1)])
  let ?b = "if paid > 0 then pr\<lparr>batch_state := BatchInProgress\<rparr> else pr"
  have books: "va_books s" using inv by (simp add: va_inv_def)
  have adv: "va_books s1" "PayoutOf s \<subseteq>\<^sub>m PayoutOf s1" "BatchOf s1 = BatchOf s" "VaToken s1 = VaToken s"
      "PoolRef s1 = PoolRef s" "TriggerRef s1 = TriggerRef s"
      "batch_state pr = batch_state (read_batch s idx win)"
      "total_disbursed pr - total_disbursed (read_batch s idx win) = paid_total s1 - paid_total s"
      "uint (policies_paid pr) - uint (policies_paid (read_batch s idx win))
        = payouts_count s1 - payouts_count s" "uint paid = payouts_count s1 - payouts_count s"
    using pay_entries_advances [OF h(2)] books by (simp_all add: loop_advances_def)
  have same: "PayoutOf s' = PayoutOf s1" "ClaimOf s' = ClaimOf s1" "va_events s' = va_events s1"
      "BatchOf s' = (BatchOf s)((idx, win) \<mapsto> ?b)" "VaToken s' = VaToken s1" "PoolRef s' = PoolRef s1"
      "TriggerRef s' = TriggerRef s1"
    by (simp_all add: h(3) adv(3))
  have b: "total_disbursed ?b = total_disbursed pr" "policies_paid ?b = policies_paid pr"
    "batch_state ?b \<noteq> BatchDone"
    using adv(7) h(1) by simp_all
  have tot: "paid_total s' = paid_total s1" "payouts_count s' = payouts_count s1"
    by (simp_all add: paid_total_def payouts_count_def same(1))
  have "va_books s'" by (rule va_books_same [OF adv(1)]) (simp_all add: same)
  then have "va_inv s'"
    using inv adv(8,9) unfolding va_inv_def payouts_count_def [symmetric] batch_sum_update [OF same(4)]
    by (simp add: b tot)
  then show ?thesis
    by (rule that [of ?b]) (use adv same b tot h(1) in simp_all)
qed

section \<open>Every step\<close>

lemma va_inv_same:
  assumes "va_inv s" and "va_books s'" and "PayoutOf s' = PayoutOf s" and "BatchOf s' = BatchOf s"
  shows "va_inv s'"
  using assms by (simp add: va_inv_def batch_sums_same [OF assms(4)] paid_total_def)

lemma flag_inv:
  assumes "va_inv s"
  shows "va_inv (va_publish (PauseSet b) (s\<lparr>VaPaused := f\<rparr>))"
  by (rule va_inv_same [OF assms])
    (use assms in \<open>auto simp: va_inv_def store_simps intro: va_books_same\<close>)

lemma close_batch_inv:
  assumes "close_batch env idx win s = Inr s'" and "va_inv s"
  shows "va_inv s'"
  using assms(1)
proof (rule close_batch_ok)
  fix a
  assume s': "s' = s\<lparr>BatchOf := (BatchOf s)((idx, win) \<mapsto> (read_batch s idx win)\<lparr>batch_state := BatchDone\<rparr>)\<rparr>"
  then have b: "BatchOf s' = (BatchOf s)((idx, win) \<mapsto> (read_batch s idx win)\<lparr>batch_state := BatchDone\<rparr>)"
    by simp
  have "va_books s'"
    by (rule va_books_same [of s]) (use assms(2) in \<open>simp_all add: s' va_inv_def\<close>)
  moreover have "paid_total s' = paid_total s" by (simp add: paid_total_def s')
  ultimately show ?thesis
    using assms(2) by (simp add: va_inv_def batch_sum_update [OF b]) (simp add: s')
qed

lemma claim_inv:
  assumes "claim tk env h s w = Inr (n, s', w')" and "va_inv s"
  shows "va_inv s'"
  using assms(1)
proof (rule claim_ok)
  assume "n = read_claim s h"
    and s': "s' = va_publish (Claimed h n) (s\<lparr>ClaimOf := (ClaimOf s)(h \<mapsto> 0)\<rparr>)"
  then have "va_books s'" using claim_books [of s h] assms(2) by (simp add: va_inv_def)
  then show ?thesis by (rule va_inv_same [OF assms(2)]) (simp_all add: s' store_simps)
qed

lemma va_step_inv:
  assumes "va_step clients tk ext me (s, w, now) (s', w', now')" and "va_inv s"
  shows "va_inv s'"
  using assms(1)
proof cases
  case (va_pay_batch env idx win p i entries paid)
  from pay_batch_advances [OF va_pay_batch(4) assms(2)] show ?thesis by blast
qed (use assms(2) in \<open>auto elim!: pause_ok unpause_ok intro: flag_inv close_batch_inv claim_inv\<close>)

lemma va_inv_constructor: "va_inv (va_constructor a pool pol trigger tok)"
  by (simp add: va_inv_def va_books_def read_claim_def granted_def batch_total_def batch_count_def
      paid_total_def read_batch_def va_constructor_def va_empty_def)

interpretation va: state_machine va_init "va_step clients tk ext me" "\<lambda>st. va_inv (fst st)"
  for clients tk ext me
proof
  fix st :: "VaultStore \<times> 'a \<times> u64"
  assume "va_init st"
  then show "va_inv (fst st)" by (auto simp: va_init_def va_inv_constructor)
next
  fix st st' :: "VaultStore \<times> 'a \<times> u64"
  assume "va_step clients tk ext me st st'" and "va_inv (fst st)"
  then show "va_inv (fst st')" by (cases st; cases st') (auto intro: va_step_inv)
qed

lemma va_reachable_inv: "va_reachable clients tk ext me s w now \<Longrightarrow> va_inv s"
  using va.reachable_inv [of _ clients tk ext me "(s, w, now)"]
  by (fastforce simp: va_reachable_def va_init_def)

section \<open>What only moves forward\<close>

text \<open>A payout record is written once, and a closed batch is never written again but to close it.\<close>

definition va_forward :: "VaultStore \<times> 'w \<times> u64 \<Rightarrow> VaultStore \<times> 'w \<times> u64 \<Rightarrow> bool" where
  "va_forward st st' \<longleftrightarrow> snd (snd st) \<le> snd (snd st') \<and>
     VaToken (fst st') = VaToken (fst st) \<and> PoolRef (fst st') = PoolRef (fst st) \<and>
     TriggerRef (fst st') = TriggerRef (fst st) \<and> PayoutOf (fst st) \<subseteq>\<^sub>m PayoutOf (fst st') \<and>
     (\<forall>idx win. batch_state (read_batch (fst st) idx win) = BatchDone \<longrightarrow>
        read_batch (fst st') idx win = read_batch (fst st) idx win)"

lemma va_forward_refl: "va_forward st st"
  by (simp add: va_forward_def)

lemma va_forward_trans: "va_forward x y \<Longrightarrow> va_forward y z \<Longrightarrow> va_forward x z"
  unfolding va_forward_def by (auto intro: map_le_trans)

lemma va_forward_same:
  assumes "now \<le> now'" and "VaToken s' = VaToken s" and "PoolRef s' = PoolRef s"
    and "TriggerRef s' = TriggerRef s" and "PayoutOf s' = PayoutOf s" and "BatchOf s' = BatchOf s"
  shows "va_forward (s, w, now) (s', w', now')"
  using assms by (simp add: va_forward_def read_batch_def)

lemma va_step_forward:
  assumes "va_step clients tk ext me (s, w, now) (s', w', now')" and inv: "va_inv s"
  shows "va_forward (s, w, now) (s', w', now')"
  using assms(1)
proof cases
  case (va_pay_batch env idx win p i entries paid)
  show ?thesis
  proof (rule pay_batch_advances [OF va_pay_batch(4) inv])
    fix b
    assume h: "PayoutOf s \<subseteq>\<^sub>m PayoutOf s'" "BatchOf s' = (BatchOf s)((idx, win) \<mapsto> b)"
      "batch_state (read_batch s idx win) \<noteq> BatchDone" "VaToken s' = VaToken s"
      "PoolRef s' = PoolRef s" "TriggerRef s' = TriggerRef s"
    then have "read_batch s' j k = read_batch s j k" if "batch_state (read_batch s j k) = BatchDone" for j k
      using that by (cases "(j, k) = (idx, win)") (auto simp: read_batch_def)
    with h va_pay_batch(1,3) show ?thesis by (simp add: va_forward_def)
  qed
next
  case (va_close_batch env idx win)
  then show ?thesis by (auto elim!: close_batch_ok simp: va_forward_def read_batch_def)
qed (auto elim!: pause_ok unpause_ok claim_ok intro!: va_forward_same simp: store_simps)

lemma va_run_forward:
  assumes "va_reachable clients tk ext me s w now"
    and "(va_step clients tk ext me)\<^sup>*\<^sup>* (s, w, now) (s', w', now')"
  shows "va_forward (s, w, now) (s', w', now')"
proof (rule va.run_relates [OF va_forward_refl va_forward_trans _ assms(2)])
  show "va_inv (fst (s, w, now))" using va_reachable_inv [OF assms(1)] by simp
  fix x y :: "VaultStore \<times> 'a \<times> u64"
  assume "va_step clients tk ext me x y" and "va_inv (fst x)"
  then show "va_forward x y" by (cases x; cases y) (auto intro: va_step_forward)
qed

end
