(* ===== verification/Vault_Spec.thy ===== *)
theory Vault_Spec
  imports Vault_Run
begin

text \<open>
  The payout of a batch as a function of what the trigger engine quotes, and the interface to the
  two contracts the vault calls.

  \<open>due\<close> is the specification of the loop: which entries are paid, and how much. The locale
  \<open>payout_source\<close> states what the vault relies on of a provider: a release brings exactly its amount
  into the vault's balance and changes no quote; only the vault's own transfers lower that balance.
\<close>

section \<open>Which entries are due\<close>

fun due :: "(i128 \<Rightarrow> i128 option) \<Rightarrow> u64 set \<Rightarrow> PayoutEntry list \<Rightarrow> (PayoutEntry \<times> i128) list" where
  "due q settled [] = []"
| "due q settled (e # es) =
     (if payee_policy e \<in> settled then due q settled es
      else case q (payee_coverage e) of
          None \<Rightarrow> due q settled es
        | Some a \<Rightarrow> if a \<le> 0 then due q settled es
            else (e, a) # due q (insert (payee_policy e) settled) es)"

text \<open>An entry that a run of the loop leaves behind: recorded, or quoted nothing.\<close>

definition nothing_left :: "(i128 \<Rightarrow> i128 option) \<Rightarrow> u64 set \<Rightarrow> PayoutEntry \<Rightarrow> bool" where
  "nothing_left q settled e \<longleftrightarrow> payee_policy e \<in> settled \<or>
     (0 < payee_coverage e \<and> (\<exists>a\<le>0. q (payee_coverage e) = Some a))"

definition record_all :: "u64 \<Rightarrow> (PayoutEntry \<times> i128) list \<Rightarrow> VaultStore \<Rightarrow> VaultStore" where
  "record_all now ds s = foldl (\<lambda>s (e, a). record_payout e a now s) s ds"

lemma record_all_simps [simp]:
  "record_all now [] s = s"
  "record_all now ((e, a) # ds) s = record_all now ds (record_payout e a now s)"
  by (simp_all add: record_all_def)

lemma due_sound:
  "(e, a) \<in> set (due q settled es) \<Longrightarrow>
   e \<in> set es \<and> payee_policy e \<notin> settled \<and> 0 < a \<and> q (payee_coverage e) = Some a"
  by (induction q settled es rule: due.induct) (auto split: if_splits option.splits)

lemma due_distinct: "distinct (map (payee_policy \<circ> fst) (due q settled es))"
proof (induction q settled es rule: due.induct)
  case (2 q settled e es)
  have "payee_policy e \<notin> (payee_policy \<circ> fst) ` set (due q (insert (payee_policy e) settled) es)"
    using due_sound by fastforce
  with 2 show ?case by (auto split: option.split)
qed simp

text \<open>The store after all recorded payouts.\<close>

lemma record_all_fields:
  "VaAdmin (record_all now ds s) = VaAdmin s" "VaPaused (record_all now ds s) = VaPaused s"
  "BatchOf (record_all now ds s) = BatchOf s" "VaToken (record_all now ds s) = VaToken s"
  "PoolRef (record_all now ds s) = PoolRef s" "TriggerRef (record_all now ds s) = TriggerRef s"
  by (induction ds arbitrary: s) (auto simp: store_simps)

lemma record_all_claim:
  "read_claim (record_all now ds s) h =
     read_claim s h + (\<Sum>(e, a)\<leftarrow>ds. if payee_owner e = h then a else 0)"
proof (induction ds arbitrary: s)
  case (Cons d ds)
  obtain e a where d: "d = (e, a)" by force
  have "read_claim (record_payout e a now s) h = read_claim s h + (if payee_owner e = h then a else 0)"
    using read_claim_update [of "record_payout e a now s" s "payee_owner e" _ h]
    by (simp add: store_simps)
  with Cons.IH show ?case by (simp add: d)
qed simp

lemma record_all_payouts:
  assumes "distinct (map (payee_policy \<circ> fst) ds)"
  shows "PayoutOf (record_all now ds s) =
    PayoutOf s ++ map_of (map (\<lambda>(e, a). (payee_policy e, payout_record e a now)) ds)"
  using assms
proof (induction ds arbitrary: s)
  case (Cons d ds)
  obtain e a where d: "d = (e, a)" by force
  let ?m = "map_of (map (\<lambda>(e, a). (payee_policy e, payout_record e a now)) ds)"
  have "payee_policy e \<notin> dom ?m"
    using Cons.prems by (auto simp: d dom_map_of_conv_image_fst image_iff split: prod.splits)
  then have "(PayoutOf s)(payee_policy e \<mapsto> r) ++ ?m = PayoutOf s ++ ?m(payee_policy e \<mapsto> r)" for r
    by (intro ext) (auto simp: map_add_def domIff split: option.split)
  moreover have "PayoutOf (record_all now ds (record_payout e a now s)) =
      (PayoutOf s)(payee_policy e \<mapsto> payout_record e a now) ++ ?m"
    using Cons.IH [of "record_payout e a now s"] Cons.prems
    by (simp only: record_payout_fields(7) list.map distinct.simps simp_thms)
  ultimately show ?case by (simp only: d record_all_simps list.map map_of.simps prod.case fst_conv snd_conv)
qed simp

section \<open>The loop meets its specification\<close>

text \<open>A release of the pool changes no quote of the trigger engine.\<close>

definition quotes_stable :: "'w VaultClients \<Rightarrow> bool" where
  "quotes_stable clients \<longleftrightarrow> (\<forall>env a p i dst n w m w'.
     client_pay_out clients env a p i dst n w = Some (m, w') \<longrightarrow>
     (\<forall>env' a' idx win c. client_payout_for clients env' a' idx win c w'
        = client_payout_for clients env' a' idx win c w))"

lemma quotes_stableD:
  "quotes_stable clients \<Longrightarrow> client_pay_out clients env a p i dst n w = Some (m, w') \<Longrightarrow>
   client_payout_for clients env' a' idx win c w' = client_payout_for clients env' a' idx win c w"
  unfolding quotes_stable_def by blast

definition quote_in :: "'w VaultClients \<Rightarrow> Env \<Rightarrow> Address \<Rightarrow> u64 \<Rightarrow> u64 \<Rightarrow> 'w \<Rightarrow> i128 \<Rightarrow> i128 option" where
  "quote_in clients env trigger idx win w c =
     client_payout_for clients (call_env env trigger) trigger idx win c w"

lemma pay_entries_due:
  assumes "quotes_stable clients"
  shows "pay_entries clients env pool trigger idx win p i es (pr, paid, s, w) = Inr (pr', paid', s', w') \<Longrightarrow>
    (let ds = due (quote_in clients env trigger idx win w) (dom (PayoutOf s)) es in
     s' = record_all (timestamp env) ds s \<and> uint paid' = uint paid + int (length ds) \<and>
     total_disbursed pr' = total_disbursed pr + sum_list (map snd ds) \<and>
     batch_state pr' = batch_state pr \<and>
     quote_in clients env trigger idx win w' = quote_in clients env trigger idx win w \<and>
     (\<forall>e\<in>set es. nothing_left (quote_in clients env trigger idx win w) (dom (PayoutOf s')) e))"
proof (induction es arbitrary: pr paid s w)
  case Nil
  then show ?case by simp
next
  case (Cons e es)
  let ?q = "quote_in clients env trigger idx win w"
  from Cons.prems obtain pr1 paid1 s1 w1 where h:
      "pay_entry clients env pool trigger idx win p i e (pr, paid, s, w) = Inr (pr1, paid1, s1, w1)"
      "pay_entries clients env pool trigger idx win p i es (pr1, paid1, s1, w1)
        = Inr (pr', paid', s', w')"
    by (auto simp: bind_ok_Inr)
  note IH = Cons.IH [OF h(2), unfolded Let_def]
  let ?ds = "due (quote_in clients env trigger idx win w1) (dom (PayoutOf s1)) es"
  have grow: "dom (PayoutOf s1) \<subseteq> dom (PayoutOf s')"
  proof -
    have "PayoutOf s' = PayoutOf s1 ++ map_of (map (\<lambda>(e, a). (payee_policy e, payout_record e a (timestamp env))) ?ds)"
      using IH record_all_payouts [OF due_distinct] by metis
    then show ?thesis by auto
  qed
  from h(1) show ?case
  proof (cases rule: pay_entry_ok)
    case recorded
    then have "payee_policy e \<in> dom (PayoutOf s)" by auto
    then show ?thesis using recorded(2) IH grow by (auto simp: Let_def nothing_left_def)
  next
    case (nothing_due amount)
    then have "?q (payee_coverage e) = Some amount" by (simp add: quote_in_def)
    then show ?thesis
      using nothing_due IH by (auto simp: Let_def nothing_left_def dom_def)
  next
    case (pays amount n)
    have q1: "quote_in clients env trigger idx win w1 = ?q"
      using quotes_stableD [OF assms pays(5)] by (intro ext) (simp add: quote_in_def)
    have q: "?q (payee_coverage e) = Some amount" using pays(3) by (simp add: quote_in_def)
    have dom1: "dom (PayoutOf s1) = insert (payee_policy e) (dom (PayoutOf s))"
      by (simp add: pays(12) store_simps)
    have ds: "due ?q (dom (PayoutOf s)) (e # es)
        = (e, amount) # due ?q (insert (payee_policy e) (dom (PayoutOf s))) es"
      using pays(1,4) q by (simp add: domIff)
    have c: "s' = record_all (timestamp env) (due ?q (insert (payee_policy e) (dom (PayoutOf s))) es) s1"
      "uint paid' = uint paid1 + int (length (due ?q (insert (payee_policy e) (dom (PayoutOf s))) es))"
      "total_disbursed pr' = total_disbursed pr1
        + sum_list (map snd (due ?q (insert (payee_policy e) (dom (PayoutOf s))) es))"
      "batch_state pr' = batch_state pr1" "quote_in clients env trigger idx win w' = ?q"
      "\<forall>x\<in>set es. nothing_left ?q (dom (PayoutOf s')) x"
      using IH [unfolded q1 dom1] by blast+
    have "nothing_left ?q (dom (PayoutOf s')) e"
      using grow by (auto simp: dom1 nothing_left_def)
    with c(6) have all: "\<forall>x\<in>set (e # es). nothing_left ?q (dom (PayoutOf s')) x" by simp
    show ?thesis
      unfolding Let_def ds record_all_simps pays(12) [symmetric]
      using all c(1-5) uint_checked_uadd [OF pays(11)] pays(9,10) by (intro conjI) simp_all
  qed
qed

text \<open>A batch whose entries are all recorded or quoted nothing changes nothing.\<close>

lemma pay_entries_idle:
  assumes "\<forall>e\<in>set es. nothing_left (quote_in clients env trigger idx win w) (dom (PayoutOf s)) e"
  shows "pay_entries clients env pool trigger idx win p i es (pr, paid, s, w) = Inr (pr, paid, s, w)"
  using assms
proof (induction es)
  case (Cons e es)
  then have "nothing_left (quote_in clients env trigger idx win w) (dom (PayoutOf s)) e" by simp
  then have "pay_entry clients env pool trigger idx win p i e (pr, paid, s, w) = Inr (pr, paid, s, w)"
    by (auto simp: pay_entry_def nothing_left_def quote_in_def)
  with Cons show ?case by simp
qed simp

section \<open>A batch meets its specification\<close>

text \<open>
  \<open>batch_done\<close> relates the store before and after a batch by the list \<open>ds\<close> of what was due: each due
  entry is recorded and credited, the checkpoint counts it, and no entry has anything left.
\<close>

definition batch_done ::
    "u64 \<Rightarrow> u64 \<Rightarrow> u64 \<Rightarrow> (PayoutEntry \<times> i128) list \<Rightarrow> VaultStore \<Rightarrow> VaultStore \<Rightarrow> bool" where
  "batch_done now idx win ds s s' \<longleftrightarrow> (\<exists>b. batch_state b \<noteq> BatchDone \<and>
     total_disbursed b = total_disbursed (read_batch s idx win) + sum_list (map snd ds) \<and>
     s' = (record_all now ds s)\<lparr>BatchOf := (BatchOf s)((idx, win) \<mapsto> b)\<rparr>)"

lemma pay_batch_due:
  assumes "quotes_stable clients"
    and "pay_batch clients env idx win p i es s w = Inr (paid, s', w')" and "TriggerRef s = Some trigger"
  shows "let q = quote_in clients env trigger idx win w; ds = due q (dom (PayoutOf s)) es in
    uint paid = int (length ds) \<and> batch_done (timestamp env) idx win ds s s' \<and>
    quote_in clients env trigger idx win w' = q \<and>
    (\<forall>e\<in>set es. nothing_left q (dom (PayoutOf s')) e)"
proof -
  obtain pool tr pr s1 where h: "batch_state (read_batch s idx win) \<noteq> BatchDone"
    "TriggerRef s = Some tr"
    "pay_entries clients env pool tr idx win p i es (read_batch s idx win, 0, s, w)
       = Inr (pr, paid, s1, w')"
    "s' = s1\<lparr>BatchOf := (BatchOf s1)((idx, win) \<mapsto>
       (if paid > 0 then pr\<lparr>batch_state := BatchInProgress\<rparr> else pr))\<rparr>"
    by (rule pay_batch_ok [OF assms(2)])
  let ?q = "quote_in clients env trigger idx win w"
  let ?ds = "due ?q (dom (PayoutOf s)) es"
  let ?b = "if paid > 0 then pr\<lparr>batch_state := BatchInProgress\<rparr> else pr"
  have tr: "tr = trigger" using h(2) assms(3) by simp
  have d: "s1 = record_all (timestamp env) ?ds s" "uint paid = int (length ?ds)"
    "total_disbursed pr = total_disbursed (read_batch s idx win) + sum_list (map snd ?ds)"
    "batch_state pr = batch_state (read_batch s idx win)"
    "quote_in clients env trigger idx win w' = ?q"
    "\<forall>e\<in>set es. nothing_left ?q (dom (PayoutOf s1)) e"
    using pay_entries_due [OF assms(1) h(3) [unfolded tr]] unfolding Let_def unsigned_0 add_0 by blast+
  have "PayoutOf s' = PayoutOf s1" by (simp add: h(4))
  moreover have "batch_done (timestamp env) idx win ?ds s s'"
    unfolding batch_done_def
    by (rule exI [of _ ?b]) (use d(1,3,4) h(1,4) in \<open>simp add: record_all_fields\<close>)
  ultimately show ?thesis using d(2,5,6) by (simp add: Let_def)
qed

text \<open>What the store then answers.\<close>

lemma batch_done_reads:
  assumes "batch_done now idx win ds s s'"
  shows "read_claim s' h = read_claim s h + (\<Sum>(e, a)\<leftarrow>ds. if payee_owner e = h then a else 0)"
    and "distinct (map (payee_policy \<circ> fst) ds) \<Longrightarrow> PayoutOf s' =
      PayoutOf s ++ map_of (map (\<lambda>(e, a). (payee_policy e, payout_record e a now)) ds)"
    and "total_disbursed (read_batch s' idx win)
      = total_disbursed (read_batch s idx win) + sum_list (map snd ds)"
    and "batch_state (read_batch s' idx win) \<noteq> BatchDone"
    and "VaAdmin s' = VaAdmin s" "VaPaused s' = VaPaused s" "PoolRef s' = PoolRef s"
      "TriggerRef s' = TriggerRef s"
  using assms record_all_claim [of now ds s h] record_all_payouts [of ds now s]
  unfolding batch_done_def by (auto simp: read_claim_def read_batch_def record_all_fields)

text \<open>Paying a batch again pays nothing and leaves everything as it is.\<close>

lemma pay_batch_idle:
  assumes "pay_batch clients env idx win p i es s w = Inr (paid, s', w')" and "quotes_stable clients"
    and "TriggerRef s = Some trigger" and env: "require_auth env' a" "VaAdmin s = Some a"
    and q: "\<And>c. quote_in clients env' trigger idx win w' c = quote_in clients env trigger idx win w' c"
  shows "pay_batch clients env' idx win p' i' es s' w' = Inr (0, s', w')"
proof -
  note due = pay_batch_due [OF assms(2,1,3), unfolded Let_def]
  let ?ds = "due (quote_in clients env trigger idx win w) (dom (PayoutOf s)) es"
  have bd: "batch_done (timestamp env) idx win ?ds s s'" using due by blast
  note reads = batch_done_reads [OF bd]
  have same: "quote_in clients env' trigger idx win w' = quote_in clients env trigger idx win w"
    using due q by (intro ext) simp
  have left: "\<forall>e\<in>set es. nothing_left (quote_in clients env' trigger idx win w') (dom (PayoutOf s')) e"
    unfolding same using due by blast
  obtain pool where first: "\<not> is_paused_inner s" "es \<noteq> []" "length es \<le> 20" "PoolRef s = Some pool"
    by (rule pay_batch_ok [OF assms(1)])
  have idle: "pay_entries clients env' pool trigger idx win p' i' es (read_batch s' idx win, 0, s', w')
      = Inr (read_batch s' idx win, 0, s', w')"
    by (rule pay_entries_idle [OF left])
  obtain b where "BatchOf s' (idx, win) = Some b" using bd unfolding batch_done_def by auto
  then have "s'\<lparr>BatchOf := (BatchOf s')((idx, win) \<mapsto> read_batch s' idx win)\<rparr> = s'"
    by (simp add: read_batch_def fun_upd_idem)
  then show ?thesis
    using first env reads(4-8) assms(3) idle
    by (simp add: pay_batch_def VAULT_MAX_BATCH_def va_require_admin_def require_stored_def
        is_paused_inner_def read_ref_def Let_def)
qed

end
