(* ===== verification/Vault_Ledger.thy ===== *)
theory Vault_Ledger
  imports Vault_Spec
begin

text \<open>
  The contract between the payout vault and the contracts that feed it: the locale \<open>payout_source\<close>
  states what the vault relies on of its token balance, and its lemmas show that the balance covers
  the claims of all owners.
\<close>

section \<open>The claims of all owners\<close>

definition total_claims :: "VaultStore \<Rightarrow> int" where
  "total_claims s = (\<Sum>h\<in>UNIV. read_claim s h)"

lemma total_claims_update:
  assumes "ClaimOf s' = (ClaimOf s)(h \<mapsto> n)"
  shows "total_claims s' = total_claims s - read_claim s h + n"
  unfolding total_claims_def
  by (subst sum_point_eq [of h "read_claim s'" "read_claim s"])
    (simp_all add: read_claim_update [OF assms])

lemma total_claims_same: "ClaimOf s' = ClaimOf s \<Longrightarrow> total_claims s' = total_claims s"
  by (simp add: total_claims_def read_claim_def)

section \<open>The interface\<close>

text \<open>
  \<open>bal w\<close> is the balance of the vault, deployed at \<open>me\<close>, in the settlement asset. A release to the
  vault brings exactly its amount, a transfer by the vault costs at most its amount, and nothing
  else lowers the balance.
\<close>

locale payout_source =
  fixes clients :: "'w VaultClients" and tk :: "'w transfer_fn" and bal :: "'w \<Rightarrow> int"
    and ok :: "'w \<Rightarrow> bool" and ext :: "'w \<Rightarrow> 'w \<Rightarrow> bool" and me :: Address
  assumes release_law:
    "ok w \<Longrightarrow> client_pay_out clients env a p i me n w = Some (m, w') \<Longrightarrow> ok w' \<and> bal w' = bal w + n"
    and claim_law: "ok w \<Longrightarrow> tk env tok me dst n w = Some w' \<Longrightarrow> ok w' \<and> bal w - n \<le> bal w'"
    and ext_law: "ok w \<Longrightarrow> ext w w' \<Longrightarrow> ok w' \<and> bal w \<le> bal w'"
begin

lemma pay_entry_funds:
  assumes "pay_entry clients env pool trigger idx win p i e (pr, paid, s, w) = Inr (pr', paid', s', w')"
    and "current_contract env = me" and "ok w"
  shows "ok w' \<and> bal w' - bal w = total_claims s' - total_claims s"
  using assms(1)
proof (cases rule: pay_entry_ok)
  case (pays amount n)
  have "total_claims s' = total_claims s + amount"
    using total_claims_update [of s' s "payee_owner e"] by (simp add: pays(12) store_simps)
  then show ?thesis using release_law [OF assms(3) pays(5) [unfolded assms(2)]] by simp
qed (use assms(3) in simp_all)

lemma pay_entries_funds:
  "pay_entries clients env pool trigger idx win p i es (pr, paid, s, w) = Inr (pr', paid', s', w') \<Longrightarrow>
   current_contract env = me \<Longrightarrow> ok w \<Longrightarrow>
   ok w' \<and> bal w' - bal w = total_claims s' - total_claims s"
proof (induction es arbitrary: pr paid s w)
  case Nil
  then show ?case by simp
next
  case (Cons e es)
  from Cons.prems(1) obtain pr1 paid1 s1 w1 where h:
      "pay_entry clients env pool trigger idx win p i e (pr, paid, s, w) = Inr (pr1, paid1, s1, w1)"
      "pay_entries clients env pool trigger idx win p i es (pr1, paid1, s1, w1)
        = Inr (pr', paid', s', w')"
    by (auto simp: bind_ok_Inr)
  show ?case
    using pay_entry_funds [OF h(1) Cons.prems(2,3)] Cons.IH [OF h(2) Cons.prems(2)] by simp
qed

text \<open>A batch brings into the vault exactly what it adds to the claims.\<close>

lemma pay_batch_funds:
  assumes "pay_batch clients env idx win p i es s w = Inr (paid, s', w')"
    and "current_contract env = me" and "ok w"
  shows "ok w' \<and> bal w' - bal w = total_claims s' - total_claims s"
proof -
  obtain pool trigger pr s1 where h:
    "pay_entries clients env pool trigger idx win p i es (read_batch s idx win, 0, s, w)
       = Inr (pr, paid, s1, w')"
    "s' = s1\<lparr>BatchOf := (BatchOf s1)((idx, win) \<mapsto>
       (if paid > 0 then pr\<lparr>batch_state := BatchInProgress\<rparr> else pr))\<rparr>"
    by (rule pay_batch_ok [OF assms(1)])
  have "total_claims s' = total_claims s1" by (rule total_claims_same) (simp add: h(2))
  with pay_entries_funds [OF h(1) assms(2,3)] show ?thesis by simp
qed

lemma claim_funds:
  assumes "claim tk env h s w = Inr (n, s', w')" and "current_contract env = me" and "ok w"
  shows "ok w' \<and> total_claims s' = total_claims s - n \<and> bal w - n \<le> bal w'"
  using assms(1)
proof (rule claim_ok)
  fix tok
  assume c: "n = read_claim s h" "tk (call_env env tok) tok (current_contract env) h n w = Some w'"
    "s' = va_publish (Claimed h n) (s\<lparr>ClaimOf := (ClaimOf s)(h \<mapsto> 0)\<rparr>)"
  have "total_claims s' = total_claims s - read_claim s h + 0"
    by (rule total_claims_update) (simp add: c(3) store_simps)
  then show ?thesis using claim_law [OF assms(3) c(2) [unfolded assms(2)]] c(1) by simp
qed

lemma va_step_funds:
  assumes "va_step clients tk ext me (s, w, now) (s', w', now')" and "ok w" and "total_claims s \<le> bal w"
  shows "ok w' \<and> total_claims s' \<le> bal w'"
  using assms(1)
proof cases
  case (va_pay_batch env idx win p i entries paid)
  then show ?thesis
    using pay_batch_funds [OF va_pay_batch(4) _ assms(2)] assms(3) by (simp add: host_env_def)
next
  case (va_claim env holder n)
  then show ?thesis
    using claim_funds [OF va_claim(4) _ assms(2)] assms(3) by (simp add: host_env_def)
next
  case va_rest
  then show ?thesis using ext_law [OF assms(2)] assms(3) by fastforce
qed (use assms(2,3) in \<open>auto elim!: pause_ok unpause_ok close_batch_ok
    simp: total_claims_def read_claim_def store_simps\<close>)

lemma constructor_funds: "total_claims (va_constructor a pool pol trigger tok) = 0"
  by (simp add: total_claims_def read_claim_def va_constructor_def va_empty_def)

end

text \<open>With such a provider the vault is a state machine whose runs keep the claims covered.\<close>

sublocale payout_source \<subseteq> funded: state_machine
  "\<lambda>st. va_init st \<and> ok (fst (snd st)) \<and> 0 \<le> bal (fst (snd st))" "va_step clients tk ext me"
  "\<lambda>st. ok (fst (snd st)) \<and> total_claims (fst st) \<le> bal (fst (snd st))"
proof
  fix st
  assume "va_init st \<and> ok (fst (snd st)) \<and> 0 \<le> bal (fst (snd st))"
  then show "ok (fst (snd st)) \<and> total_claims (fst st) \<le> bal (fst (snd st))"
    by (auto simp: va_init_def constructor_funds)
next
  fix st st'
  assume "va_step clients tk ext me st st'" "ok (fst (snd st)) \<and> total_claims (fst st) \<le> bal (fst (snd st))"
  then show "ok (fst (snd st')) \<and> total_claims (fst st') \<le> bal (fst (snd st'))"
    by (cases st; cases st') (auto dest: va_step_funds)
qed

end
