(* ===== verification/System.thy ===== *)
theory System
  imports RiskPool_Run Oracle_Gates Trigger_Forward Policy_Ledger Vault_Ledger
begin

text \<open>
  The wiring of the contracts: the clients of the policy contract, of the payout vault and of the
  trigger engine built from the models of the contracts they call, and the interpretation of the
  three provider interfaces on them.

  A call through a client runs the callee deployed at the given address, in an environment whose
  current contract is that address; it is \<^term>\<open>None\<close> when the callee fails or no contract of the
  expected kind is deployed there.
\<close>

section \<open>Calls\<close>

definition succeeded :: "('e, 'a) result \<Rightarrow> 'a option" where
  "succeeded r = (case r of Inl _ \<Rightarrow> None | Inr x \<Rightarrow> Some x)"

definition deployed_at :: "Address \<Rightarrow> Env \<Rightarrow> Address \<Rightarrow> bool" where
  "deployed_at c env a \<longleftrightarrow> a = c \<and> current_contract env = c"

lemma succeeded_Some [ok_simps]: "succeeded r = Some x \<longleftrightarrow> r = Inr x"
  by (cases r) (simp_all add: succeeded_def)

lemma succeeded_Inr [simp]: "succeeded (Inr x) = Some x" "succeeded (Inl f) = None"
  by (simp_all add: succeeded_def)

lemma deployed_at_call [simp]: "deployed_at c (call_env env c) c"
  by (simp add: deployed_at_def)

lemma if_None_Some [ok_simps]: "(if b then x else None) = Some y \<longleftrightarrow> b \<and> x = Some y"
  by simp

section \<open>The trigger engine reads the oracle\<close>

definition oracle_client :: "Address \<Rightarrow> OracleStore median_fn" where
  "oracle_client addr s env a region metric =
     (if deployed_at addr env a then succeeded (median env region metric s) else None)"

interpretation feed: median_source "oracle_client addr" "or_reachable to_xdr verify"
  for addr and to_xdr :: "ObservationPayload \<Rightarrow> 'm" and verify
proof
  fix w :: OracleStore and now env a r m v
  assume "or_reachable to_xdr verify w now" and "now \<le> timestamp env"
    and "oracle_client addr w env a r m = Some v"
  then show "0 \<le> v \<and> in_i128 v"
    by (auto simp: oracle_client_def ok_simps dest: median_in_range)
qed

section \<open>The policy contract buys from the risk pool\<close>

text \<open>The rest of the ledger is the store of the risk pool and the token ledger.\<close>

definition pool_client :: "'t transfer_fn \<Rightarrow> Address \<Rightarrow> (RiskPoolStore \<times> 't) RiskPoolClient" where
  "pool_client tk pool = \<lparr>
     client_premium_for = (\<lambda>env a p coverage (s, t).
       if deployed_at pool env a then succeeded (premium_for s p coverage) else None),
     client_collect_premium = (\<lambda>env a p i src amount (s, t).
       if deployed_at pool env a then succeeded (collect_premium tk env p i src amount s t) else None),
     client_refund_premium = (\<lambda>env a p i dst net (s, t).
       if deployed_at pool env a then succeeded (refund_premium tk env p i dst net s t) else None)\<rparr>"

definition premiums_of :: "RiskPoolStore \<times> 't \<Rightarrow> u64 \<times> u64 \<Rightarrow> int" where
  "premiums_of w k = (case SeasonOf (fst w) k of None \<Rightarrow> 0 | Some se \<Rightarrow> premiums_in se)"

definition pool_serves :: "Address \<Rightarrow> RiskPoolStore \<times> 't \<Rightarrow> bool" where
  "pool_serves pol w \<longleftrightarrow> rp_inv (fst w) \<and> PolicyContract (fst w) = Some pol"

text \<open>
  What happens to the pool between two calls of the policy contract \<open>pol\<close>: any invocation of the
  pool but a refund that \<open>pol\<close> has authorized or a change of the registered policy contract.
\<close>

definition pool_rest ::
    "'t transfer_fn \<Rightarrow> ('t \<Rightarrow> 't \<Rightarrow> bool) \<Rightarrow> Address \<Rightarrow> Address \<Rightarrow>
     RiskPoolStore \<times> 't \<Rightarrow> RiskPoolStore \<times> 't \<Rightarrow> bool" where
  "pool_rest tk moves pool pol w w' \<longleftrightarrow> rp_step tk moves pool w w' \<and>
     PolicyContract (fst w') = PolicyContract (fst w) \<and>
     \<not> (\<exists>env p i dst n v. require_auth env pol \<and>
          refund_premium tk env p i dst n (fst w) (snd w) = Inr (v, w'))"

lemma collect_premium_nonneg:
  assumes d: "collect_premium tk env p i src a s t = Inr (n, s', t')" and inv: "rp_inv s"
  shows "0 \<le> n" and "n \<le> a"
proof -
  from d obtain c se tre sol f g where h: "0 < a" "PoolConfigOf s p = Some c"
      "TreasuryOf s p = Some tre"
      "accrue_fee a (protocol_bps (cfg_fee c)) (protocol_fees tre) (protocol_cap (cfg_fee c)) = Inr f"
      "accrue_fee a (publisher_bps (cfg_fee c)) (publisher_fees tre) (publisher_cap (cfg_fee c)) = Inr g"
      "n = a - f - g"
    by (rule collect_premium_ok)
  have "validate_config c = Inr ()" "treasury_ok c tre"
    using rp_invE [OF inv h(2)] h(3) by auto
  from premium_split [OF h(4,5,1) this(2,1)] h(6) show "0 \<le> n" and "n \<le> a" by simp_all
qed

lemma collect_premiums_of:
  assumes "collect_premium tk env p i src a s t = Inr (n, s', t')"
  shows "premiums_of (s', t') k = premiums_of (s, t) k + (if k = (p, i) then n else 0)"
    and "PolicyContract s' = PolicyContract s"
  using assms by (auto elim!: collect_premium_ok simp: premiums_of_def store_simps)

lemma refund_premiums_of:
  assumes "refund_premium tk env p i dst n s t = Inr (v, s', t')"
  shows "premiums_of (s', t') k = premiums_of (s, t) k - (if k = (p, i) then n else 0)"
    and "PolicyContract s' = PolicyContract s" and "v = n"
  using assms by (auto elim!: refund_premium_ok simp: premiums_of_def store_simps)

lemma premiums_of_nonneg: "rp_inv (fst w) \<Longrightarrow> 0 \<le> premiums_of w k"
proof -
  assume inv: "rp_inv (fst w)"
  show "0 \<le> premiums_of w k"
  proof (cases "SeasonOf (fst w) k")
    case (Some se)
    obtain p i where k: "k = (p, i)" by force
    have "PoolConfigOf (fst w) p \<noteq> None"
      using pool_inv_season [of "fst w" p i se] inv Some k by (simp add: rp_inv_def)
    then obtain c where "PoolConfigOf (fst w) p = Some c" by auto
    from rp_invE [OF inv this] Some k have "season_ok se" by (metis (no_types))
    then show ?thesis by (simp add: premiums_of_def Some season_ok_def)
  qed (simp add: premiums_of_def)
qed

text \<open>No invocation but a refund lowers the premiums of a season.\<close>

lemma premiums_of_grow:
  assumes st: "rp_step tk moves pool (s, t) (s', t')" and inv: "rp_inv s"
    and no: "\<not> (\<exists>env p i dst n v. require_auth env pol \<and>
       refund_premium tk env p i dst n s t = Inr (v, s', t'))"
    and pol: "PolicyContract s = Some pol"
  shows "premiums_of (s, t) k \<le> premiums_of (s', t') k"
proof -
  note fs = premiums_of_def store_simps
  have inv': "rp_inv s'" by (rule rp_step_inv [OF st inv])
  from st show ?thesis
  proof (elim rp_stepE)
    fix env c i
    assume h: "create_pool env c s = Inr (i, s')"
    then show ?thesis by (auto elim!: create_pool_ok simp: fs)
  next
    fix env p i
    assume h: "open_season env p s = Inr (i, s')"
    then have "SeasonOf s (p, i) = None" using open_season_keeps(2) [OF h inv] by simp
    then show ?thesis using h by (auto elim!: open_season_ok simp: fs)
  next
    fix env p i src a n
    assume h: "collect_premium tk env p i src a s t = Inr (n, s', t')"
    show ?thesis using collect_premiums_of(1) [OF h, of k] collect_premium_nonneg(1) [OF h inv] by simp
  next
    fix env p i dst n v
    assume h: "refund_premium tk env p i dst n s t = Inr (v, s', t')"
    then have "require_auth env pol" using pol by (auto elim!: refund_premium_ok)
    with h no show ?thesis by blast
  qed (auto elim!: deposit_ok withdraw_ok transition_season_ok pay_out_ok settle_season_ok
      simp: fs set_policy_contract_Inr set_payout_vault_Inr season_moves settle_tranches_frame)
qed

interpretation ledger: premium_ledger "pool_client tk pool" premiums_of "pool_serves pol"
  "pool_rest tk moves pool pol" for tk pool pol moves
proof
  fix w w' :: "RiskPoolStore \<times> 'a" and env a p i src amount net k
  assume ok: "pool_serves pol w"
    and c: "client_collect_premium (pool_client tk pool) env a p i src amount w = Some (net, w')"
  obtain s t s' t' where w: "w = (s, t)" "w' = (s', t')" by (cases w; cases w')
  have inv: "rp_inv s" and pol: "PolicyContract s = Some pol"
    using ok by (simp_all add: pool_serves_def w)
  have d: "collect_premium tk env p i src amount s t = Inr (net, s', t')"
    using c by (simp add: pool_client_def w ok_simps)
  show "pool_serves pol w' \<and> 0 \<le> net \<and> net \<le> amount \<and>
      premiums_of w' k = premiums_of w k + (if k = (p, i) then net else 0)"
    using collect_premium_keeps [OF d inv] collect_premiums_of [OF d] collect_premium_nonneg [OF d inv] pol
    by (simp add: pool_serves_def w)
next
  fix w w' :: "RiskPoolStore \<times> 'a" and env a p i dst net n k
  assume ok: "pool_serves pol w"
    and c: "client_refund_premium (pool_client tk pool) env a p i dst net w = Some (n, w')"
  obtain s t s' t' where w: "w = (s, t)" "w' = (s', t')" by (cases w; cases w')
  have inv: "rp_inv s" and pol: "PolicyContract s = Some pol"
    using ok by (simp_all add: pool_serves_def w)
  have d: "refund_premium tk env p i dst net s t = Inr (n, s', t')"
    using c by (simp add: pool_client_def w ok_simps)
  show "pool_serves pol w' \<and> n = net \<and>
      premiums_of w' k = premiums_of w k - (if k = (p, i) then net else 0)"
    using refund_premium_keeps [OF d inv] refund_premiums_of [OF d] pol by (simp add: pool_serves_def w)
next
  fix w w' :: "RiskPoolStore \<times> 'a" and k
  assume ok: "pool_serves pol w" and e: "pool_rest tk moves pool pol w w'"
  obtain s t s' t' where w: "w = (s, t)" "w' = (s', t')" by (cases w; cases w')
  show "pool_serves pol w' \<and> premiums_of w k \<le> premiums_of w' k"
    using ok e rp_step_inv [of tk moves pool s t s' t'] premiums_of_grow [of tk moves pool s t s' t' pol k]
    by (simp add: pool_serves_def pool_rest_def w)
next
  fix w :: "RiskPoolStore \<times> 'a" and k
  assume "pool_serves pol w"
  then show "0 \<le> premiums_of w k" by (intro premiums_of_nonneg) (simp add: pool_serves_def)
qed

text \<open>The premiums of the pool cover what the certificates of a run can still claim back.\<close>

lemma wired_covered:
  assumes start: "pool_serves me w0"
    and run: "(pol_step (pool_client tk pool) (pool_rest tk moves pool me) me)\<^sup>*\<^sup>*
      (pol_constructor a rp, w0, t0) (s, w, now)"
  shows "covered premiums_of (pool_serves me) s w" and "PolRiskPool s = Some rp"
proof -
  have "pol_init (pol_constructor a rp, w0, t0) \<and> pool_serves me (fst (snd (pol_constructor a rp, w0, t0)))"
    using start by (auto simp: pol_init_def)
  then show "covered premiums_of (pool_serves me) s w"
    using ledger.run.reachable_inv [OF _ run] by simp
  have "pol_reachable (pool_client tk pool) (pool_rest tk moves pool me) me (pol_constructor a rp) w0 t0"
    unfolding pol_reachable_def by blast
  from pol_run_forward [OF this run] show "PolRiskPool s = Some rp"
    by (simp add: pol_forward_def pol_constructor_def)
qed

text \<open>The pool behind a policy contract refunds whatever its reserves still hold while the season runs.\<close>

lemma refund_premium_serves:
  assumes inv: "rp_inv s" and pc: "PolicyContract s = Some pc" "require_auth env pc"
    and c: "PoolConfigOf s p = Some c" and se: "SeasonOf s (p, i) = Some se"
    and sol: "SolvencyOf s p = Some sol" and enough: "n \<le> premiums_in se"
  shows "(\<exists>x. refund_premium tk env p i dst n s t = Inr x) \<longleftrightarrow>
    0 < n \<and> season_state se \<in> {Open, Active} \<and> n \<le> reserves sol \<and>
    tk (call_env env (cfg_token c)) (cfg_token c) (current_contract env) dst n t \<noteq> None"
    (is "?L \<longleftrightarrow> ?R")
proof
  assume ?L
  then obtain v s' t' where "refund_premium tk env p i dst n s t = Inr (v, s', t')" by auto
  then show ?R by (rule refund_premium_ok) (use c se sol in auto)
next
  assume ?R
  moreover have "solvency_ok sol" "season_ok se" using rp_solE [OF inv c sol] rp_invE [OF inv c] se by blast+
  moreover from calculation have "in_i128 (reserves sol - n)" "in_i128 (premiums_in se - n)"
    using enough by (auto simp: solvency_ok_def season_ok_def intro: in_i128_between)
  ultimately show ?L
    using pc c se sol enough
    by (auto simp: refund_premium_def Let_def rp_guards rp_reads require_stored_def ok_or_def
        checked_sub_def checked_def solvency_ok_def write_season_def write_solvency_def)
qed

end
