(* ===== verification/Policy_Demo.thy ===== *)
theory Policy_Demo
  imports Policy_Batch System RiskPool_Demo
begin

text \<open>
  One concrete run of the policy contract against the risk pool of RiskPool_Demo, used to witness
  the theorems: the farmer buys a certificate of coverage 50000 for the quoted premium of 500, of
  which 470 are reserved, and cancels it before its window opens. A second run buys two
  certificates in one batch.
\<close>

definition pol_env :: "u64 \<Rightarrow> Env" where
  "pol_env now = \<lparr>timestamp = now, current_contract = demo_policy, invoker = None, signed = demo_signed\<rparr>"

definition demo_client :: "(RiskPoolStore \<times> book) RiskPoolClient" where
  "demo_client = pool_client book_transfer demo_pool"

definition demo_rest :: "RiskPoolStore \<times> book \<Rightarrow> RiskPoolStore \<times> book \<Rightarrow> bool" where
  "demo_rest = pool_rest book_transfer demo_ext demo_pool demo_policy"

definition demo_terms :: PolicyTerms where
  "demo_terms = \<lparr>term_region = ''KE_NAK'', term_coverage = 50000, term_index_ref = 0,
     term_window_start = 1000, term_window_end = 2000, term_severity_curve = 0\<rparr>"

definition pol_demo0 :: PolicyStore where "pol_demo0 = pol_constructor demo_admin demo_pool"

definition demo_certificate :: PolicyRecord where
  "demo_certificate = new_policy demo_farmer 1 1 demo_terms 500 470"

definition pol_demo1 :: PolicyStore where "pol_demo1 = issue 1 demo_certificate 77 pol_demo0"

definition pol_demo2 :: PolicyStore where
  "pol_demo2 = pol_publish (PolicyCancelled 1 demo_farmer 470)
     (write_policy 1 (demo_certificate\<lparr>pol_state := PolCancelled\<rparr>) pol_demo1)"

text \<open>The pool after the refund.\<close>

definition demo6r :: RiskPoolStore where
  "demo6r = rp_publish (PremiumRefunded 1 1 demo_farmer 470)
     (write_solvency 1 \<lparr>reserves = 1000, committed = 0\<rparr>
       (write_season 1 1 (demo_season Active 0 0) demo6))"

definition demo_ledger6r :: book where "demo_ledger6r = demo_pay demo_pool demo_farmer 470 demo_ledger6"

section \<open>The run\<close>

lemma pol_env_call: "call_env (pol_env now) demo_pool = demo_env now (Some demo_policy)"
  by (simp add: pol_env_def demo_env_def call_env_def)

lemma demo_deployed [simp]: "deployed_at demo_pool (demo_env now caller) demo_pool"
  by (simp add: deployed_at_def demo_env_def)

lemma demo_quote: "premium_for demo5 1 50000 = Inr 500" "premium_for demo6 1 50000 = Inr 500"
  by (simp_all add: premium_for_def rp_reads demo5_reads demo6_reads demo_config_def compute_premium_def
      COVERAGE_UNIT_def BPS_DENOMINATOR_def checked_arith signed_divide_int_def Let_def)

lemmas demo_collect_defs = collect_premium_def rp_reads demo_defs book_transfer_def Let_def
  accrue_fee_def apply_bps_def BPS_DENOMINATOR_def checked_add_def checked_sub_def checked_mul_def
  checked_div_def checked_def in_i128_def store_simps demo_ledger_def demo_ledger3_def
  demo_ledger6_def demo_pay_def demo_season_def

lemma demo_collect_called:
  "collect_premium book_transfer (demo_env 12 (Some demo_policy)) 1 1 demo_farmer 500 demo5 demo_ledger3
     = Inr (470, demo6, demo_ledger6)"
  by (simp add: demo_collect_defs demo5_reads demo6_def)

lemma demo_refund:
  "refund_premium book_transfer (demo_env 20 (Some demo_policy)) 1 1 demo_farmer 470 demo6 demo_ledger6
     = Inr (470, demo6r, demo_ledger6r)"
  by (simp add: refund_premium_def rp_guards require_stored_def rp_reads demo6_reads demo_defs
      book_transfer_def Let_def checked_add_def checked_sub_def checked_def in_i128_def store_simps
      demo_ledger_def demo_ledger3_def demo_ledger6_def demo_ledger6r_def demo_pay_def
      demo_season_def demo6r_def)

lemma demo_mint:
  "mint demo_client (pol_env 12) demo_farmer 1 1 demo_terms 500 77 pol_demo0 (demo5, demo_ledger3)
     = Inr (1, pol_demo1, (demo6, demo_ledger6))"
  using demo_collect_called
  by (simp add: mint_def mint_one_def read_risk_pool_def demo_client_def pool_client_def pol_env_call
      demo_quote checked_uadd_def Let_def pol_demo0_def pol_constructor_def pol_empty_def
      pol_demo1_def issue_def demo_certificate_def new_policy_def write_policy_def pol_publish_def
      demo_terms_def) (simp add: pol_env_def demo_defs)

lemma pol_demo1_reads:
  "PolicyOf pol_demo1 1 = Some demo_certificate" "PolRiskPool pol_demo1 = Some demo_pool"
  by (simp_all add: pol_demo1_def store_simps pol_demo0_def pol_constructor_def pol_empty_def)

lemma demo_cancel:
  "cancel demo_client (pol_env 20) 1 pol_demo1 (demo6, demo_ledger6)
     = Inr (470, pol_demo2, (demo6r, demo_ledger6r))"
  using demo_refund
  by (simp add: cancel_def read_policy_def read_risk_pool_def pol_demo1_reads demo_client_def
      pool_client_def pol_env_call Let_def demo_certificate_def new_policy_def demo_terms_def
      pol_demo2_def) (simp add: pol_env_def demo_defs)

lemma pol_demo_host: "host_env demo_policy (pol_env now)"
  by (simp add: host_env_def no_self_auth_def require_auth_def pol_env_def demo_signed_def demo_policy_def)

lemma pol_env_time [simp]: "timestamp (pol_env now) = now"
  by (simp add: pol_env_def)

lemma pol_demo_step1:
  "pol_step demo_client demo_rest demo_policy (pol_demo0, (demo5, demo_ledger3), 11)
     (pol_demo1, (demo6, demo_ledger6), 12)"
  using pol_step.pol_mint [OF pol_demo_host _ demo_mint, of 11] by simp

lemma pol_demo_step2:
  "pol_step demo_client demo_rest demo_policy (pol_demo1, (demo6, demo_ledger6), 12)
     (pol_demo2, (demo6r, demo_ledger6r), 20)"
  using pol_step.pol_cancel [OF pol_demo_host _ demo_cancel, of 12] by simp

lemma pol_demo_reachable:
  "pol_reachable demo_client demo_rest demo_policy pol_demo0 (demo5, demo_ledger3) 11"
  "pol_reachable demo_client demo_rest demo_policy pol_demo1 (demo6, demo_ledger6) 12"
  "pol_reachable demo_client demo_rest demo_policy pol_demo2 (demo6r, demo_ledger6r) 20"
proof -
  show a: "pol_reachable demo_client demo_rest demo_policy pol_demo0 (demo5, demo_ledger3) 11"
    unfolding pol_reachable_def pol_demo0_def by blast
  show b: "pol_reachable demo_client demo_rest demo_policy pol_demo1 (demo6, demo_ledger6) 12"
    by (rule pol_reachable_step [OF a pol_demo_step1])
  show "pol_reachable demo_client demo_rest demo_policy pol_demo2 (demo6r, demo_ledger6r) 20"
    by (rule pol_reachable_step [OF b pol_demo_step2])
qed

section \<open>A batch\<close>

text \<open>The farmer buys for himself and for a neighbour.\<close>

definition demo_neighbour :: Address where "demo_neighbour = AccountId 3"

definition demo_entries :: "BatchEntry list" where
  "demo_entries = [
     \<lparr>entry_owner = demo_farmer, entry_terms = demo_terms, entry_max_premium = 500, entry_metadata = 77\<rparr>,
     \<lparr>entry_owner = demo_neighbour, entry_terms = demo_terms, entry_max_premium = 600, entry_metadata = 78\<rparr>]"

text \<open>The second premium of 500: the protocol fee is at its cap, the publisher fee is 10.\<close>

definition demo6b :: RiskPoolStore where
  "demo6b = rp_publish (PremiumCollected 1 1 demo_farmer 500 490 0 10)
     (write_solvency 1 \<lparr>reserves = 1960, committed = 0\<rparr>
       (write_season 1 1 (demo_season Active 960 0)
         (write_treasury 1 \<lparr>protocol_fees = 20, publisher_fees = 20\<rparr> demo6)))"

definition demo_ledger6b :: book where "demo_ledger6b = demo_pay demo_farmer demo_pool 500 demo_ledger6"

definition pol_demo_both :: PolicyStore where
  "pol_demo_both = pol_publish (BatchMinted demo_farmer 1 1 2)
     (issue 2 (new_policy demo_neighbour 1 1 demo_terms 500 490) 78 pol_demo1)"

lemma demo_collect_again:
  "collect_premium book_transfer (demo_env 12 (Some demo_policy)) 1 1 demo_farmer 500 demo6 demo_ledger6
     = Inr (490, demo6b, demo_ledger6b)"
  by (simp add: demo_collect_defs demo6_reads demo6b_def demo_ledger6b_def)

lemma demo_mint_one:
  "mint_one demo_client demo_pool (pol_env 12) demo_farmer demo_farmer 1 1 demo_terms 500 77 pol_demo0
     (demo5, demo_ledger3) = Inr (1, pol_demo1, (demo6, demo_ledger6))"
  using demo_mint by (auto elim!: mint_ok simp: pol_demo0_def pol_constructor_def)

lemma demo_mint_two:
  "mint_one demo_client demo_pool (pol_env 12) demo_neighbour demo_farmer 1 1 demo_terms 600 78 pol_demo1
     (demo6, demo_ledger6)
   = Inr (2, issue 2 (new_policy demo_neighbour 1 1 demo_terms 500 490) 78 pol_demo1,
      (demo6b, demo_ledger6b))"
  using demo_collect_again
  by (simp add: mint_one_def demo_client_def pool_client_def pol_env_call demo_quote checked_uadd_def
      Let_def pol_demo1_def issue_def new_policy_def write_policy_def pol_publish_def demo_terms_def)

lemma demo_mint_batch:
  "mint_batch demo_client (pol_env 12) demo_farmer 1 1 demo_entries pol_demo0 (demo5, demo_ledger3)
     = Inr ([1, 2], pol_demo_both, (demo6b, demo_ledger6b))"
proof -
  have "mint_entries demo_client demo_pool (pol_env 12) demo_farmer 1 1 demo_entries [] pol_demo0
      (demo5, demo_ledger3) = Inr ([1, 2], issue 2 (new_policy demo_neighbour 1 1 demo_terms 500 490) 78 pol_demo1,
      (demo6b, demo_ledger6b))"
    by (simp add: demo_entries_def demo_mint_one demo_mint_two)
  moreover have "require_auth (pol_env 12) demo_farmer"
    by (simp add: pol_env_def demo_defs)
  moreover have "read_risk_pool pol_demo0 = Inr demo_pool"
    by (simp add: read_risk_pool_def pol_demo0_def pol_constructor_def)
  moreover have "length demo_entries = 2" by (simp add: demo_entries_def)
  ultimately show ?thesis by (simp add: mint_batch_def MAX_BATCH_def pol_demo_both_def)
qed

lemma demo_pool_serves: "pool_serves demo_policy (demo5, demo_ledger3)"
proof -
  have "rp_inv demo5" by (rule rp_reachable_inv [OF demo_reachable(6)])
  moreover have "PolicyContract demo5 = Some demo_policy"
    by (simp add: demo5_def demo4_def demo3_def demo2_def demo1_def store_simps)
  ultimately show ?thesis by (simp add: pool_serves_def)
qed

end
