(* ===== verification/Policy_Props.thy ===== *)
theory Policy_Props
  imports Policy_Demo
begin

text \<open>
  The properties of the policy contract, each with a witness on the concrete runs of Policy_Demo.
\<close>

section \<open>Purchases\<close>

text \<open>C21. A purchase (FR-POL-1): a \<^verbatim>\<open>mint\<close> succeeds exactly when the buyer has authorized it, the terms
  are valid, the pool quotes a premium within the buyer's limit and collects it from the buyer, and
  an id is left; it then writes one new active certificate with exactly the given terms, the gross
  premium and the net the pool reserved, and touches no other certificate.\<close>

theorem mint_exactly_when:
  assumes "pol_reachable client ext me s w now"
  shows "mint client env buyer p i terms maxp md s w = Inr (n, s', w') \<longleftrightarrow>
    require_auth env buyer \<and> 0 < term_coverage terms \<and>
    term_window_start terms < term_window_end terms \<and>
    (\<exists>rp premium net. risk_pool s = Inr rp \<and>
       client_premium_for client (call_env env rp) rp p (term_coverage terms) w = Some premium \<and>
       premium \<le> maxp \<and>
       client_collect_premium client (call_env env rp) rp p i buyer premium w = Some (net, w') \<and>
       uint n = uint (last_id s) + 1 \<and> policy s n = Inl (Err PolicyNotFound) \<and>
       s' = issue n (new_policy buyer p i terms premium net) md s)"
    (is "?L \<longleftrightarrow> ?R")
proof
  assume l: ?L
  then obtain rp where m: "require_auth env buyer" "PolRiskPool s = Some rp"
    "mint_one client rp env buyer buyer p i terms maxp md s w = Inr (n, s', w')"
    by (rule mint_ok)
  have "PolicyOf s n = None" by (rule mint_one_keeps(2) [OF m(3) pol_reachable_inv [OF assms]])
  then have "policy s n = Inl (Err PolicyNotFound)" by (simp add: policy_def read_policy_def)
  moreover have "risk_pool s = Inr rp" using m(2) by (simp add: risk_pool_def read_risk_pool_def)
  moreover obtain premium net where "0 < term_coverage terms"
    "term_window_start terms < term_window_end terms"
    "client_premium_for client (call_env env rp) rp p (term_coverage terms) w = Some premium"
    "premium \<le> maxp"
    "client_collect_premium client (call_env env rp) rp p i buyer premium w = Some (net, w')"
    "s' = issue n (new_policy buyer p i terms premium net) md s"
    by (rule mint_one_ok [OF m(3)])
  ultimately show ?R using m(1) mint_one_added(1) [OF m(3)] by blast
next
  assume r: ?R
  then obtain rp premium net where h: "PolRiskPool s = Some rp" "require_auth env buyer"
    "client_premium_for client (call_env env rp) rp p (term_coverage terms) w = Some premium"
    "premium \<le> maxp"
    "client_collect_premium client (call_env env rp) rp p i buyer premium w = Some (net, w')"
    "uint n = uint (last_id s) + 1" "s' = issue n (new_policy buyer p i terms premium net) md s"
    by (auto simp: risk_pool_def read_risk_pool_def ok_simps)
  have "checked_uadd (unwrap_or (PolicyCounter s) 0) 1 = Some n"
    using h(6) uint_lt2p [of n] uint_add_lem [of "last_id s" "1"]
    by (simp add: checked_uadd_Some last_id_def word_uint_eq_iff)
  with h r show ?L
    by (simp add: mint_def mint_one_def read_risk_pool_def issue_def new_policy_def write_policy_def
        pol_publish_def Let_def not_le)
qed

theorem mint_exactly_when_witness:
  "policy pol_demo0 1 = Inl (Err PolicyNotFound) \<and> uint (last_id pol_demo0) + 1 = 1"
  using mint_exactly_when [OF pol_demo_reachable(1), of "pol_env 12" demo_farmer 1 1 demo_terms 500 77 1
      pol_demo1 "(demo6, demo_ledger6)"] demo_mint by fastforce

text \<open>C31. A cooperative purchase (FR-POL-4) is the sequence of its purchases: a successful
  \<^verbatim>\<open>mint_batch\<close> was authorized by the payer and has one to twenty entries; it answers one id per
  entry, the next free ones in entry order, each now the active certificate its entry asked for, for
  its owner and within its own limit, and it touches no other certificate.\<close>

theorem mint_batch_mints_entries:
  assumes "mint_batch client env payer p i entries s w = Inr (ids, s', w')"
  shows "require_auth env payer \<and> 1 \<le> length entries \<and> length entries \<le> 20 \<and>
    list_all2 (minted p i s') entries ids \<and>
    (\<forall>j<length ids. uint (ids ! j) = uint (last_id s) + 1 + int j) \<and>
    (\<forall>n. n \<notin> set ids \<longrightarrow> policy s' n = policy s n \<and> metadata_of s' n = metadata_of s n)"
  using assms
proof (rule mint_batch_ok)
  fix rp s1
  assume h: "require_auth env payer" "entries \<noteq> []" "length entries \<le> 20"
    "mint_entries client rp env payer p i entries [] s w = Inr (ids, s1, w')"
    "s' = pol_publish (BatchMinted payer p i (length entries)) s1"
  have a: "added s s1 ids" "list_all2 (minted p i s1) entries ids"
    using mint_entries_added [OF h(4)] by auto
  have "minted p i s' = minted p i s1"
    by (intro ext) (simp add: minted_def h(5) store_simps)
  with a h show ?thesis
    by (simp add: added_def policy_def read_policy_def metadata_of_def store_simps Suc_le_eq)
qed

theorem mint_batch_mints_entries_witness:
  "list_all2 (minted 1 1 pol_demo_both) demo_entries [1, 2] \<and> policy pol_demo_both 3 = policy pol_demo0 3"
  using mint_batch_mints_entries [OF demo_mint_batch] by simp

section \<open>The life of a certificate\<close>



text \<open>C22. A cancellation (FR-POL-3) is authorized by the owner, happens before the window opens, refunds
  exactly the reserved net of the certificate to its owner from its pool and season, and can never
  be repeated: whatever happens afterwards, no later cancellation of that certificate succeeds.\<close>

theorem cancel_refunds_once:
  assumes run: "pol_reachable client ext me s w now" and env: "host_env me env" "now \<le> timestamp env"
    and ok: "cancel client env n s w = Inr (refunded, s', w')"
    and more: "(pol_step client ext me)\<^sup>*\<^sup>* (s', w', timestamp env) (s'', w'', later)"
  shows "(\<exists>r rp. policy s n = Inr r \<and> risk_pool s = Inr rp \<and> require_auth env (pol_owner r) \<and>
      timestamp env < pol_window_start r \<and>
      client_refund_premium client (call_env env rp) rp (pol_pool_id r) (pol_season_id r) (pol_owner r)
        (net_reserved r) w = Some (refunded, w') \<and>
      policy s' n = Inr (r\<lparr>pol_state := PolCancelled\<rparr>)) \<and>
    (\<forall>env'. cancel client env' n s'' w'' = Inl Trap \<or> cancel client env' n s'' w'' = Inl (Err InvalidState))"
proof -
  obtain r rp where h: "PolicyOf s n = Some r" "require_auth env (pol_owner r)"
    "timestamp env < pol_window_start r" "PolRiskPool s = Some rp"
    "client_refund_premium client (call_env env rp) rp (pol_pool_id r) (pol_season_id r)
       (pol_owner r) (net_reserved r) w = Some (refunded, w')"
    "s' = pol_publish (PolicyCancelled n (pol_owner r) refunded)
       (write_policy n (r\<lparr>pol_state := PolCancelled\<rparr>) s)"
    by (rule cancel_ok [OF ok])
  have s': "PolicyOf s' n = Some (r\<lparr>pol_state := PolCancelled\<rparr>)" by (simp add: h(6) store_simps)
  have "pol_reachable client ext me s' w' (timestamp env)"
    by (rule pol_reachable_step [OF run pol_step.pol_cancel [OF env ok]])
  then obtain r' where r': "PolicyOf s'' n = Some r'"
      "policy_advances (timestamp env) later (r\<lparr>pol_state := PolCancelled\<rparr>) r'"
    by (rule pol_forwardD [OF pol_run_forward [OF _ more] s'])
  then have "state_leads PolCancelled (pol_state r')" by (simp add: policy_advances_def)
  then have "pol_state r' \<noteq> PolActive" by (auto simp: state_leads_def)
  then have "cancel client env' n s'' w'' = Inl Trap \<or>
      cancel client env' n s'' w'' = Inl (Err InvalidState)" for env'
    by (simp add: cancel_def read_policy_def r'(1))
  moreover have "policy s n = Inr r" "policy s' n = Inr (r\<lparr>pol_state := PolCancelled\<rparr>)"
    "risk_pool s = Inr rp"
    using h(1,4) s' by (simp_all add: policy_def read_policy_def risk_pool_def read_risk_pool_def)
  ultimately show ?thesis using h(2,3,5) by blast
qed

theorem cancel_refunds_once_witness:
  "cancel demo_client (pol_env 21) 1 pol_demo2 (demo6r, demo_ledger6r) \<in>
     {Inl Trap, Inl (Err InvalidState)}"
proof -
  have "12 \<le> timestamp (pol_env 20)" by simp
  from cancel_refunds_once [OF pol_demo_reachable(2) pol_demo_host this demo_cancel rtranclp.rtrancl_refl]
  show ?thesis by blast
qed

end
