(* ===== verification/System_Vault.thy ===== *)
theory System_Vault
  imports System
begin

text \<open>
  The payout vault wired to the trigger engine and the risk pool. The rest of the ledger is the store
  of the trigger engine, the store of the risk pool and the token ledger. The provider interface of
  the vault is interpreted twice: for the vault's balance in the settlement asset, and for the
  payouts the seasons of the pool have booked.
\<close>

section \<open>The clients of the vault\<close>

type_synonym 't vault_world = "TriggerStore \<times> RiskPoolStore \<times> 't"

definition vault_clients :: "'t transfer_fn \<Rightarrow> Address \<Rightarrow> Address \<Rightarrow> 't vault_world VaultClients" where
  "vault_clients tk engine pool = \<lparr>
     client_payout_for = (\<lambda>env a idx win coverage (te, s, t).
       if deployed_at engine env a then succeeded (payout_for idx win coverage te) else None),
     client_pay_out = (\<lambda>env a p i dst amount (te, s, t).
       if deployed_at pool env a
       then map_option (\<lambda>(n, s, t). (n, te, s, t)) (succeeded (pay_out tk env p i dst amount s t))
       else None)\<rparr>"

text \<open>The token acts on its own part of the ledger.\<close>

definition vault_token :: "'t transfer_fn \<Rightarrow> 't vault_world transfer_fn" where
  "vault_token tk env tok src dst amount w =
     (case w of (te, s, t) \<Rightarrow> map_option (\<lambda>t. (te, s, t)) (tk env tok src dst amount t))"

lemma client_pay_out_Some:
  "client_pay_out (vault_clients tk engine pool) env a p i dst n (te, s, t) = Some (m, te', s', t') \<longleftrightarrow>
     deployed_at pool env a \<and> pay_out tk env p i dst n s t = Inr (m, s', t') \<and> te' = te"
  by (auto simp: vault_clients_def ok_simps)

lemma client_payout_for_Some:
  "client_payout_for (vault_clients tk engine pool) env a idx win c (te, s, t) = Some x \<longleftrightarrow>
     deployed_at engine env a \<and> payout_for idx win c te = Inr x"
  by (auto simp: vault_clients_def ok_simps)

lemma vault_token_Some:
  "vault_token tk env tok src dst n (te, s, t) = Some (te', s', t') \<longleftrightarrow>
     te' = te \<and> s' = s \<and> tk env tok src dst n t = Some t'"
  by (auto simp: vault_token_def)

lemma vault_quotes_stable: "quotes_stable (vault_clients tk engine pool)"
  by (auto simp: quotes_stable_def client_pay_out_Some) (simp add: vault_clients_def)

text \<open>A batch leaves the trigger engine as it was.\<close>

lemma pay_entry_engine:
  assumes "pay_entry (vault_clients tk engine pool) env pl tr idx win p i e (pr, paid, s, (te, rp, t))
      = Inr (pr', paid', s', (te', rp', t'))"
  shows "te' = te"
  using assms by (cases rule: pay_entry_ok) (simp_all add: client_pay_out_Some)

lemma pay_entries_engine:
  "pay_entries (vault_clients tk engine pool) env pl tr idx win p i es (pr, paid, s, (te, rp, t))
     = Inr (pr', paid', s', (te', rp', t')) \<Longrightarrow> te' = te"
proof (induction es arbitrary: pr paid s te rp t)
  case (Cons e es)
  then obtain pr1 paid1 s1 te1 rp1 t1 where
      "pay_entry (vault_clients tk engine pool) env pl tr idx win p i e (pr, paid, s, (te, rp, t))
        = Inr (pr1, paid1, s1, (te1, rp1, t1))"
      "pay_entries (vault_clients tk engine pool) env pl tr idx win p i es (pr1, paid1, s1, (te1, rp1, t1))
        = Inr (pr', paid', s', (te', rp', t'))"
    by (auto simp: bind_ok_Inr)
  with Cons.IH show ?case using pay_entry_engine by metis
qed simp

lemma pay_batch_engine:
  "pay_batch (vault_clients tk engine pool) env idx win p i es s (te, rp, t) = Inr (paid, s', (te', rp', t'))
   \<Longrightarrow> te' = te"
  by (auto elim!: pay_batch_ok dest: pay_entries_engine)

section \<open>The vault's balance\<close>

definition vault_balance :: "'t balance_fn \<Rightarrow> Address \<Rightarrow> Address \<Rightarrow> 't vault_world \<Rightarrow> int" where
  "vault_balance bal tok vault w = bal (snd (snd w)) tok vault"

text \<open>
  The wiring the vault needs: the token contract behaves as documented, the pool is another
  contract, and every pool it serves is in the vault's settlement asset.
\<close>

definition vault_wiring ::
    "'t transfer_fn \<Rightarrow> 't balance_fn \<Rightarrow> Address \<Rightarrow> Address \<Rightarrow> Address \<Rightarrow> 't vault_world \<Rightarrow> bool" where
  "vault_wiring tk bal tok pool vault w \<longleftrightarrow> sac_transfer tk bal \<and> pool \<noteq> vault \<and>
     (\<forall>p c. PoolConfigOf (fst (snd w)) p = Some c \<longrightarrow> cfg_token c = tok)"

text \<open>
  What happens between two calls of the vault: anything that opens no pool in another asset and
  moves nothing out of the vault's balance, which only the vault can authorize.
\<close>

definition vault_rest ::
    "'t balance_fn \<Rightarrow> Address \<Rightarrow> Address \<Rightarrow> 't vault_world \<Rightarrow> 't vault_world \<Rightarrow> bool" where
  "vault_rest bal tok vault w w' \<longleftrightarrow> vault_balance bal tok vault w \<le> vault_balance bal tok vault w' \<and>
     (\<forall>p c. PoolConfigOf (fst (snd w')) p = Some c \<longrightarrow> cfg_token c = tok)"

text \<open>A payout of the pool reaches the vault in full; a transfer of the vault costs it its amount.\<close>

lemma vault_pay_out_credits:
  assumes ok: "vault_wiring tk bal tok pool vault w"
    and c: "client_pay_out (vault_clients tk engine pool) env a p i vault n w = Some (m, w')"
  shows "vault_wiring tk bal tok pool vault w' \<and>
    vault_balance bal tok vault w' = vault_balance bal tok vault w + n"
proof -
  obtain te s t te' s' t' where w: "w = (te, s, t)" "w' = (te', s', t')"
    by (cases w; cases w') auto
  have sac: "sac_transfer tk bal" and ne: "pool \<noteq> vault"
    and toks: "\<And>p c. PoolConfigOf s p = Some c \<Longrightarrow> cfg_token c = tok"
    using ok by (auto simp: vault_wiring_def w)
  have at: "current_contract env = pool" and d: "pay_out tk env p i vault n s t = Inr (m, s', t')"
    using c by (auto simp: w client_pay_out_Some deployed_at_def)
  from d show ?thesis
  proof (rule pay_out_ok)
    fix c se sol
    assume h: "PoolConfigOf s p = Some c"
      "tk (call_env env (cfg_token c)) (cfg_token c) (current_contract env) vault n t = Some t'"
      "s' = rp_publish (PayoutReleased p i vault n)
            (write_solvency p (sol\<lparr>reserves := reserves sol - n\<rparr>)
              (write_season p i (se\<lparr>payouts_paid := payouts_paid se + n\<rparr>) s))"
    have "bal t' tok vault = bal t tok vault + n"
      using sac_transferD [OF sac h(2), of tok vault] toks [OF h(1)] ne at by simp
    moreover have "PoolConfigOf s' = PoolConfigOf s" by (simp add: h(3) store_simps)
    ultimately show ?thesis using sac ne toks by (simp add: vault_wiring_def vault_balance_def w)
  qed
qed

lemma vault_token_debits:
  assumes ok: "vault_wiring tk bal tok pool vault w"
    and c: "vault_token tk env tok' vault dst n w = Some w'"
  shows "vault_wiring tk bal tok pool vault w' \<and>
    vault_balance bal tok vault w - n \<le> vault_balance bal tok vault w'"
proof -
  obtain te s t te' s' t' where w: "w = (te, s, t)" "w' = (te', s', t')"
    by (cases w; cases w') auto
  have sac: "sac_transfer tk bal" using ok by (simp add: vault_wiring_def)
  have d: "te' = te" "s' = s" "tk env tok' vault dst n t = Some t'"
    using c by (simp_all add: w vault_token_Some)
  have "0 \<le> n" using sac d(3) unfolding sac_transfer_def by blast
  then show ?thesis
    using ok sac_transferD [OF sac d(3), of tok vault]
    by (simp add: vault_wiring_def vault_balance_def w d)
qed

interpretation purse: payout_source "vault_clients tk engine pool" "vault_token tk"
  "vault_balance bal tok vault" "vault_wiring tk bal tok pool vault" "vault_rest bal tok vault" vault
  for tk engine pool bal tok vault
  by unfold_locales
    (erule (1) vault_pay_out_credits, erule (1) vault_token_debits,
     auto simp: vault_wiring_def vault_rest_def)

lemma wired_claims_covered:
  assumes sac: "sac_transfer tk bal" and other: "pool \<noteq> me"
    and start: "\<forall>p c. PoolConfigOf (fst (snd w0)) p = Some c \<longrightarrow> cfg_token c = tok"
      "0 \<le> vault_balance bal tok me w0"
    and run: "(va_step (vault_clients tk engine pool) (vault_token tk) (vault_rest bal tok me) me)\<^sup>*\<^sup>*
      (va_constructor a pl pol tr tok, w0, t0) (s, w, now)"
  shows "total_claims s \<le> vault_balance bal tok me w"
proof -
  have init: "va_init (va_constructor a pl pol tr tok, w0, t0) \<and>
      vault_wiring tk bal tok pool me (fst (snd (va_constructor a pl pol tr tok, w0, t0))) \<and>
      0 \<le> vault_balance bal tok me (fst (snd (va_constructor a pl pol tr tok, w0, t0)))"
    using sac other start unfolding va_init_def vault_wiring_def fst_conv snd_conv by blast
  show ?thesis using purse.funded.reachable_inv [OF init run] by simp
qed

section \<open>The payouts the pool has booked\<close>

definition paid_in :: "Season option \<Rightarrow> int" where
  "paid_in x = (case x of None \<Rightarrow> 0 | Some se \<Rightarrow> payouts_paid se)"

definition booked_payouts :: "'t vault_world \<Rightarrow> int" where
  "booked_payouts w = (\<Sum>k\<in>UNIV. paid_in (SeasonOf (fst (snd w)) k))"

definition pool_books :: "'t vault_world \<Rightarrow> 't vault_world \<Rightarrow> bool" where
  "pool_books w w' \<longleftrightarrow> booked_payouts w \<le> booked_payouts w'"

lemma pay_out_booked:
  assumes "pay_out tk env p i dst n s t = Inr (m, s', t')"
  shows "booked_payouts (te, s', t') = booked_payouts (te, s, t) + n"
  using assms
proof (rule pay_out_ok)
  fix c se sol
  assume h: "SeasonOf s (p, i) = Some se"
    "s' = rp_publish (PayoutReleased p i dst n)
            (write_solvency p (sol\<lparr>reserves := reserves sol - n\<rparr>)
              (write_season p i (se\<lparr>payouts_paid := payouts_paid se + n\<rparr>) s))"
  have of_s: "SeasonOf s' = (SeasonOf s)((p, i) \<mapsto> se\<lparr>payouts_paid := payouts_paid se + n\<rparr>)"
    by (simp add: h(2) store_simps)
  have "(\<Sum>k\<in>UNIV. paid_in (SeasonOf s' k)) = (\<Sum>k\<in>UNIV. paid_in (SeasonOf s k))
      - paid_in (SeasonOf s (p, i)) + paid_in (SeasonOf s' (p, i))"
    by (rule sum_point_eq) (simp add: of_s)
  then show ?thesis by (simp add: booked_payouts_def of_s h(1) paid_in_def)
qed

interpretation booked: payout_source "vault_clients tk engine pool" "vault_token tk"
  booked_payouts "\<lambda>_. sac_transfer tk bal" pool_books vault
  for tk engine pool bal vault
proof
  fix w w' :: "'a vault_world" and env a p i n m
  assume "sac_transfer tk bal"
    and c: "client_pay_out (vault_clients tk engine pool) env a p i vault n w = Some (m, w')"
  obtain te s t te' s' t' where w: "w = (te, s, t)" "w' = (te', s', t')"
    by (cases w; cases w') auto
  show "sac_transfer tk bal \<and> booked_payouts w' = booked_payouts w + n"
    using c pay_out_booked [of tk env p i vault n s t m s' t' te] \<open>sac_transfer tk bal\<close>
    by (simp add: w client_pay_out_Some)
next
  fix w w' :: "'a vault_world" and env tok dst n
  assume sac: "sac_transfer tk bal" and c: "vault_token tk env tok vault dst n w = Some w'"
  obtain te s t te' s' t' where w: "w = (te, s, t)" "w' = (te', s', t')"
    by (cases w; cases w') auto
  have d: "s' = s" "tk env tok vault dst n t = Some t'" using c by (simp_all add: w vault_token_Some)
  have "0 \<le> n" using sac d(2) unfolding sac_transfer_def by blast
  then show "sac_transfer tk bal \<and> booked_payouts w - n \<le> booked_payouts w'"
    using sac by (simp add: w d(1) booked_payouts_def)
next
  fix w w' :: "'a vault_world"
  assume "sac_transfer tk bal" and "pool_books w w'"
  then show "sac_transfer tk bal \<and> booked_payouts w \<le> booked_payouts w'" by (simp add: pool_books_def)
qed

section \<open>The payouts of a batch\<close>

text \<open>What the trigger engine in state \<open>te\<close> quotes for a coverage.\<close>

definition engine_quote :: "TriggerStore \<Rightarrow> u64 \<Rightarrow> u64 \<Rightarrow> i128 \<Rightarrow> i128 option" where
  "engine_quote te idx win coverage = succeeded (payout_for idx win coverage te)"

lemma quote_in_engine:
  "quote_in (vault_clients tk engine pool) env engine idx win (te, rp, t) = engine_quote te idx win"
  by (intro ext) (simp add: quote_in_def vault_clients_def engine_quote_def)

text \<open>A policy newly paid by a batch was named by an entry that the engine quotes a positive amount.\<close>

lemma pay_batch_new_payout:
  assumes ref: "TriggerRef s = Some engine"
    and ok: "pay_batch (vault_clients tk engine pool) env idx win p i entries s (te, rp, t) = Inr (paid, s', w')"
    and fresh: "PayoutOf s n = None" and rec: "PayoutOf s' n = Some r"
  obtains e a where "e \<in> set entries" "payee_policy e = n" "r = payout_record e a (timestamp env)"
    "0 < a" "payout_for idx win (payee_coverage e) te = Inr a"
proof -
  let ?ds = "due (engine_quote te idx win) (dom (PayoutOf s)) entries"
  have "batch_done (timestamp env) idx win ?ds s s'"
    using pay_batch_due [OF vault_quotes_stable ok ref] by (simp add: Let_def quote_in_engine)
  then have "PayoutOf s' = PayoutOf s ++
      map_of (map (\<lambda>(e, a). (payee_policy e, payout_record e a (timestamp env))) ?ds)"
    by (rule batch_done_reads(2) [OF _ due_distinct])
  with fresh rec have "map_of (map (\<lambda>(e, a). (payee_policy e, payout_record e a (timestamp env))) ?ds) n
      = Some r"
    by (auto simp: map_add_Some_iff)
  then obtain e a where e: "(e, a) \<in> set ?ds" "n = payee_policy e" "r = payout_record e a (timestamp env)"
    by (auto dest!: map_of_SomeD)
  then show ?thesis
    using due_sound [OF e(1)] by (intro that [of e a]) (auto simp: engine_quote_def succeeded_Some)
qed

end
