(* ===== verification/Vault_Demo.thy ===== *)
theory Vault_Demo
  imports System_Vault RiskPool_Demo Trigger_Demo
begin

text \<open>
  One concrete run of the payout vault wired to the trigger engine of Trigger_Demo, whose window is
  finalized at a severity of 2857 basis points, and to the pool of RiskPool_Demo, used to witness the
  theorems: a batch that names the same policy twice pays its coverage of 5000 once, at 1428, and the
  farmer claims it.
\<close>

definition va_env :: "u64 \<Rightarrow> Env" where
  "va_env now = \<lparr>timestamp = now, current_contract = demo_vault, invoker = None, signed = demo_signed\<rparr>"

definition demo_clients :: "book vault_world VaultClients" where
  "demo_clients = vault_clients book_transfer demo_engine demo_pool"

definition demo_world :: "book vault_world" where "demo_world = (te_demo5, demo6, demo_ledger6)"

definition demo_payee :: PayoutEntry where
  "demo_payee = \<lparr>payee_policy = 1, payee_owner = demo_farmer, payee_coverage = 5000\<rparr>"

definition va_demo0 :: VaultStore where
  "va_demo0 = va_constructor demo_admin demo_pool demo_policy demo_engine demo_token"

definition va_demo1 :: VaultStore where
  "va_demo1 = (record_payout demo_payee 1428 90000 va_demo0)
     \<lparr>BatchOf := [(0, 7) \<mapsto> \<lparr>policies_paid = 1, total_disbursed = 1428, batch_state = BatchInProgress\<rparr>]\<rparr>"

definition va_demo2 :: VaultStore where
  "va_demo2 = va_publish (Claimed demo_farmer 1428) (va_demo1\<lparr>ClaimOf := (ClaimOf va_demo1)(demo_farmer \<mapsto> 0)\<rparr>)"

definition demo6v :: RiskPoolStore where
  "demo6v = rp_publish (PayoutReleased 1 1 demo_vault 1428)
     (write_solvency 1 \<lparr>reserves = 42, committed = 0\<rparr>
       (write_season 1 1 (demo_season Active 470 1428) demo6))"

definition demo_ledger6v :: book where "demo_ledger6v = demo_pay demo_pool demo_vault 1428 demo_ledger6"
definition demo_ledger6w :: book where "demo_ledger6w = demo_pay demo_vault demo_farmer 1428 demo_ledger6v"

definition demo_world1 :: "book vault_world" where "demo_world1 = (te_demo5, demo6v, demo_ledger6v)"
definition demo_world2 :: "book vault_world" where "demo_world2 = (te_demo5, demo6v, demo_ledger6w)"

definition demo_quiet :: "book vault_world \<Rightarrow> book vault_world \<Rightarrow> bool" where
  "demo_quiet = vault_rest book_balance demo_token demo_vault"

section \<open>The run\<close>

lemma va_env_call:
  "call_env (va_env now) demo_pool = demo_env now (Some demo_vault)"
  "current_contract (va_env now) = demo_vault" "timestamp (va_env now) = now"
  by (simp_all add: va_env_def demo_env_def call_env_def)

lemma demo_pool_deployed [simp]: "deployed_at demo_pool (demo_env now caller) demo_pool"
  by (simp add: deployed_at_def demo_env_def)

lemma demo_payout_for: "payout_for 0 7 5000 te_demo5 = Inr 1428"
  by (simp add: payout_for_def read_state_def te_demo_fields apply_bps_def BPS_DENOMINATOR_def
      checked_arith signed_divide_int_def)

lemma demo_pay_out_small:
  "pay_out book_transfer (demo_env 90000 (Some demo_vault)) 1 1 demo_vault 1428 demo6 demo_ledger6
     = Inr (1428, demo6v, demo_ledger6v)"
  by (simp add: pay_out_def rp_guards require_stored_def rp_reads demo6_reads demo_defs
      book_transfer_def Let_def checked_add_def checked_sub_def checked_def in_i128_def store_simps
      demo_ledger_def demo_ledger3_def demo_ledger6_def demo_ledger6v_def demo_pay_def
      demo_season_def demo6v_def)

lemma demo_pay_entry:
  "pay_entry demo_clients (va_env 90000) demo_pool demo_engine 0 7 1 1 demo_payee
     (read_batch va_demo0 0 7, 0, va_demo0, demo_world)
   = Inr (\<lparr>policies_paid = 1, total_disbursed = 1428, batch_state = BatchOpen\<rparr>, 1,
          record_payout demo_payee 1428 90000 va_demo0, demo_world1)"
  using demo_pay_out_small
  by (simp add: pay_entry_def demo_clients_def vault_clients_def demo_world_def demo_world1_def
      demo_payee_def demo_payout_for va_env_call va_demo0_def va_constructor_def va_empty_def
      record_payout_def payout_record_def read_claim_def read_batch_def checked_arith checked_uadd_def
      Let_def)

lemma demo_pay_again:
  "pay_entry demo_clients (va_env 90000) demo_pool demo_engine 0 7 1 1 demo_payee
     (pr, paid, record_payout demo_payee 1428 90000 va_demo0, w)
   = Inr (pr, paid, record_payout demo_payee 1428 90000 va_demo0, w)"
  by (simp add: pay_entry_def store_simps)

lemma va_demo0_reads:
  "va_require_admin (va_env now) va_demo0 = Inr demo_admin" "is_paused_inner va_demo0 = False"
  "read_ref (PoolRef va_demo0) = Inr demo_pool" "read_ref (TriggerRef va_demo0) = Inr demo_engine"
  "batch_state (read_batch va_demo0 0 7) \<noteq> BatchDone"
  by (simp_all add: va_demo0_def va_constructor_def va_empty_def va_require_admin_def require_stored_def
      require_auth_def va_env_def demo_signed_def demo_admin_def is_paused_inner_def read_ref_def
      read_batch_def)

lemma demo_pay_batch:
  "pay_batch demo_clients (va_env 90000) 0 7 1 1 [demo_payee, demo_payee] va_demo0 demo_world
     = Inr (1, va_demo1, demo_world1)"
proof -
  have "BatchOf (record_payout demo_payee 1428 90000 va_demo0) = Map.empty"
    by (simp add: store_simps va_demo0_def va_constructor_def va_empty_def)
  then show ?thesis
    using va_demo0_reads
    by (simp add: pay_batch_def VAULT_MAX_BATCH_def demo_pay_entry demo_pay_again Let_def va_demo1_def)
qed

lemma demo_claim:
  "claim (vault_token book_transfer) (va_env 90001) demo_farmer va_demo1 demo_world1
     = Inr (1428, va_demo2, demo_world2)"
  by (simp add: claim_def read_claim_def read_ref_def va_demo1_def va_demo2_def store_simps demo_payee_def
      va_demo0_def va_constructor_def va_empty_def Let_def vault_token_def demo_world1_def demo_world2_def
      book_transfer_def demo_ledger6w_def demo_ledger6v_def demo_ledger6_def demo_ledger3_def
      demo_ledger_def demo_pay_def va_env_def demo_defs)

lemma va_demo_host: "host_env demo_vault (va_env now)"
  by (simp add: host_env_def no_self_auth_def require_auth_def va_env_def demo_signed_def demo_vault_def)

lemma va_demo_step1:
  "va_step demo_clients (vault_token book_transfer) demo_quiet demo_vault
     (va_demo0, demo_world, 89999) (va_demo1, demo_world1, 90000)"
  using va_step.va_pay_batch [OF va_demo_host _ demo_pay_batch, of 89999] by (simp add: va_env_call)

lemma va_demo_step2:
  "va_step demo_clients (vault_token book_transfer) demo_quiet demo_vault
     (va_demo1, demo_world1, 90000) (va_demo2, demo_world2, 90001)"
  using va_step.va_claim [OF va_demo_host _ demo_claim, of 90000] by (simp add: va_env_call)

lemma va_demo_reachable:
  "va_reachable demo_clients (vault_token book_transfer) demo_quiet demo_vault va_demo0 demo_world 89999"
  "va_reachable demo_clients (vault_token book_transfer) demo_quiet demo_vault va_demo1 demo_world1 90000"
  "va_reachable demo_clients (vault_token book_transfer) demo_quiet demo_vault va_demo2 demo_world2 90001"
proof -
  show a: "va_reachable demo_clients (vault_token book_transfer) demo_quiet demo_vault va_demo0 demo_world 89999"
    unfolding va_reachable_def va_demo0_def by blast
  show b: "va_reachable demo_clients (vault_token book_transfer) demo_quiet demo_vault va_demo1 demo_world1 90000"
    by (rule va_reachable_step [OF a va_demo_step1])
  show "va_reachable demo_clients (vault_token book_transfer) demo_quiet demo_vault va_demo2 demo_world2 90001"
    by (rule va_reachable_step [OF b va_demo_step2])
qed

lemma demo_wiring: "vault_wiring book_transfer book_balance demo_token demo_pool demo_vault demo_world"
proof -
  have "PoolConfigOf demo6 = [1 \<mapsto> demo_config]"
    by (simp add: demo6_def demo5_def demo4_def demo3_def demo2_def demo1_def store_simps
        rp_constructor_def rp_empty_def)
  then have "\<forall>p c. PoolConfigOf demo6 p = Some c \<longrightarrow> cfg_token c = demo_token"
    by (simp add: demo_config_def)
  then show ?thesis
    by (simp add: vault_wiring_def sac_transfer_book demo_world_def demo_pool_def demo_vault_def)
qed

end
