(* ===== verification/Vault_Props.thy ===== *)
theory Vault_Props
  imports Vault_Demo Trigger_Earned
begin

text \<open>
  The properties of the payout vault, alone and wired to the trigger engine and the risk pool, each
  with a witness on the concrete run of Vault_Demo.
\<close>

section \<open>The claim ledger\<close>

text \<open>C24. The vault's books balance (FR-PAY-1, FR-PAY-2): in every reachable state the claimable balance
  of an owner and all he has claimed so far make exactly the sum of the payout records in his name,
  no balance is negative, and the batch checkpoints account for exactly the recorded amounts and
  exactly the recorded policies.\<close>

theorem vault_books_balance:
  assumes "va_reachable clients tk ext me s w now"
  shows "(\<forall>h. claimable s h + claimed_in (va_events s) h = granted s h \<and> 0 \<le> claimable s h) \<and>
    (\<Sum>k\<in>UNIV. total_disbursed (batch s (fst k) (snd k))) = paid_total s \<and>
    (\<Sum>k\<in>UNIV. uint (policies_paid (batch s (fst k) (snd k)))) = int (card (dom (PayoutOf s)))"
  using va_reachable_inv [OF assms]
  by (simp add: va_inv_def va_books_def claimable_def batch_def batch_total_def batch_count_def)

theorem vault_books_balance_witness:
  "claimable va_demo2 demo_farmer + 1428 = granted va_demo2 demo_farmer"
proof -
  have "claimed_in (va_events va_demo2) demo_farmer = 1428"
    by (simp add: va_demo2_def va_demo1_def store_simps va_demo0_def va_constructor_def va_empty_def)
  then show ?thesis using vault_books_balance [OF va_demo_reachable(3)] by metis
qed

text \<open>C29. Payouts are final (FR-PAY-3): along every run a payout record is never changed or removed, so a
  policy is paid at most once, and a closed batch never changes.\<close>

theorem payouts_are_final:
  assumes "va_reachable clients tk ext me s w now"
    and "(va_step clients tk ext me)\<^sup>*\<^sup>* (s, w, now) (s', w', now')"
  shows "(\<forall>n r. payout s n = Inr r \<longrightarrow> payout s' n = Inr r) \<and>
    (\<forall>idx win. batch_state (batch s idx win) = BatchDone \<longrightarrow> batch s' idx win = batch s idx win)"
proof -
  have "PayoutOf s \<subseteq>\<^sub>m PayoutOf s'"
    and closed: "\<And>idx win. batch_state (read_batch s idx win) = BatchDone \<Longrightarrow>
      read_batch s' idx win = read_batch s idx win"
    using va_run_forward [OF assms] by (simp_all add: va_forward_def)
  then have "PayoutOf s' n = Some r" if "PayoutOf s n = Some r" for n r
    using that by (auto simp: map_le_def dom_def)
  with closed show ?thesis by (simp add: payout_def batch_def ok_or_Inr)
qed

theorem payouts_are_final_witness:
  "payout va_demo2 1 = Inr (payout_record demo_payee 1428 90000)"
proof -
  have "(va_step demo_clients (vault_token book_transfer) demo_quiet demo_vault)\<^sup>*\<^sup>*
      (va_demo1, demo_world1, 90000) (va_demo2, demo_world2, 90001)"
    using va_demo_step2 by (rule rtranclp.rtrancl_into_rtrancl [OF rtranclp.rtrancl_refl])
  moreover have "payout va_demo1 1 = Inr (payout_record demo_payee 1428 90000)"
    by (simp add: payout_def va_demo1_def store_simps) (simp add: demo_payee_def)
  ultimately show ?thesis using payouts_are_final [OF va_demo_reachable(2)] by blast
qed

section \<open>A batch on the wired system\<close>

text \<open>C7. A batch pays exactly what is due (FR-PAY-1 to FR-PAY-3): with \<open>ds\<close> the entries, each policy
  once, that were not yet paid and for which the engine quotes a positive amount, a successful
  \<^verbatim>\<open>pay_batch\<close> answers their number, adds exactly their payout records, credits every owner with
  exactly his amounts, adds exactly their sum to the checkpoint and to the payouts the pool's seasons
  have booked, and leaves the trigger engine as it was.\<close>

theorem batch_pays_what_is_due:
  assumes sac: "sac_transfer tk bal" and ref: "TriggerRef s = Some engine"
    and ok: "pay_batch (vault_clients tk engine pool) env idx win p i entries s (te, rp, t)
      = Inr (paid, s', (te', rp', t'))"
    and ds: "ds = due (engine_quote te idx win) (dom (PayoutOf s)) entries"
  shows "uint paid = int (length ds) \<and>
    PayoutOf s' = PayoutOf s ++
      map_of (map (\<lambda>(e, a). (payee_policy e, payout_record e a (timestamp env))) ds) \<and>
    (\<forall>h. claimable s' h = claimable s h + (\<Sum>(e, a)\<leftarrow>ds. if payee_owner e = h then a else 0)) \<and>
    total_disbursed (batch s' idx win) = total_disbursed (batch s idx win) + sum_list (map snd ds) \<and>
    booked_payouts (te', rp', t') - booked_payouts (te, rp, t) = total_claims s' - total_claims s \<and>
    te' = te"
proof -
  have d: "uint paid = int (length ds)" "batch_done (timestamp env) idx win ds s s'"
    using pay_batch_due [OF vault_quotes_stable ok ref] by (simp_all add: Let_def quote_in_engine ds)
  note reads = batch_done_reads [OF d(2)]
  have "te' = te" by (rule pay_batch_engine [OF ok])
  moreover have "booked_payouts (te', rp', t') - booked_payouts (te, rp, t)
      = total_claims s' - total_claims s"
    using booked.pay_batch_funds [OF ok refl sac] by blast
  ultimately show ?thesis
    using d(1) reads(1,3) reads(2) [unfolded ds, OF due_distinct]
    by (simp add: claimable_def batch_def ds)
qed

theorem batch_pays_what_is_due_witness:
  "claimable va_demo1 demo_farmer = claimable va_demo0 demo_farmer + 1428"
proof -
  have ref: "TriggerRef va_demo0 = Some demo_engine" by (simp add: va_demo0_def va_constructor_def)
  have ds: "[(demo_payee, 1428)] = due (engine_quote te_demo5 0 7) (dom (PayoutOf va_demo0))
      [demo_payee, demo_payee]"
    by (simp add: engine_quote_def demo_payee_def demo_payout_for va_demo0_def va_constructor_def
        va_empty_def)
  show ?thesis
    using batch_pays_what_is_due [OF sac_transfer_book ref
      demo_pay_batch [unfolded demo_clients_def demo_world_def demo_world1_def] ds]
    by (simp add: demo_payee_def)
qed

text \<open>C30. A batch can be repeated (FR-PAY-3): after a successful \<^verbatim>\<open>pay_batch\<close> the same entries submitted again,
  by an administrator, in whatever pool and season, pay nothing and change nothing: not the vault, not
  the trigger engine, not the pool, not the token ledger.\<close>

theorem batch_repeats_idle:
  assumes ref: "TriggerRef s = Some engine"
    and ok: "pay_batch (vault_clients tk engine pool) env idx win p i entries s w = Inr (paid, s', w')"
    and again: "va_admin s = Inr a" "require_auth env' a"
  shows "pay_batch (vault_clients tk engine pool) env' idx win p' i' entries s' w' = Inr (0, s', w')"
proof -
  obtain te' rp' t' where w': "w' = (te', rp', t')" by (cases w')
  show ?thesis
    by (rule pay_batch_idle [OF ok vault_quotes_stable ref again(2)])
      (use again(1) in \<open>simp_all add: va_admin_def ok_or_Inr w' quote_in_engine\<close>)
qed

theorem batch_repeats_idle_witness:
  "pay_batch demo_clients (va_env 90002) 0 7 1 1 [demo_payee, demo_payee] va_demo1 demo_world1
     = Inr (0, va_demo1, demo_world1)"
proof -
  have "TriggerRef va_demo0 = Some demo_engine" and "va_admin va_demo0 = Inr demo_admin"
    by (simp_all add: va_demo0_def va_constructor_def va_admin_def)
  moreover have "require_auth (va_env 90002) demo_admin"
    by (simp add: require_auth_def va_env_def demo_signed_def demo_admin_def)
  ultimately show ?thesis
    using batch_repeats_idle [OF _ demo_pay_batch [unfolded demo_clients_def]]
    by (simp add: demo_clients_def)
qed

text \<open>No payout without finalization (FR-TRG-5, FR-PAY-1): on the wired system, a policy that a batch
  of a window newly pays was named by an entry of the batch, the window is complete, breaches its
  index and is finalized at the severity of the curve, and the amount credited is the floor of that
  severity's share of the entry's coverage, positive and never more than the coverage. While the vault
  is paused, nothing is paid.\<close>

theorem payouts_need_finalization:
  assumes run: "te_reachable med te now" and ref: "TriggerRef s = Some engine"
    and ok: "pay_batch (vault_clients tk engine pool) env idx win p i entries s (te, rp, t)
      = Inr (paid, s', (te', rp', t'))"
    and fresh: "PayoutOf s n = None" and rec: "payout s' n = Inr r"
  shows "\<not> is_paused s \<and>
    (\<exists>e\<in>set entries. \<exists>at sev def. payee_policy e = n \<and> payout_owner r = payee_owner e \<and>
      trigger_state te idx win = Finalized at sev \<and> complete te idx win \<and>
      index_def te idx = Inr def \<and> breached (index_params def) (accumulator te idx win) \<and>
      uint sev = severity_ramp (index_span (index_params def))
        (index_depth (index_params def) (accumulator te idx win)) \<and>
      payout_amount r = payee_coverage e * uint sev div 10000 \<and>
      0 < payout_amount r \<and> payout_amount r \<le> payee_coverage e)"
proof -
  have rec': "PayoutOf s' n = Some r" using rec by (simp add: payout_def ok_or_Inr)
  obtain e a where e: "e \<in> set entries" "payee_policy e = n" "r = payout_record e a (timestamp env)"
      and q: "0 < a" "payout_for idx win (payee_coverage e) te = Inr a"
    by (rule pay_batch_new_payout [OF ref ok fresh rec'])
  obtain at sev def where f: "read_state te idx win = Finalized at sev" "complete te idx win"
      "index_def te idx = Inr def" "breached (index_params def) (accumulator te idx win)"
      "uint sev = severity_ramp (index_span (index_params def))
         (index_depth (index_params def) (accumulator te idx win))"
      "a = payee_coverage e * uint sev div 10000" "a \<le> payee_coverage e"
    by (rule payout_for_earned [OF run q(2,1)])
  have "\<not> is_paused s" using ok by (auto elim!: pay_batch_ok simp: is_paused_def)
  then show ?thesis
    using f q(1) e by (auto simp: trigger_state_def payout_record_def intro!: bexI [of _ e])
qed

theorem payouts_need_finalization_witness:
  "trigger_state te_demo5 0 7 = Finalized 87400 2857 \<and> (1428::i128) = 5000 * 2857 div 10000 \<and>
   payout_amount (payout_record demo_payee 1428 90000) \<le> payee_coverage demo_payee"
proof -
  have ref: "TriggerRef va_demo0 = Some demo_engine" and none: "PayoutOf va_demo0 1 = None"
    by (simp_all add: va_demo0_def va_constructor_def va_empty_def)
  have rec: "payout va_demo1 1 = Inr (payout_record demo_payee 1428 90000)"
    by (simp add: payout_def va_demo1_def store_simps) (simp add: demo_payee_def)
  have "trigger_state te_demo5 0 7 = Finalized 87400 2857"
    by (simp add: trigger_state_def read_state_def te_demo_fields)
  then show ?thesis
    using payouts_need_finalization [OF te_demo_reachable(5) ref
      demo_pay_batch [unfolded demo_clients_def demo_world_def demo_world1_def] none rec]
    by (auto simp: payout_record_def demo_payee_def)
qed

end
