(* ===== verification/System_Props.thy ===== *)
theory System_Props
  imports Policy_Demo Vault_Demo Oracle_Props
begin

text \<open>
  The properties that rest on the interfaces between the contracts: what the pool keeps covers what
  the certificates can still claim back, so a cancellation goes through, and what the vault holds covers what owners can claim. Each
  has a witness on the concrete runs of Policy_Demo and Vault_Demo.
\<close>

section \<open>Refunds\<close>

lemma pol_demo_wired_run:
  "(pol_step (pool_client book_transfer demo_pool) (pool_rest book_transfer demo_ext demo_pool demo_policy)
      demo_policy)\<^sup>*\<^sup>* (pol_constructor demo_admin demo_pool, (demo5, demo_ledger3), 11)
      (pol_demo1, (demo6, demo_ledger6), 12)"
  using pol_demo_step1 unfolding demo_client_def demo_rest_def pol_demo0_def
  by (rule rtranclp.rtrancl_into_rtrancl [OF rtranclp.rtrancl_refl])

text \<open>The premiums of a season cover its refunds: when a policy contract starts on a pool it is
  registered with, then in every state it reaches, whatever purchases, cancellations, transfers and
  other invocations of the pool happen in between, the premiums the pool keeps for a season are at
  least the sum of the reserved nets of all certificates of that season that were not cancelled; so
  each single one of them could still be refunded from the season's premiums.\<close>

theorem season_covers_refunds:
  assumes start: "pool_serves me w0"
    and run: "(pol_step (pool_client tk pool) (pool_rest tk moves pool me) me)\<^sup>*\<^sup>*
      (pol_constructor a rp, w0, t0) (s, w, now)"
  shows "(\<forall>k. reserved_in s k \<le> premiums_of w k) \<and>
    (\<forall>n r. policy s n = Inr r \<longrightarrow> 0 \<le> net_reserved r \<and> net_reserved r \<le> premium_paid r \<and>
       (pol_state r \<noteq> PolCancelled \<longrightarrow> net_reserved r \<le> premiums_of w (pol_pool_id r, pol_season_id r)))"
proof -
  note cov = wired_covered(1) [OF start run]
  have "premiums_ok s" by (rule coveredD(2) [OF cov])
  moreover have "reserved_in s k \<le> premiums_of w k" for k by (rule coveredD(4) [OF cov])
  moreover have "net_reserved r \<le> premiums_of w (pol_pool_id r, pol_season_id r)"
    if "policy s n = Inr r" "pol_state r \<noteq> PolCancelled" for n r
    by (rule ledger.refund_within_credit [OF cov _ that(2)])
      (use that(1) in \<open>simp add: policy_def read_policy_def ok_or_Inr\<close>)
  ultimately show ?thesis by (simp add: premiums_ok_def policy_def read_policy_def ok_or_Inr)
qed

theorem season_covers_refunds_witness:
  "reserved_in pol_demo1 (1, 1) \<le> premiums_of (demo6, demo_ledger6) (1, 1) \<and>
   net_reserved demo_certificate = premiums_of (demo6, demo_ledger6) (1, 1)"
proof -
  have "reserved_in pol_demo1 (1, 1) \<le> premiums_of (demo6, demo_ledger6) (1, 1)"
    using season_covers_refunds [OF demo_pool_serves pol_demo_wired_run] by blast
  moreover have "premiums_of (demo6, demo_ledger6) (1, 1) = 470"
    by (simp add: premiums_of_def demo6_reads demo_season_def)
  ultimately show ?thesis by (simp add: demo_certificate_def new_policy_def)
qed



section \<open>Claims\<close>

text \<open>The vault can pay every claim: when the token behaves as the asset contract documents, every
  pool is in the vault's settlement asset and nobody else can debit the vault, then in every reachable
  state the vault's balance in that asset is at least the sum of the claimable balances of all
  owners, so each of them alone is covered as well.\<close>

theorem vault_covers_claims:
  assumes sac: "sac_transfer tk bal" and other: "pool \<noteq> me"
    and start: "\<forall>p c. PoolConfigOf (fst (snd w0)) p = Some c \<longrightarrow> cfg_token c = tok"
      "0 \<le> vault_balance bal tok me w0"
    and run: "(va_step (vault_clients tk engine pool) (vault_token tk) (vault_rest bal tok me) me)\<^sup>*\<^sup>*
      (va_constructor a pl pol tr tok, w0, t0) (s, w, now)"
  shows "(\<Sum>h\<in>UNIV. claimable s h) \<le> vault_balance bal tok me w \<and>
    (\<forall>h. claimable s h \<le> vault_balance bal tok me w)"
proof -
  have tot: "total_claims s \<le> vault_balance bal tok me w"
    by (rule wired_claims_covered [OF assms])
  have "va_reachable (vault_clients tk engine pool) (vault_token tk) (vault_rest bal tok me) me s w now"
    using run unfolding va_reachable_def by blast
  from va_reachable_inv [OF this] have nn: "0 \<le> read_claim s h" for h
    by (simp add: va_inv_def va_books_def)
  have "read_claim s h \<le> total_claims s" for h
    unfolding total_claims_def by (rule sum_ge_single) (rule nn)
  with tot show ?thesis by (auto simp: claimable_def total_claims_def intro: order_trans)
qed

theorem vault_covers_claims_witness:
  "claimable va_demo1 demo_farmer = 1428 \<and>
   claimable va_demo1 demo_farmer \<le> vault_balance book_balance demo_token demo_vault demo_world1"
proof -
  have run: "(va_step (vault_clients book_transfer demo_engine demo_pool) (vault_token book_transfer)
      (vault_rest book_balance demo_token demo_vault) demo_vault)\<^sup>*\<^sup>*
      (va_constructor demo_admin demo_pool demo_policy demo_engine demo_token, demo_world, 89999)
      (va_demo1, demo_world1, 90000)"
    using va_demo_step1 unfolding demo_clients_def demo_quiet_def va_demo0_def
    by (rule rtranclp.rtrancl_into_rtrancl [OF rtranclp.rtrancl_refl])
  have toks: "\<forall>p c. PoolConfigOf (fst (snd demo_world)) p = Some c \<longrightarrow> cfg_token c = demo_token"
    and ne: "demo_pool \<noteq> demo_vault"
    using demo_wiring by (simp_all add: vault_wiring_def)
  have nn: "0 \<le> vault_balance book_balance demo_token demo_vault demo_world"
    by (simp add: vault_balance_def book_balance_def demo_world_def demo_ledger6_def demo_ledger3_def
        demo_ledger_def demo_pay_def demo_addresses)
  have "claimable va_demo1 demo_farmer = 1428"
    by (simp add: claimable_def read_claim_def va_demo1_def store_simps)
      (simp add: demo_payee_def va_demo0_def va_constructor_def va_empty_def read_claim_def)
  then show ?thesis using vault_covers_claims [OF sac_transfer_book ne toks nn run] by blast
qed

section \<open>Ingestion\<close>

text \<open>C25. The engine folds only attested weather (FR-ORC-4, FR-TRG-3): when the trigger engine ingests a day from
  the oracle, the value it folds, exactly as the guardian's direct entry of that value would, is the
  oracle's median of the region and metric of the index; it is non-negative and in range, and the
  observations behind it have at least two authors and are each signed by its author, stored in a slot
  that is not challenged, and at most 48 hours old.\<close>

theorem ingestion_folds_attested_median:
  assumes run: "or_reachable to_xdr verify orac t0" and later: "t0 \<le> timestamp env"
    and ok: "record_day_from_oracle (oracle_client addr) orac env idx win day s = Inr (v, s')"
  shows "record_day env idx win day v s = Inr s' \<and> 0 \<le> v \<and> in_i128 v \<and> oracle_ref s = Inr addr \<and>
    (\<exists>def os. index_def s idx = Inr def \<and>
      os = counted (call_env env addr) (ip_region (index_params def)) (ip_metric (index_params def)) orac \<and>
      median (call_env env addr) (ip_region (index_params def)) (ip_metric (index_params def)) orac = Inr v \<and>
      (\<exists>o1\<in>set os. \<exists>o2\<in>set os. obs_publisher o1 \<noteq> obs_publisher o2) \<and>
      (\<forall>obs\<in>set os. authentic to_xdr verify (ip_region (index_params def)) (ip_metric (index_params def)) obs \<and>
        uint (timestamp env) - uint (obs_timestamp obs) \<le> 172800 \<and>
        (\<exists>k. observation orac (ip_region (index_params def)) (ip_metric (index_params def)) k = Inr obs \<and>
           \<not> challenge_flag orac (ip_region (index_params def)) (ip_metric (index_params def)) k)))"
proof -
  from ok obtain a def oref where h: "IndexDef s idx = Some def" "OracleRef s = Some oref"
      "oracle_client addr orac (call_env env oref) oref (ip_region (index_params def))
         (ip_metric (index_params def)) = Some v"
    by (rule record_day_from_oracle_ok)
  have addr: "oref = addr" and med: "median (call_env env addr) (ip_region (index_params def))
      (ip_metric (index_params def)) orac = Inr v"
    using h(3) by (auto simp: oracle_client_def deployed_at_def ok_simps)
  let ?os = "counted (call_env env addr) (ip_region (index_params def)) (ip_metric (index_params def)) orac"
  have "\<exists>o1\<in>set ?os. \<exists>o2\<in>set ?os. obs_publisher o1 \<noteq> obs_publisher o2"
    by (rule median_spec_authors [OF median_spec_returned [OF run med]])
  moreover have "\<forall>obs\<in>set ?os. authentic to_xdr verify (ip_region (index_params def))
      (ip_metric (index_params def)) obs \<and> uint (timestamp env) - uint (obs_timestamp obs) \<le> 172800 \<and>
      (\<exists>k. observation orac (ip_region (index_params def)) (ip_metric (index_params def)) k = Inr obs \<and>
         \<not> challenge_flag orac (ip_region (index_params def)) (ip_metric (index_params def)) k)"
    using counted_each(1,4,6) [OF run, of "call_env env addr"] later
    by (simp add: observation_def read_obs_def ok_or_Inr challenge_flag_def)
  moreover have "index_def s idx = Inr def" by (simp add: index_def_def read_def_def h(1))
  moreover have "oracle_ref s = Inr addr" by (simp add: oracle_ref_def h(2) addr)
  moreover note feed.ingestion_is_record_day [OF run later ok]
  ultimately show ?thesis using med by blast
qed

text \<open>The witness ingests the median 104 of the oracle's run as the first day of a window.\<close>

definition te_linked :: TriggerStore where
  "te_linked = te_demo1\<lparr>OracleRef := Some demo_oracle\<rparr>"

lemma median_time: "timestamp env = timestamp env' \<Longrightarrow> median env r m s = median env' r m s"
  unfolding median_def by (simp only:)

lemma demo_ingest:
  "\<exists>s'. record_day_from_oracle (oracle_client demo_oracle) or_demo7 (te_env 605050) 0 7 10 te_linked
     = Inr (104, s')"
proof -
  have "median (call_env (te_env 605050) demo_oracle) ''KE_NAK'' ''RAIN'' or_demo7 = Inr 104"
    using demo_median median_time [of "call_env (te_env 605050) demo_oracle" "or_env 605050"]
    by (simp add: te_env_def or_env_def)
  then have "oracle_client demo_oracle or_demo7 (call_env (te_env 605050) demo_oracle) demo_oracle
      ''KE_NAK'' ''RAIN'' = Some 104"
    by (simp add: oracle_client_def)
  moreover have "IndexDef te_linked 0 = Some \<lparr>index_id = 0, index_params = rain_params 2\<rparr>"
    "TeAdmin te_linked = Some demo_admin" "Accumulator te_linked = Map.empty" "EvalCursor te_linked = Map.empty"
    "OracleRef te_linked = Some demo_oracle"
    by (simp_all add: te_linked_def te_demo_fields)
  moreover have "require_auth (te_env 605050) demo_admin"
    by (simp add: require_auth_def te_env_def demo_signed_def demo_admin_def)
  ultimately show ?thesis
    by (simp add: record_day_from_oracle_def te_require_admin_def require_stored_def read_def_def fold_day_def
        fold_value_def read_cursor_def read_accumulator_def empty_accumulator_def rain_params_def
        checked_arith checked_uadd_def Let_def)
qed

theorem ingestion_folds_attested_median_witness:
  "\<exists>s'. record_day (te_env 605050) 0 7 10 104 te_linked = Inr s' \<and> in_i128 104"
proof -
  have "605000 \<le> timestamp (te_env 605050)" by (simp add: te_env_def)
  then show ?thesis
    using demo_ingest ingestion_folds_attested_median [OF or_demo_reachable(3)] by metis
qed

end
