(* ===== verification/Protocol.thy ===== *)
theory Protocol
  imports System_Vault
begin

text \<open>
  The whole protocol as one machine: the stores of the five contracts, the token ledger and the
  clock. A transaction invokes one entry point of one contract; the calls that contract makes run
  in the models of the contracts it is wired to. The rest of the world is whatever moves the token
  ledger without debiting a contract of the protocol, which only that contract could authorize.
\<close>

section \<open>Deployment and state\<close>

record Deployment =
  at_oracle :: Address
  at_engine :: Address
  at_pool :: Address
  at_policy :: Address
  at_vault :: Address
  at_asset :: Address

definition contracts :: "Deployment \<Rightarrow> Address set" where
  "contracts d = {at_oracle d, at_engine d, at_pool d, at_policy d, at_vault d}"

record 't Protocol =
  pr_now :: u64
  pr_oracle :: OracleStore
  pr_engine :: TriggerStore
  pr_pool :: RiskPoolStore
  pr_policy :: PolicyStore
  pr_vault :: VaultStore
  pr_token :: 't

text \<open>
  The state after deployment: every contract has run its constructor under the guardian \<open>a\<close>, and the
  pool knows the policy contract and the vault.
\<close>

definition deploy :: "Deployment \<Rightarrow> Address \<Rightarrow> u64 \<Rightarrow> 't \<Rightarrow> 't Protocol" where
  "deploy d a now t = \<lparr>pr_now = now, pr_oracle = or_constructor a, pr_engine = te_constructor a,
     pr_pool = (rp_constructor a)\<lparr>PolicyContract := Some (at_policy d), PayoutVault := Some (at_vault d)\<rparr>,
     pr_policy = pol_constructor a (at_pool d),
     pr_vault = va_constructor a (at_pool d) (at_policy d) (at_engine d) (at_asset d),
     pr_token = t\<rparr>"

section \<open>Transactions\<close>

datatype OracleCall =
    CallProposePublisher Bytes32 bool | CallExecutePublisher Bytes32 | CallCancelPublisher Bytes32
  | CallSubmit Symbol Symbol u64 i128 Bytes32 Bytes64
  | CallChallenge Symbol Symbol u32 u32 | CallUnchallenge Symbol Symbol u32

datatype EngineCall =
    CallCreateIndex IndexParams | CallRecordDay u64 u64 u64 i128
  | CallRecordDayFromOracle u64 u64 u64 | CallSetOracle Address
  | CallEvaluate u64 u64 | CallFinalize u64 u64

datatype PoolCall =
    CallSetPolicyContract Address | CallSetPayoutVault Address | CallCreatePool PoolConfig
  | CallDeposit u64 Tier Address i128 | CallWithdraw u64 Tier Address i128
  | CallOpenSeason u64 | CallActivateSeason u64 u64 | CallCloseSeason u64 u64
  | CallCollectPremium u64 u64 Address i128 | CallRefundPremium u64 u64 Address i128
  | CallPayOut u64 u64 Address i128 | CallSettleSeason u64 u64

datatype PolicyCall =
    CallMint Address u64 u64 PolicyTerms i128 Bytes32 | CallMintBatch Address u64 u64 "BatchEntry list"
  | CallMarkTriggered u64 | CallMarkPaid u64 | CallExpire u64 | CallCancel u64
  | CallSetMetadata u64 Bytes32 | CallSetTransferable u64 bool | CallTransfer u64 Address

datatype VaultCall =
    CallPause | CallUnpause | CallPayBatch u64 u64 u64 u64 "PayoutEntry list"
  | CallCloseBatch u64 u64 | CallClaim Address

datatype Call =
    AtOracle OracleCall | AtEngine EngineCall | AtPool PoolCall | AtPolicy PolicyCall | AtVault VaultCall

text \<open>Each contract's entry points; a failed invocation is \<^term>\<open>None\<close> and changes nothing.\<close>

fun call_oracle ::
    "(ObservationPayload \<Rightarrow> 'm) \<Rightarrow> (Bytes32 \<Rightarrow> 'm \<Rightarrow> Bytes64 \<Rightarrow> bool) \<Rightarrow> Env \<Rightarrow> OracleCall \<Rightarrow>
     OracleStore \<Rightarrow> OracleStore option" where
  "call_oracle to_xdr verify env (CallProposePublisher p add) s =
     map_option snd (succeeded (propose_publisher env p add s))"
| "call_oracle to_xdr verify env (CallExecutePublisher p) s = succeeded (execute_publisher env p s)"
| "call_oracle to_xdr verify env (CallCancelPublisher p) s = succeeded (cancel_publisher env p s)"
| "call_oracle to_xdr verify env (CallSubmit r m ts v p sig) s =
     map_option snd (succeeded (submit to_xdr verify env r m ts v p sig s))"
| "call_oracle to_xdr verify env (CallChallenge r m k reason) s = succeeded (challenge env r m k reason s)"
| "call_oracle to_xdr verify env (CallUnchallenge r m k) s = succeeded (unchallenge env r m k s)"

fun call_engine ::
    "Address \<Rightarrow> OracleStore \<Rightarrow> Env \<Rightarrow> EngineCall \<Rightarrow> TriggerStore \<Rightarrow> TriggerStore option" where
  "call_engine oracle orc env (CallCreateIndex p) s = map_option snd (succeeded (create_index env p s))"
| "call_engine oracle orc env (CallRecordDay idx win day v) s = succeeded (record_day env idx win day v s)"
| "call_engine oracle orc env (CallRecordDayFromOracle idx win day) s =
     map_option snd (succeeded (record_day_from_oracle (oracle_client oracle) orc env idx win day s))"
| "call_engine oracle orc env (CallSetOracle a) s = succeeded (set_oracle env a s)"
| "call_engine oracle orc env (CallEvaluate idx win) s = map_option snd (succeeded (evaluate env idx win s))"
| "call_engine oracle orc env (CallFinalize idx win) s = map_option snd (succeeded (finalize env idx win s))"

fun call_pool ::
    "'t transfer_fn \<Rightarrow> Env \<Rightarrow> PoolCall \<Rightarrow> RiskPoolStore \<times> 't \<Rightarrow> (RiskPoolStore \<times> 't) option" where
  "call_pool tk env (CallSetPolicyContract a) (s, t) =
     map_option (\<lambda>s. (s, t)) (succeeded (set_policy_contract env a s))"
| "call_pool tk env (CallSetPayoutVault a) (s, t) =
     map_option (\<lambda>s. (s, t)) (succeeded (set_payout_vault env a s))"
| "call_pool tk env (CallCreatePool c) (s, t) =
     map_option (\<lambda>(_, s). (s, t)) (succeeded (create_pool env c s))"
| "call_pool tk env (CallDeposit p tier src a) (s, t) =
     map_option snd (succeeded (deposit tk env p tier src a s t))"
| "call_pool tk env (CallWithdraw p tier h r) (s, t) =
     map_option snd (succeeded (withdraw tk env p tier h r s t))"
| "call_pool tk env (CallOpenSeason p) (s, t) =
     map_option (\<lambda>(_, s). (s, t)) (succeeded (open_season env p s))"
| "call_pool tk env (CallActivateSeason p i) (s, t) =
     map_option (\<lambda>s. (s, t)) (succeeded (activate_season env p i s))"
| "call_pool tk env (CallCloseSeason p i) (s, t) =
     map_option (\<lambda>s. (s, t)) (succeeded (close_season env p i s))"
| "call_pool tk env (CallCollectPremium p i src a) (s, t) =
     map_option snd (succeeded (collect_premium tk env p i src a s t))"
| "call_pool tk env (CallRefundPremium p i dst a) (s, t) =
     map_option snd (succeeded (refund_premium tk env p i dst a s t))"
| "call_pool tk env (CallPayOut p i dst a) (s, t) =
     map_option snd (succeeded (pay_out tk env p i dst a s t))"
| "call_pool tk env (CallSettleSeason p i) (s, t) =
     map_option (\<lambda>(_, s). (s, t)) (succeeded (settle_season env p i s))"

fun call_policy ::
    "'w RiskPoolClient \<Rightarrow> Env \<Rightarrow> PolicyCall \<Rightarrow> PolicyStore \<times> 'w \<Rightarrow> (PolicyStore \<times> 'w) option" where
  "call_policy client env (CallMint buyer p i terms maxp md) (s, w) =
     map_option snd (succeeded (mint client env buyer p i terms maxp md s w))"
| "call_policy client env (CallMintBatch payer p i entries) (s, w) =
     map_option snd (succeeded (mint_batch client env payer p i entries s w))"
| "call_policy client env (CallMarkTriggered n) (s, w) =
     map_option (\<lambda>s. (s, w)) (succeeded (mark_triggered env n s))"
| "call_policy client env (CallMarkPaid n) (s, w) =
     map_option (\<lambda>s. (s, w)) (succeeded (mark_paid env n s))"
| "call_policy client env (CallExpire n) (s, w) = map_option (\<lambda>s. (s, w)) (succeeded (expire env n s))"
| "call_policy client env (CallCancel n) (s, w) = map_option snd (succeeded (cancel client env n s w))"
| "call_policy client env (CallSetMetadata n md) (s, w) =
     map_option (\<lambda>s. (s, w)) (succeeded (set_metadata env n md s))"
| "call_policy client env (CallSetTransferable p b) (s, w) =
     map_option (\<lambda>s. (s, w)) (succeeded (set_transferable env p b s))"
| "call_policy client env (CallTransfer n dst) (s, w) =
     map_option (\<lambda>s. (s, w)) (succeeded (transfer env n dst s))"

fun call_vault ::
    "'w VaultClients \<Rightarrow> 'w transfer_fn \<Rightarrow> Env \<Rightarrow> VaultCall \<Rightarrow> VaultStore \<times> 'w \<Rightarrow>
     (VaultStore \<times> 'w) option" where
  "call_vault clients tk env CallPause (s, w) = map_option (\<lambda>s. (s, w)) (succeeded (pause env s))"
| "call_vault clients tk env CallUnpause (s, w) = map_option (\<lambda>s. (s, w)) (succeeded (unpause env s))"
| "call_vault clients tk env (CallPayBatch idx win p i entries) (s, w) =
     map_option snd (succeeded (pay_batch clients env idx win p i entries s w))"
| "call_vault clients tk env (CallCloseBatch idx win) (s, w) =
     map_option (\<lambda>s. (s, w)) (succeeded (close_batch env idx win s))"
| "call_vault clients tk env (CallClaim h) (s, w) = map_option snd (succeeded (claim tk env h s w))"

text \<open>A transaction runs its call at its time, against the stores the callee is wired to.\<close>

definition invoke ::
    "'t transfer_fn \<Rightarrow> (ObservationPayload \<Rightarrow> 'm) \<Rightarrow> (Bytes32 \<Rightarrow> 'm \<Rightarrow> Bytes64 \<Rightarrow> bool) \<Rightarrow> Deployment \<Rightarrow>
     Env \<Rightarrow> Call \<Rightarrow> 't Protocol \<Rightarrow> 't Protocol option" where
  "invoke tk to_xdr verify d env call x = (let x' = x\<lparr>pr_now := timestamp env\<rparr> in
     case call of
       AtOracle c \<Rightarrow> map_option (\<lambda>s. x'\<lparr>pr_oracle := s\<rparr>) (call_oracle to_xdr verify env c (pr_oracle x))
     | AtEngine c \<Rightarrow> map_option (\<lambda>s. x'\<lparr>pr_engine := s\<rparr>)
         (call_engine (at_oracle d) (pr_oracle x) env c (pr_engine x))
     | AtPool c \<Rightarrow> map_option (\<lambda>(s, t). x'\<lparr>pr_pool := s, pr_token := t\<rparr>)
         (call_pool tk env c (pr_pool x, pr_token x))
     | AtPolicy c \<Rightarrow> map_option (\<lambda>(q, s, t). x'\<lparr>pr_policy := q, pr_pool := s, pr_token := t\<rparr>)
         (call_policy (pool_client tk (at_pool d)) env c (pr_policy x, pr_pool x, pr_token x))
     | AtVault c \<Rightarrow> map_option (\<lambda>(v, e, s, t). x'\<lparr>pr_vault := v, pr_engine := e, pr_pool := s, pr_token := t\<rparr>)
         (call_vault (vault_clients tk (at_engine d) (at_pool d)) (vault_token tk) env c
            (pr_vault x, pr_engine x, pr_pool x, pr_token x)))"

section \<open>Runs\<close>

text \<open>
  A transaction comes from outside: its invoker is no contract of the protocol, and these contracts
  sign nothing. Its \<^verbatim>\<open>i128\<close> arguments are in range. Of the calls the guardian could make, the machine
  leaves out those that would point the pool to another policy contract or vault, and those that would open
  a pool in another asset than the vault's: the contracts do not check them.
\<close>

definition outside :: "Deployment \<Rightarrow> Env \<Rightarrow> bool" where
  "outside d env \<longleftrightarrow> (\<forall>a\<in>contracts d. invoker env \<noteq> Some a \<and> (\<forall>c. \<not> signed env c a))"

definition callee :: "Deployment \<Rightarrow> Call \<Rightarrow> Address" where
  "callee d call = (case call of AtOracle _ \<Rightarrow> at_oracle d | AtEngine _ \<Rightarrow> at_engine d
     | AtPool _ \<Rightarrow> at_pool d | AtPolicy _ \<Rightarrow> at_policy d | AtVault _ \<Rightarrow> at_vault d)"

fun well_typed :: "Call \<Rightarrow> bool" where
  "well_typed (AtOracle (CallSubmit r m ts v p sig)) = in_i128 v"
| "well_typed (AtEngine (CallRecordDay idx win day v)) = in_i128 v"
| "well_typed _ = True"

fun keeps_wiring :: "Deployment \<Rightarrow> Call \<Rightarrow> bool" where
  "keeps_wiring d (AtPool (CallSetPolicyContract a)) = (a = at_policy d)"
| "keeps_wiring d (AtPool (CallSetPayoutVault a)) = (a = at_vault d)"
| "keeps_wiring d (AtPool (CallCreatePool c)) = (cfg_token c = at_asset d)"
| "keeps_wiring d _ = True"

text \<open>What this leaves: the pool serves the deployed policy contract and vault, in one asset.\<close>

definition wired :: "Deployment \<Rightarrow> 't Protocol \<Rightarrow> bool" where
  "wired d x \<longleftrightarrow> PolicyContract (pr_pool x) = Some (at_policy d) \<and>
     PayoutVault (pr_pool x) = Some (at_vault d) \<and>
     (\<forall>p c. PoolConfigOf (pr_pool x) p = Some c \<longrightarrow> cfg_token c = at_asset d)"

text \<open>What others do to the token ledger: no contract of the protocol loses anything.\<close>

definition foreign :: "'t balance_fn \<Rightarrow> Deployment \<Rightarrow> 't \<Rightarrow> 't \<Rightarrow> bool" where
  "foreign bal d t t' \<longleftrightarrow> (\<forall>a\<in>contracts d. \<forall>tok. bal t tok a \<le> bal t' tok a)"

inductive protocol_step ::
    "'t transfer_fn \<Rightarrow> 't balance_fn \<Rightarrow> (ObservationPayload \<Rightarrow> 'm) \<Rightarrow>
     (Bytes32 \<Rightarrow> 'm \<Rightarrow> Bytes64 \<Rightarrow> bool) \<Rightarrow> Deployment \<Rightarrow> 't Protocol \<Rightarrow> 't Protocol \<Rightarrow> bool"
  for tk bal to_xdr verify d where
  transaction:
    "outside d env \<Longrightarrow> current_contract env = callee d call \<Longrightarrow> pr_now x \<le> timestamp env \<Longrightarrow>
     well_typed call \<Longrightarrow> keeps_wiring d call \<Longrightarrow> invoke tk to_xdr verify d env call x = Some x' \<Longrightarrow>
     protocol_step tk bal to_xdr verify d x x'"
| elsewhere:
    "foreign bal d (pr_token x) t \<Longrightarrow> pr_now x \<le> now \<Longrightarrow>
     protocol_step tk bal to_xdr verify d x (x\<lparr>pr_token := t, pr_now := now\<rparr>)"

text \<open>A deployment the theorems speak of: six different addresses, and a guardian from outside.\<close>

definition sound_deployment :: "Deployment \<Rightarrow> Address \<Rightarrow> bool" where
  "sound_deployment d a \<longleftrightarrow>
     distinct [at_oracle d, at_engine d, at_pool d, at_policy d, at_vault d, at_asset d] \<and> a \<notin> contracts d"

definition protocol_reachable ::
    "'t transfer_fn \<Rightarrow> 't balance_fn \<Rightarrow> (ObservationPayload \<Rightarrow> 'm) \<Rightarrow>
     (Bytes32 \<Rightarrow> 'm \<Rightarrow> Bytes64 \<Rightarrow> bool) \<Rightarrow> Deployment \<Rightarrow> 't Protocol \<Rightarrow> 't Protocol \<Rightarrow> bool" where
  "protocol_reachable tk bal to_xdr verify d x0 x \<longleftrightarrow>
     (protocol_step tk bal to_xdr verify d)\<^sup>*\<^sup>* x0 x"

end
