(* ===== verification/Protocol_Pool.thy ===== *)
theory Protocol_Pool
  imports Protocol
begin

text \<open>
  What a transaction of the pool means to the others: it is a step of the pool, it never debits an
  address that has not authorized it, and it is a refund only when it is one.
\<close>

section \<open>Environments\<close>

lemma outsideD:
  assumes "outside d env" and "a \<in> contracts d"
  shows "\<not> require_auth env a" and "\<not> signed env c a"
  using assms by (auto simp: outside_def require_auth_def)

lemma outside_host_env:
  "outside d env \<Longrightarrow> a \<in> contracts d \<Longrightarrow> current_contract env = a \<Longrightarrow> host_env a env"
  by (simp add: host_env_def no_self_auth_def outsideD)

text \<open>A call from one contract of the protocol into another carries the caller's authorization only.\<close>

lemma outside_call_env:
  assumes "outside d env" and "a \<in> contracts d"
  shows "require_auth (call_env env b) a \<longleftrightarrow> a = current_contract env"
  using assms by (auto simp: require_auth_def outside_def)

lemma inner_host_env:
  assumes "outside d env" and "b \<in> contracts d" and "current_contract env \<noteq> b"
  shows "host_env b (call_env env b)"
  using assms by (auto simp: host_env_def no_self_auth_def outside_call_env)

section \<open>Balances\<close>

definition kept :: "'t balance_fn \<Rightarrow> Address \<Rightarrow> 't \<Rightarrow> 't \<Rightarrow> bool" where
  "kept bal a t t' \<longleftrightarrow> (\<forall>tok. bal t tok a \<le> bal t' tok a)"

lemma kept_refl [simp]: "kept bal a t t"
  by (simp add: kept_def)

lemma kept_trans: "kept bal a t t1 \<Longrightarrow> kept bal a t1 t2 \<Longrightarrow> kept bal a t t2"
  by (auto simp: kept_def intro: order_trans)

lemma transfer_kept:
  assumes "sac_transfer tk bal" and "tk env tok src dst n t = Some t'" and "src \<noteq> a"
  shows "kept bal a t t'"
proof -
  have "0 \<le> n" using assms(1,2) unfolding sac_transfer_def by blast
  then show ?thesis using assms(3) by (auto simp: kept_def sac_transferD [OF assms(1,2)])
qed

text \<open>A pool operation debits nobody but the pool and who has authorized it.\<close>

lemma collect_kept:
  "sac_transfer tk bal \<Longrightarrow> collect_premium tk env p i src n s t = Inr (m, s', t') \<Longrightarrow>
   \<not> require_auth env a \<Longrightarrow> kept bal a t t'"
  by (erule collect_premium_ok) (metis transfer_kept)

lemma refund_kept:
  "sac_transfer tk bal \<Longrightarrow> refund_premium tk env p i dst n s t = Inr (m, s', t') \<Longrightarrow>
   a \<noteq> current_contract env \<Longrightarrow> kept bal a t t'"
  by (erule refund_premium_ok) (metis transfer_kept)

lemma pay_out_kept:
  "sac_transfer tk bal \<Longrightarrow> pay_out tk env p i dst n s t = Inr (m, s', t') \<Longrightarrow>
   a \<noteq> current_contract env \<Longrightarrow> kept bal a t t'"
  by (erule pay_out_ok) (metis transfer_kept)

lemma deposit_kept:
  "sac_transfer tk bal \<Longrightarrow> deposit tk env p tier src n s t = Inr (m, s', t') \<Longrightarrow>
   \<not> require_auth env a \<Longrightarrow> kept bal a t t'"
  by (erule deposit_ok) (metis transfer_kept)

lemma withdraw_kept:
  "sac_transfer tk bal \<Longrightarrow> withdraw tk env p tier h r s t = Inr (m, s', t') \<Longrightarrow>
   a \<noteq> current_contract env \<Longrightarrow> kept bal a t t'"
  by (erule withdraw_ok) (metis transfer_kept)

lemma call_pool_kept:
  assumes "sac_transfer tk bal" and "call_pool tk env c (s, t) = Some (s', t')"
    and "a \<noteq> current_contract env" and "\<not> require_auth env a"
  shows "kept bal a t t'"
  using assms
  by (cases c) (auto simp: ok_simps intro: collect_kept refund_kept pay_out_kept deposit_kept withdraw_kept)

section \<open>Steps of the pool\<close>

lemma call_pool_step:
  assumes "call_pool tk env c (s, t) = Some (s', t')" and "host_env me env"
  shows "rp_step tk ext me (s, t) (s', t')"
  using assms by (cases c) (auto simp: ok_simps intro: rp_step.intros)

text \<open>The log tells whether a transaction was a refund.\<close>

definition refunded :: "RiskPoolStore \<Rightarrow> RiskPoolStore \<Rightarrow> bool" where
  "refunded s s' \<longleftrightarrow> (\<exists>p i dst n. rp_events s' = rp_events s @ [PremiumRefunded p i dst n])"

lemma refund_premium_refunded:
  "refund_premium tk env p i dst n s t = Inr (m, s', t') \<Longrightarrow> refunded s s'"
  by (erule refund_premium_ok) (auto simp: refunded_def store_simps)

lemma not_refunded_same: "rp_events s' = rp_events s \<Longrightarrow> \<not> refunded s s'"
  by (simp add: refunded_def)

lemma settle_season_events:
  "settle_season env p i s = Inr (n, s') \<Longrightarrow>
   \<exists>x y. rp_events s' = rp_events s @ [SeasonSettled p i x y n]"
  by (erule settle_season_ok) (auto simp: store_simps settle_tranches_frame)

lemma pay_out_not_refunded: "pay_out tk env p i dst n s t = Inr (m, s', t') \<Longrightarrow> \<not> refunded s s'"
  by (erule pay_out_ok) (auto simp: refunded_def store_simps)

lemma call_pool_not_refunded:
  assumes "call_pool tk env c (s, t) = Some (s', t')" and "PolicyContract s = Some pol"
    and "\<not> require_auth env pol"
  shows "\<not> refunded s s'"
  using assms
  by (cases c) (auto simp: ok_simps refunded_def store_simps set_policy_contract_Inr
      set_payout_vault_Inr season_moves
      elim!: create_pool_ok deposit_ok withdraw_ok open_season_ok transition_season_ok
        collect_premium_ok refund_premium_ok pay_out_ok dest!: settle_season_events)

end
