(* ===== verification/Protocol_Views.thy ===== *)
theory Protocol_Views
  imports Protocol_Pool
begin

text \<open>
  The protocol as each contract sees it. Every transaction of the whole protocol is, for each of the
  five contracts, a run of that contract's own step relation, in which the other contracts only do
  what the contract's interface allows the rest of the ledger to do.
\<close>

definition seen_by_pool :: "'t Protocol \<Rightarrow> RiskPoolStore \<times> 't" where
  "seen_by_pool x = (pr_pool x, pr_token x)"

definition seen_by_policy :: "'t Protocol \<Rightarrow> PolicyStore \<times> (RiskPoolStore \<times> 't) \<times> u64" where
  "seen_by_policy x = (pr_policy x, (pr_pool x, pr_token x), pr_now x)"

definition seen_by_vault :: "'t Protocol \<Rightarrow> VaultStore \<times> 't vault_world \<times> u64" where
  "seen_by_vault x = (pr_vault x, (pr_engine x, pr_pool x, pr_token x), pr_now x)"

section \<open>What the rest of the ledger may do\<close>

lemma pool_restI:
  assumes "rp_step tk ext pool w w'" and "PolicyContract (fst w') = PolicyContract (fst w)"
    and "\<not> refunded (fst w) (fst w')"
  shows "pool_rest tk ext pool pol w w'"
  using assms by (cases w; cases w') (auto simp: pool_rest_def dest: refund_premium_refunded)

lemma pool_rest_ledger: "ext t t' \<Longrightarrow> pool_rest tk ext pool pol (s, t) (s, t')"
  by (rule pool_restI) (simp_all add: rp_ledger not_refunded_same)

lemma pol_idle:
  assumes "(pool_rest tk (kept bal pool) pool pol)\<^sup>*\<^sup>* w w'" and "now \<le> now'"
  shows "(pol_step client (pool_rest tk (kept bal pool) pool pol) pol)\<^sup>*\<^sup>* (q, w, now) (q, w', now')"
  using assms(1)
proof (induction rule: rtranclp_induct)
  case base
  obtain s t where "w = (s, t)" by force
  then have "pool_rest tk (kept bal pool) pool pol w w" by (simp add: pool_rest_ledger)
  then show ?case using assms(2) by (blast intro: pol_rest)
next
  case (step y z)
  then show ?case by (blast intro: pol_rest rtranclp.rtrancl_into_rtrancl)
qed

section \<open>The policy contract at work on the pool\<close>

text \<open>A relation on the pool that every collection and every refund by the policy contract is in
  holds between the pool before and after any of its transactions.\<close>

lemma call_policy_relates:
  assumes call: "call_policy (pool_client tk pool) env c (q, w) = Some (q', w')"
    and refl: "\<And>w. R w w" and trans: "\<And>x y z. R x y \<Longrightarrow> R y z \<Longrightarrow> R x z"
    and collect: "\<And>p i src n m s t s' t'.
      collect_premium tk (call_env env pool) p i src n s t = Inr (m, s', t') \<Longrightarrow> R (s, t) (s', t')"
    and refund: "\<And>p i dst n m s t s' t'.
      refund_premium tk (call_env env pool) p i dst n s t = Inr (m, s', t') \<Longrightarrow> R (s, t) (s', t')"
  shows "R w w'"
proof -
  have one: "R w w'"
    if "mint_one (pool_client tk pool) rp env holder payer p i terms maxp md s w = Inr (n, s', w')"
    for rp holder payer p i terms maxp md s w n s' w'
    using that
    by (cases w', elim mint_one_ok)
      (auto simp: pool_client_def deployed_at_def ok_simps split: prod.splits intro: collect)
  have batch: "R w w'"
    if "mint_entries (pool_client tk pool) rp env payer p i es ids0 s w = Inr (ids, s', w')"
    for rp payer p i es ids0 s w ids s' w'
    using mint_entries_relates [OF that, of "\<lambda>s w s' w'. R w w'"] refl trans one by blast
  have canc: "R w w'" if "cancel (pool_client tk pool) env n s w = Inr (m, s', w')" for n s w m s' w'
    using that
    by (cases w', elim cancel_ok)
      (auto simp: pool_client_def deployed_at_def ok_simps split: prod.splits intro: refund)
  from call show ?thesis
    by (cases c) (auto simp: ok_simps refl elim!: mint_ok mint_batch_ok dest: one batch canc)
qed

lemma call_policy_step:
  assumes "call_policy client env c (q, w) = Some (q', w')" and "host_env me env"
    and "now \<le> timestamp env"
  shows "pol_step client ext me (q, w, now) (q', w', timestamp env)"
  using assms by (cases c) (auto simp: ok_simps intro: pol_step.intros)

section \<open>The vault at work on the pool\<close>

lemma pay_batch_relates:
  assumes ok: "pay_batch clients env idx win p i entries s w = Inr (paid, s', w')"
    and refl: "\<And>w. R w w" and trans: "\<And>x y z. R x y \<Longrightarrow> R y z \<Longrightarrow> R x z"
    and pay: "\<And>pool p i n m w w'. client_pay_out clients (call_env env pool) pool p i
      (current_contract env) n w = Some (m, w') \<Longrightarrow> R w w'"
  shows "R w w'"
proof -
  have "R w w'"
    if "pay_entries clients env pool trigger idx win p i es (pr, pd, s, w) = Inr (pr', pd', s', w')"
    for pool trigger es pr pd s w pr' pd' s' w'
    using that
  proof (induction es arbitrary: pr pd s w)
    case Nil
    then show ?case by (simp add: refl)
  next
    case (Cons e es)
    then obtain pr1 pd1 s1 w1 where
        e: "pay_entry clients env pool trigger idx win p i e (pr, pd, s, w) = Inr (pr1, pd1, s1, w1)"
      and es: "pay_entries clients env pool trigger idx win p i es (pr1, pd1, s1, w1)
        = Inr (pr', pd', s', w')"
      by (auto simp: bind_ok_Inr)
    have "R w1 w'" using es by (rule Cons.IH)
    moreover have "R w w1" using e by (cases rule: pay_entry_ok) (auto simp: refl dest: pay)
    ultimately show ?case by (rule trans [rotated])
  qed
  with ok show ?thesis by (auto elim!: pay_batch_ok)
qed

lemma call_vault_step:
  assumes "call_vault clients tk env c (v, w) = Some (v', w')" and "host_env me env"
    and "now \<le> timestamp env"
  shows "va_step clients tk ext me (v, w, now) (v', w', timestamp env)"
  using assms by (cases c) (auto simp: ok_simps intro: va_step.intros)

text \<open>Beyond its own store a transaction of the vault only has the pool pay out to it, or moves its
  own tokens.\<close>

lemma call_vault_relates:
  assumes call: "call_vault (vault_clients tk engine pool) (vault_token tk) env c (v, e, s, t)
      = Some (v', e', s', t')"
    and refl: "\<And>w. R w w" and trans: "\<And>x y z. R x y \<Longrightarrow> R y z \<Longrightarrow> R x z"
    and pay: "\<And>p i n m s t s' t'.
      pay_out tk (call_env env pool) p i (current_contract env) n s t = Inr (m, s', t') \<Longrightarrow> R (s, t) (s', t')"
    and move: "\<And>tok dst n s t t'.
      tk (call_env env tok) tok (current_contract env) dst n t = Some t' \<Longrightarrow> R (s, t) (s, t')"
  shows "R (s, t) (s', t')" and "e' = e"
proof -
  have batch: "R (snd w) (snd w') \<and> fst w' = fst w"
    if "pay_batch (vault_clients tk engine pool) env idx win p i es v w = Inr (n, v', w')"
    for idx win p i es v w n v' w'
    using that
  proof (rule pay_batch_relates)
    fix x y z :: "'a vault_world"
    assume "R (snd x) (snd y) \<and> fst y = fst x" and "R (snd y) (snd z) \<and> fst z = fst y"
    then show "R (snd x) (snd z) \<and> fst z = fst x" using trans by metis
  next
    fix a p i m k and x y :: "'a vault_world"
    assume "client_pay_out (vault_clients tk engine pool) (call_env env a) a p i (current_contract env) m x
      = Some (k, y)"
    then show "R (snd x) (snd y) \<and> fst y = fst x"
      by (cases x; cases y) (auto simp: client_pay_out_Some deployed_at_def intro: pay)
  qed (simp add: refl)
  have "R (s, t) (s', t') \<and> e' = e"
  proof (cases c)
    case (CallPayBatch idx win p i es)
    with call batch show ?thesis by (fastforce simp: ok_simps)
  next
    case (CallClaim h)
    with call show ?thesis by (auto simp: ok_simps vault_token_Some elim!: claim_ok intro: move)
  qed (use call in \<open>auto simp: ok_simps refl\<close>)
  then show "R (s, t) (s', t')" and "e' = e" by blast+
qed

end
