(* ===== verification/Protocol_Run.thy ===== *)
theory Protocol_Run
  imports Protocol_Views
begin

text \<open>
  Runs of the whole protocol: they keep the wiring, and each of them is a run of every single
  contract against the others. Everything proved of a contract alone therefore holds of it inside the
  protocol.
\<close>

section \<open>The wiring\<close>

lemma contracts_simps [simp]:
  "at_oracle d \<in> contracts d" "at_engine d \<in> contracts d" "at_pool d \<in> contracts d"
  "at_policy d \<in> contracts d" "at_vault d \<in> contracts d" "callee d call \<in> contracts d"
  by (auto simp: contracts_def callee_def split: Call.split)

lemma callee_simps [simp]:
  "callee d (AtOracle c1) = at_oracle d" "callee d (AtEngine c2) = at_engine d"
  "callee d (AtPool c3) = at_pool d" "callee d (AtPolicy c4) = at_policy d"
  "callee d (AtVault c5) = at_vault d"
  by (simp_all add: callee_def)

lemma wired_deploy: "wired d (deploy d a now t)"
  by (simp add: wired_def deploy_def rp_constructor_def rp_empty_def)

text \<open>The deployed pool is what the constructor and the guardian's two wiring calls leave.\<close>

lemma deploy_wires_pool:
  assumes "require_auth env a"
  shows "bind_ok (set_policy_contract env (at_policy d) (rp_constructor a))
      (set_payout_vault env (at_vault d)) = Inr (pr_pool (deploy d a now t))"
  using assms
  by (simp add: set_policy_contract_def set_payout_vault_def rp_guards require_stored_def
      rp_constructor_def rp_empty_def deploy_def)

section \<open>What a transaction changes\<close>

lemma invoke_oracle:
  assumes "invoke tk to_xdr verify d env (AtOracle c) x = Some x'"
  obtains s where "call_oracle to_xdr verify env c (pr_oracle x) = Some s"
    "x' = x\<lparr>pr_now := timestamp env, pr_oracle := s\<rparr>"
  using assms by (auto simp: invoke_def Let_def intro: that)

lemma invoke_engine:
  assumes "invoke tk to_xdr verify d env (AtEngine c) x = Some x'"
  obtains s where "call_engine (at_oracle d) (pr_oracle x) env c (pr_engine x) = Some s"
    "x' = x\<lparr>pr_now := timestamp env, pr_engine := s\<rparr>"
  using assms by (auto simp: invoke_def Let_def intro: that)

lemma invoke_pool:
  assumes "invoke tk to_xdr verify d env (AtPool c) x = Some x'"
  obtains s t where "call_pool tk env c (pr_pool x, pr_token x) = Some (s, t)"
    "x' = x\<lparr>pr_now := timestamp env, pr_pool := s, pr_token := t\<rparr>"
  using assms by (auto simp: invoke_def Let_def intro: that)

lemma invoke_policy:
  assumes "invoke tk to_xdr verify d env (AtPolicy c) x = Some x'"
  obtains q s t where
    "call_policy (pool_client tk (at_pool d)) env c (pr_policy x, pr_pool x, pr_token x) = Some (q, s, t)"
    "x' = x\<lparr>pr_now := timestamp env, pr_policy := q, pr_pool := s, pr_token := t\<rparr>"
  using assms by (auto simp: invoke_def Let_def intro: that)

lemma invoke_vault:
  assumes "invoke tk to_xdr verify d env (AtVault c) x = Some x'"
  obtains v s t where
    "call_vault (vault_clients tk (at_engine d) (at_pool d)) (vault_token tk) env c
       (pr_vault x, pr_engine x, pr_pool x, pr_token x) = Some (v, pr_engine x, s, t)"
    "x' = x\<lparr>pr_now := timestamp env, pr_vault := v, pr_pool := s, pr_token := t\<rparr>"
proof -
  obtain v e s t where h: "call_vault (vault_clients tk (at_engine d) (at_pool d)) (vault_token tk) env c
       (pr_vault x, pr_engine x, pr_pool x, pr_token x) = Some (v, e, s, t)"
    "x' = x\<lparr>pr_now := timestamp env, pr_vault := v, pr_engine := e, pr_pool := s, pr_token := t\<rparr>"
    using assms by (auto simp: invoke_def Let_def)
  have "e = pr_engine x" using call_vault_relates(2) [OF h(1), of "\<lambda>_ _. True"] by simp
  with h show ?thesis by (intro that [of v s t]) simp_all
qed

section \<open>The wiring is kept\<close>

definition pool_wired :: "Deployment \<Rightarrow> RiskPoolStore \<Rightarrow> bool" where
  "pool_wired d s \<longleftrightarrow> PolicyContract s = Some (at_policy d) \<and> PayoutVault s = Some (at_vault d) \<and>
     (\<forall>p c. PoolConfigOf s p = Some c \<longrightarrow> cfg_token c = at_asset d)"

lemma wired_pool: "wired d x \<longleftrightarrow> pool_wired d (pr_pool x)"
  by (simp add: wired_def pool_wired_def)

text \<open>The addresses and the configurations are all the wiring depends on.\<close>

lemma pool_wired_cong:
  "PolicyContract s' = PolicyContract s \<Longrightarrow> PayoutVault s' = PayoutVault s \<Longrightarrow>
   PoolConfigOf s' = PoolConfigOf s \<Longrightarrow> pool_wired d s \<Longrightarrow> pool_wired d s'"
  by (simp add: pool_wired_def)

lemmas wiring_frame = ok_simps store_simps season_moves settle_tranches_frame

lemma call_pool_wired:
  assumes call: "call_pool tk env c (s, t) = Some (s', t')" and "keeps_wiring d (AtPool c)"
    and w: "pool_wired d s"
  shows "pool_wired d s'"
proof (cases c)
  case (CallCreatePool cfg)
  then show ?thesis using assms
    by (auto simp: ok_simps store_simps pool_wired_def elim!: create_pool_ok split: if_splits)
next
  case (CallSetPolicyContract a)
  then show ?thesis using assms by (auto simp: ok_simps pool_wired_def)
next
  case (CallSetPayoutVault a)
  then show ?thesis using assms by (auto simp: ok_simps pool_wired_def)
qed (use call w in \<open>auto simp: wiring_frame elim!: pool_wired_cong [rotated -1] deposit_ok withdraw_ok
    open_season_ok transition_season_ok collect_premium_ok refund_premium_ok pay_out_ok settle_season_ok\<close>)

text \<open>The calls of the policy contract and of the vault into the pool touch none of it.\<close>

lemma pool_client_wired:
  "collect_premium tk env p i src n s t = Inr (m, s', t') \<Longrightarrow> pool_wired d s \<Longrightarrow> pool_wired d s'"
  "refund_premium tk env p i dst n s t = Inr (m, s', t') \<Longrightarrow> pool_wired d s \<Longrightarrow> pool_wired d s'"
  "pay_out tk env p i dst n s t = Inr (m, s', t') \<Longrightarrow> pool_wired d s \<Longrightarrow> pool_wired d s'"
  by (auto simp: store_simps elim!: pool_wired_cong [rotated -1] collect_premium_ok refund_premium_ok
      pay_out_ok)

lemma invoke_wired:
  assumes call: "invoke tk to_xdr verify d env c x = Some y" and k: "keeps_wiring d c" and w: "wired d x"
  shows "wired d y"
proof (cases c)
  case (AtPool p)
  with call obtain s t where "call_pool tk env p (pr_pool x, pr_token x) = Some (s, t)"
      "y = x\<lparr>pr_now := timestamp env, pr_pool := s, pr_token := t\<rparr>" by (auto elim: invoke_pool)
  with call_pool_wired [OF this(1), of d] k w show ?thesis by (simp add: wired_pool AtPool)
next
  case (AtPolicy p)
  with call obtain q s t where
      h: "call_policy (pool_client tk (at_pool d)) env p (pr_policy x, pr_pool x, pr_token x) = Some (q, s, t)"
      "y = x\<lparr>pr_now := timestamp env, pr_policy := q, pr_pool := s, pr_token := t\<rparr>"
    by (auto elim: invoke_policy)
  have "pool_wired d (fst (pr_pool x, pr_token x)) \<longrightarrow> pool_wired d (fst (s, t))"
    by (rule call_policy_relates [OF h(1), where R = "\<lambda>w w'. pool_wired d (fst w) \<longrightarrow> pool_wired d (fst w')"])
      (auto dest: pool_client_wired)
  with h(2) w show ?thesis by (simp add: wired_pool)
next
  case (AtVault p)
  with call obtain v s t where
      h: "call_vault (vault_clients tk (at_engine d) (at_pool d)) (vault_token tk) env p
        (pr_vault x, pr_engine x, pr_pool x, pr_token x) = Some (v, pr_engine x, s, t)"
      "y = x\<lparr>pr_now := timestamp env, pr_vault := v, pr_pool := s, pr_token := t\<rparr>"
    by (auto elim: invoke_vault)
  have "pool_wired d (fst (pr_pool x, pr_token x)) \<longrightarrow> pool_wired d (fst (s, t))"
    by (rule call_vault_relates(1) [OF h(1), where R = "\<lambda>w w'. pool_wired d (fst w) \<longrightarrow> pool_wired d (fst w')"])
      (auto dest: pool_client_wired)
  with h(2) w show ?thesis by (simp add: wired_pool)
qed (use call w in \<open>auto simp: wired_pool elim!: invoke_oracle invoke_engine\<close>)

interpretation proto: state_machine "\<lambda>x. \<exists>a now t. x = deploy d a now t"
  "protocol_step tk bal to_xdr verify d" "wired d"
  for tk bal and to_xdr :: "ObservationPayload \<Rightarrow> 'm" and verify d
proof
  fix x :: "'a Protocol"
  assume "\<exists>a now t. x = deploy d a now t"
  then show "wired d x" by (auto simp: wired_deploy)
next
  fix x x' :: "'a Protocol"
  assume "protocol_step tk bal to_xdr verify d x x'" and "wired d x"
  then show "wired d x'"
    by cases (auto simp: wired_pool intro: invoke_wired [unfolded wired_pool])
qed

text \<open>A step by the contract that performs it.\<close>

lemma protocol_stepE:
  assumes "protocol_step tk bal to_xdr verify d x x'"
  obtains
    (by_oracle) env c s where "outside d env" "current_contract env = at_oracle d" "pr_now x \<le> timestamp env"
      "well_typed (AtOracle c)" "call_oracle to_xdr verify env c (pr_oracle x) = Some s"
      "x' = x\<lparr>pr_now := timestamp env, pr_oracle := s\<rparr>"
  | (by_engine) env c s where "outside d env" "current_contract env = at_engine d" "pr_now x \<le> timestamp env"
      "call_engine (at_oracle d) (pr_oracle x) env c (pr_engine x) = Some s"
      "x' = x\<lparr>pr_now := timestamp env, pr_engine := s\<rparr>"
  | (by_pool) env c s t where "outside d env" "current_contract env = at_pool d" "pr_now x \<le> timestamp env"
      "call_pool tk env c (pr_pool x, pr_token x) = Some (s, t)"
      "x' = x\<lparr>pr_now := timestamp env, pr_pool := s, pr_token := t\<rparr>"
  | (by_policy) env c q s t where "outside d env" "current_contract env = at_policy d" "pr_now x \<le> timestamp env"
      "call_policy (pool_client tk (at_pool d)) env c (pr_policy x, pr_pool x, pr_token x) = Some (q, s, t)"
      "x' = x\<lparr>pr_now := timestamp env, pr_policy := q, pr_pool := s, pr_token := t\<rparr>"
  | (by_vault) env c v s t where "outside d env" "current_contract env = at_vault d" "pr_now x \<le> timestamp env"
      "call_vault (vault_clients tk (at_engine d) (at_pool d)) (vault_token tk) env c
         (pr_vault x, pr_engine x, pr_pool x, pr_token x) = Some (v, pr_engine x, s, t)"
      "x' = x\<lparr>pr_now := timestamp env, pr_vault := v, pr_pool := s, pr_token := t\<rparr>"
  | (others) t now where "foreign bal d (pr_token x) t" "pr_now x \<le> now"
      "x' = x\<lparr>pr_token := t, pr_now := now\<rparr>"
  using assms
proof cases
  case (transaction env call)
  then show ?thesis
    by (cases call) (auto elim: invoke_oracle invoke_engine invoke_pool invoke_policy invoke_vault 
        intro: by_oracle by_engine by_pool by_policy by_vault)
next
  case (elsewhere t now)
  then show ?thesis by (intro others)
qed

lemma step_now: "protocol_step tk bal to_xdr verify d x x' \<Longrightarrow> pr_now x \<le> pr_now x'"
  by (erule protocol_stepE) simp_all

section \<open>Every step, seen by the pool\<close>

text \<open>Addresses of a sound deployment differ.\<close>

lemma sound_distinct:
  assumes "sound_deployment d a"
  shows "at_policy d \<noteq> at_pool d" "at_pool d \<noteq> at_policy d" "at_vault d \<noteq> at_pool d"
    "at_pool d \<noteq> at_vault d" "at_policy d \<noteq> at_vault d" "at_vault d \<noteq> at_policy d"
  using assms by (auto simp: sound_deployment_def)

lemma foreign_kept: "foreign bal d t t' \<Longrightarrow> a \<in> contracts d \<Longrightarrow> kept bal a t t'"
  by (simp add: foreign_def kept_def)

lemma step_pool:
  assumes sac: "sac_transfer tk bal" and sound: "sound_deployment d a"
    and step: "protocol_step tk bal to_xdr verify d x x'"
  shows "(rp_step tk (kept bal (at_pool d)) (at_pool d))\<^sup>*\<^sup>* (seen_by_pool x) (seen_by_pool x')"
    (is "?R\<^sup>*\<^sup>* _ _")
  using step
proof (cases rule: protocol_stepE)
  case (by_pool env c s t)
  from call_pool_step [OF by_pool(4) outside_host_env [OF by_pool(1) _ by_pool(2)]]
  show ?thesis by (auto simp: seen_by_pool_def by_pool(5))
next
  case (by_policy env c q s t)
  have h: "host_env (at_pool d) (call_env env (at_pool d))"
    by (rule inner_host_env [OF by_policy(1)]) (simp_all add: by_policy(2) sound_distinct [OF sound])
  have "?R\<^sup>*\<^sup>* (pr_pool x, pr_token x) (s, t)"
    by (rule call_policy_relates [OF by_policy(4), where R = "?R\<^sup>*\<^sup>*"])
      (auto intro: rp_collect_premium [OF h] rp_refund_premium [OF h])
  then show ?thesis by (simp add: seen_by_pool_def by_policy(5))
next
  case (by_vault env c v s t)
  have h: "host_env (at_pool d) (call_env env (at_pool d))"
    by (rule inner_host_env [OF by_vault(1)]) (simp_all add: by_vault(2) sound_distinct [OF sound])
  have "?R\<^sup>*\<^sup>* (pr_pool x, pr_token x) (s, t)"
  proof (rule call_vault_relates(1) [OF by_vault(4), where R = "?R\<^sup>*\<^sup>*"])
    fix tok dst n s t t'
    assume "tk (call_env env tok) tok (current_contract env) dst n t = Some t'"
    then have "kept bal (at_pool d) t t'"
      by (rule transfer_kept [OF sac]) (simp add: by_vault(2) sound_distinct [OF sound])
    then show "?R\<^sup>*\<^sup>* (s, t) (s, t')" by (blast intro: rp_ledger)
  qed (auto intro: rp_pay_out [OF h])
  then show ?thesis by (simp add: seen_by_pool_def by_vault(5))
next
  case (others t now)
  then have "?R (pr_pool x, pr_token x) (pr_pool x, t)" by (intro rp_ledger) (simp add: foreign_kept)
  then show ?thesis by (auto simp: seen_by_pool_def others(3))
qed (simp_all add: seen_by_pool_def)

section \<open>Every step, seen by the policy contract\<close>

lemma step_policy:
  assumes sac: "sac_transfer tk bal" and sound: "sound_deployment d a"
    and step: "protocol_step tk bal to_xdr verify d x x'" and wx: "wired d x" and wx': "wired d x'"
  shows "(pol_step (pool_client tk (at_pool d)) (pool_rest tk (kept bal (at_pool d)) (at_pool d) (at_policy d))
    (at_policy d))\<^sup>*\<^sup>* (seen_by_policy x) (seen_by_policy x')"
    (is "(pol_step ?cl ?R _)\<^sup>*\<^sup>* _ _")
proof -
  have quiet: "(pol_step ?cl ?R (at_policy d))\<^sup>*\<^sup>* (q, w, now) (q, w', now')"
    if "?R\<^sup>*\<^sup>* w w'" "now \<le> now'" for q w w' now now'
    using that by (rule pol_idle)
  have pc: "PolicyContract (pr_pool x') = PolicyContract (pr_pool x)" using wx wx' by (simp add: wired_def)
  from step show ?thesis
  proof (cases rule: protocol_stepE)
    case (by_pool env c s t)
    have "rp_step tk (kept bal (at_pool d)) (at_pool d) (pr_pool x, pr_token x) (s, t)"
      by (rule call_pool_step [OF by_pool(4) outside_host_env [OF by_pool(1) _ by_pool(2)]]) simp
    moreover have "\<not> refunded (pr_pool x) s"
      using call_pool_not_refunded [OF by_pool(4)] wx outsideD(1) [OF by_pool(1)] by (simp add: wired_def)
    ultimately have "?R (pr_pool x, pr_token x) (s, t)"
      using pc by (intro pool_restI) (simp_all add: by_pool(5))
    then show ?thesis using by_pool(3) by (auto simp: seen_by_policy_def by_pool(5) intro: quiet)
  next
    case (by_policy env c q s t)
    from call_policy_step [OF by_policy(4) outside_host_env [OF by_policy(1) _ by_policy(2)] by_policy(3)]
    show ?thesis by (auto simp: seen_by_policy_def by_policy(5))
  next
    case (by_vault env c v s t)
    have h: "host_env (at_pool d) (call_env env (at_pool d))"
      by (rule inner_host_env [OF by_vault(1)]) (simp_all add: by_vault(2) sound_distinct [OF sound])
    have "?R\<^sup>*\<^sup>* (pr_pool x, pr_token x) (s, t)"
    proof (rule call_vault_relates(1) [OF by_vault(4), where R = "?R\<^sup>*\<^sup>*"])
      fix p i n m s t s' t'
      assume po: "pay_out tk (call_env env (at_pool d)) p i (current_contract env) n s t = Inr (m, s', t')"
      have "PolicyContract s' = PolicyContract s" using po by (auto elim!: pay_out_ok simp: store_simps)
      then have "?R (s, t) (s', t')"
        using rp_pay_out [OF h po] pay_out_not_refunded [OF po] by (intro pool_restI) simp_all
      then show "?R\<^sup>*\<^sup>* (s, t) (s', t')" ..
    next
      fix tok dst n s t t'
      assume "tk (call_env env tok) tok (current_contract env) dst n t = Some t'"
      then have "kept bal (at_pool d) t t'"
        by (rule transfer_kept [OF sac]) (simp add: by_vault(2) sound_distinct [OF sound])
      then show "?R\<^sup>*\<^sup>* (s, t) (s, t')" by (blast intro: pool_rest_ledger)
    qed auto
    then show ?thesis using by_vault(3) by (auto simp: seen_by_policy_def by_vault(5) intro: quiet)
  next
    case (others t now)
    then have "?R (pr_pool x, pr_token x) (pr_pool x, t)"
      by (intro pool_rest_ledger) (simp add: foreign_kept)
    then show ?thesis using others(2) by (auto simp: seen_by_policy_def others(3) intro!: quiet)
  qed (simp_all add: seen_by_policy_def quiet)
qed

section \<open>Every step, seen by the vault\<close>

lemma step_vault:
  assumes sac: "sac_transfer tk bal" and sound: "sound_deployment d a"
    and step: "protocol_step tk bal to_xdr verify d x x'" and wx': "wired d x'"
  shows "va_step (vault_clients tk (at_engine d) (at_pool d)) (vault_token tk)
    (vault_rest bal (at_asset d) (at_vault d)) (at_vault d) (seen_by_vault x) (seen_by_vault x')"
    (is "va_step ?cl ?tk ?R _ _ _")
proof -
  have quiet: ?thesis if "kept bal (at_vault d) (pr_token x) (pr_token x')" "pr_vault x' = pr_vault x"
    using that wx' step_now [OF step]
    by (auto simp: seen_by_vault_def vault_rest_def vault_balance_def kept_def wired_def intro: va_rest)
  from step show ?thesis
  proof (cases rule: protocol_stepE)
    case (by_pool env c s t)
    then show ?thesis
      using sound_distinct [OF sound] outsideD(1) [OF by_pool(1), of "at_vault d"]
      by (intro quiet) (auto intro: call_pool_kept [OF sac])
  next
    case (by_policy env c q s t)
    let ?K = "\<lambda>w w'. kept bal (at_vault d) (snd w) (snd w')"
    have no: "\<not> require_auth (call_env env (at_pool d)) (at_vault d)"
      using outside_call_env [OF by_policy(1), of "at_vault d"] by (simp add: by_policy(2) sound_distinct [OF sound])
    have "?K (pr_pool x, pr_token x) (s, t)"
      by (rule call_policy_relates [OF by_policy(4), where R = ?K])
        (auto intro: kept_trans collect_kept [OF sac _ no] refund_kept [OF sac] simp: sound_distinct [OF sound])
    then show ?thesis by (intro quiet) (simp_all add: by_policy(5))
  next
    case (by_vault env c v s t)
    from call_vault_step [OF by_vault(4) outside_host_env [OF by_vault(1) _ by_vault(2)] by_vault(3)]
    show ?thesis by (simp add: seen_by_vault_def by_vault(5))
  next
    case (others t now)
    then show ?thesis by (intro quiet) (auto intro: foreign_kept)
  next
    case (by_oracle env c s)
    then show ?thesis by (intro quiet) simp_all
  next
    case (by_engine env c s)
    then show ?thesis by (intro quiet) simp_all
  qed
qed

section \<open>Every step, seen by the trigger engine and the oracle\<close>

lemma step_engine:
  assumes "protocol_step tk bal to_xdr verify d x x'" and "n \<le> pr_now x"
  shows "pr_engine x' = pr_engine x \<or>
    te_step (oracle_client (at_oracle d)) (pr_engine x, n) (pr_engine x', pr_now x')"
  using assms(1)
proof (cases rule: protocol_stepE)
  case (by_engine env c s)
  have "n \<le> timestamp env" using assms(2) by_engine(3) by (rule order_trans)
  with by_engine(4) show ?thesis
    by (cases c) (auto simp: ok_simps by_engine(5) intro: te_step.intros)
qed simp_all

lemma step_oracle:
  assumes "protocol_step tk bal to_xdr verify d x x'" and "n \<le> pr_now x"
  shows "pr_oracle x' = pr_oracle x \<or>
    or_step to_xdr verify (pr_oracle x, n) (pr_oracle x', pr_now x')"
  using assms(1)
proof (cases rule: protocol_stepE)
  case (by_oracle env c s)
  have "n \<le> timestamp env" using assms(2) by_oracle(3) by (rule order_trans)
  with by_oracle(4,5) show ?thesis
    by (cases c) (auto simp: ok_simps by_oracle(6) intro: or_step.intros)
qed simp_all

end
