(* ===== verification/Protocol_Live.thy ===== *)
theory Protocol_Live
  imports Protocol_Run
begin

text \<open>
  The states a deployed protocol reaches, and what each contract is in them: a reachable state of that
  contract alone, so that its invariant holds.
\<close>

section \<open>Runs, contract by contract\<close>

lemma protocol_projects:
  assumes run: "protocol_reachable tk bal to_xdr verify d x0 x" and start: "wired d x0"
    and step: "\<And>x y. protocol_step tk bal to_xdr verify d x y \<Longrightarrow> wired d x \<Longrightarrow> wired d y \<Longrightarrow>
      r\<^sup>*\<^sup>* (f x) (f y)"
  shows "r\<^sup>*\<^sup>* (f x0) (f x)"
  by (rule proto.run_relates [where R = "\<lambda>x y. r\<^sup>*\<^sup>* (f x) (f y)",
        OF _ _ _ run [unfolded protocol_reachable_def] start])
    (auto intro: step rtranclp_trans proto.step_inv)

lemma protocol_keeps:
  assumes run: "protocol_reachable tk bal to_xdr verify d x0 x" and start: "wired d x0" and "P x0"
    and step: "\<And>x y. protocol_step tk bal to_xdr verify d x y \<Longrightarrow> wired d x \<Longrightarrow> P x \<Longrightarrow> P y"
  shows "P x"
proof -
  have "P x0 \<longrightarrow> P x"
    by (rule proto.run_relates [where R = "\<lambda>x y. P x \<longrightarrow> P y",
          OF _ _ _ run [unfolded protocol_reachable_def] start]) (auto intro: step)
  with assms(3) show ?thesis by blast
qed

text \<open>A deployed protocol in a state it has reached.\<close>

definition protocol_live ::
    "'t transfer_fn \<Rightarrow> 't balance_fn \<Rightarrow> (ObservationPayload \<Rightarrow> 'm) \<Rightarrow>
     (Bytes32 \<Rightarrow> 'm \<Rightarrow> Bytes64 \<Rightarrow> bool) \<Rightarrow> Deployment \<Rightarrow> 't \<Rightarrow> 't Protocol \<Rightarrow> bool" where
  "protocol_live tk bal to_xdr verify d t0 x \<longleftrightarrow> sac_transfer tk bal \<and>
     (\<exists>a now. sound_deployment d a \<and> protocol_reachable tk bal to_xdr verify d (deploy d a now t0) x)"

lemma protocol_liveE:
  assumes "protocol_live tk bal to_xdr verify d t0 x"
  obtains a now where "sac_transfer tk bal" "sound_deployment d a"
    "protocol_reachable tk bal to_xdr verify d (deploy d a now t0) x"
  using assms by (auto simp: protocol_live_def)

lemma protocol_live_step:
  "protocol_live tk bal to_xdr verify d t0 x \<Longrightarrow> protocol_step tk bal to_xdr verify d x y \<Longrightarrow>
   protocol_live tk bal to_xdr verify d t0 y"
  unfolding protocol_live_def protocol_reachable_def by (blast intro: rtranclp.rtrancl_into_rtrancl)

lemma protocol_live_keeps:
  assumes live: "protocol_live tk bal to_xdr verify d t0 x"
    and start: "\<And>a now. sound_deployment d a \<Longrightarrow> P (deploy d a now t0)"
    and step: "\<And>x y. protocol_step tk bal to_xdr verify d x y \<Longrightarrow>
      protocol_live tk bal to_xdr verify d t0 x \<Longrightarrow> P x \<Longrightarrow> P y"
  shows "P x"
proof -
  from live obtain a now where h: "sac_transfer tk bal" "sound_deployment d a"
    "protocol_reachable tk bal to_xdr verify d (deploy d a now t0) x" by (rule protocol_liveE)
  have "P x \<and> protocol_live tk bal to_xdr verify d t0 x"
    using h(3) unfolding protocol_reachable_def
  proof (induction rule: rtranclp_induct)
    case base
    have "protocol_live tk bal to_xdr verify d t0 (deploy d a now t0)"
      using h(1,2) unfolding protocol_live_def protocol_reachable_def by blast
    with start [OF h(2)] show ?case by simp
  next
    case (step y z)
    then show ?case by (blast intro: assms(3) protocol_live_step)
  qed
  then show ?thesis ..
qed

lemma protocol_live_wired: "protocol_live tk bal to_xdr verify d t0 x \<Longrightarrow> wired d x"
  by (erule protocol_live_keeps) (auto simp: wired_deploy intro: proto.step_inv)

lemma pool_view:
  assumes "protocol_live tk bal to_xdr verify d t0 x"
  obtains a where "(rp_step tk (kept bal (at_pool d)) (at_pool d))\<^sup>*\<^sup>* (rp_constructor a, t0) (seen_by_pool x)"
proof -
  let ?R = "rp_step tk (kept bal (at_pool d)) (at_pool d)"
  from assms obtain a now where h: "sac_transfer tk bal" "sound_deployment d a"
    "protocol_reachable tk bal to_xdr verify d (deploy d a now t0) x" by (rule protocol_liveE)
  define env where "env = \<lparr>timestamp = now, current_contract = at_pool d, invoker = Some a, signed = \<lambda>_ _. False\<rparr>"
  have env: "host_env (at_pool d) env" "require_auth env a"
    using h(2) by (auto simp: env_def host_env_def no_self_auth_def require_auth_def sound_deployment_def)
  obtain s1 where s1: "set_policy_contract env (at_policy d) (rp_constructor a) = Inr s1"
    "set_payout_vault env (at_vault d) s1 = Inr (pr_pool (deploy d a now t0))"
    using deploy_wires_pool [OF env(2), of d now t0] by (auto simp: bind_ok_Inr)
  have "?R\<^sup>*\<^sup>* (rp_constructor a, t0) (s1, t0)"
    by (intro r_into_rtranclp rp_set_policy_contract [OF env(1) s1(1)])
  also have "?R\<^sup>*\<^sup>* (s1, t0) (seen_by_pool (deploy d a now t0))"
    unfolding seen_by_pool_def
    by (rule r_into_rtranclp) (simp add: deploy_def rp_set_payout_vault [OF env(1) s1(2) [unfolded deploy_def, simplified]])
  also have "?R\<^sup>*\<^sup>* (seen_by_pool (deploy d a now t0)) (seen_by_pool x)"
    by (rule protocol_projects [OF h(3) wired_deploy]) (rule step_pool [OF h(1,2)])
  finally show ?thesis by (rule that)
qed

lemma policy_view:
  assumes "protocol_live tk bal to_xdr verify d t0 x"
  obtains a now where "sound_deployment d a"
    "(pol_step (pool_client tk (at_pool d)) (pool_rest tk (kept bal (at_pool d)) (at_pool d) (at_policy d))
       (at_policy d))\<^sup>*\<^sup>* (seen_by_policy (deploy d a now t0)) (seen_by_policy x)"
proof -
  from assms obtain a now where h: "sac_transfer tk bal" "sound_deployment d a"
    "protocol_reachable tk bal to_xdr verify d (deploy d a now t0) x" by (rule protocol_liveE)
  show ?thesis
    by (rule that [OF h(2) protocol_projects [OF h(3) wired_deploy]]) (rule step_policy [OF h(1,2)])
qed

lemma vault_view:
  assumes "protocol_live tk bal to_xdr verify d t0 x"
  obtains a now where "sound_deployment d a"
    "(va_step (vault_clients tk (at_engine d) (at_pool d)) (vault_token tk)
       (vault_rest bal (at_asset d) (at_vault d)) (at_vault d))\<^sup>*\<^sup>*
       (seen_by_vault (deploy d a now t0)) (seen_by_vault x)"
proof -
  from assms obtain a now where h: "sac_transfer tk bal" "sound_deployment d a"
    "protocol_reachable tk bal to_xdr verify d (deploy d a now t0) x" by (rule protocol_liveE)
  show ?thesis
    by (rule that [OF h(2) protocol_projects [OF h(3) wired_deploy]])
      (intro r_into_rtranclp step_vault [OF h(1,2)])
qed

lemma engine_view:
  assumes "protocol_live tk bal to_xdr verify d t0 x"
  shows "\<exists>n\<le>pr_now x. te_reachable (oracle_client (at_oracle d)) (pr_engine x) n"
  using assms
proof (rule protocol_live_keeps)
  fix a now
  show "\<exists>n\<le>pr_now (deploy d a now t0). te_reachable (oracle_client (at_oracle d)) (pr_engine (deploy d a now t0)) n"
    unfolding te_reachable_def by (auto simp: deploy_def)
next
  fix x y
  assume st: "protocol_step tk bal to_xdr verify d x y"
    and "\<exists>n\<le>pr_now x. te_reachable (oracle_client (at_oracle d)) (pr_engine x) n"
  then obtain n where n: "n \<le> pr_now x" "te_reachable (oracle_client (at_oracle d)) (pr_engine x) n" by blast
  from step_engine [OF st n(1)]
  show "\<exists>n\<le>pr_now y. te_reachable (oracle_client (at_oracle d)) (pr_engine y) n"
    using n step_now [OF st] by (auto dest: te_reachable_step intro: order_trans)
qed

lemma oracle_view:
  assumes "protocol_live tk bal to_xdr verify d t0 x"
  shows "\<exists>n\<le>pr_now x. or_reachable to_xdr verify (pr_oracle x) n"
  using assms
proof (rule protocol_live_keeps)
  fix a now
  show "\<exists>n\<le>pr_now (deploy d a now t0). or_reachable to_xdr verify (pr_oracle (deploy d a now t0)) n"
    unfolding or_reachable_def by (auto simp: deploy_def)
next
  fix x y
  assume st: "protocol_step tk bal to_xdr verify d x y"
    and "\<exists>n\<le>pr_now x. or_reachable to_xdr verify (pr_oracle x) n"
  then obtain n where n: "n \<le> pr_now x" "or_reachable to_xdr verify (pr_oracle x) n" by blast
  from step_oracle [OF st n(1)]
  show "\<exists>n\<le>pr_now y. or_reachable to_xdr verify (pr_oracle y) n"
    using n step_now [OF st] by (auto dest: or_reachable_step intro: order_trans)
qed

section \<open>Every contract keeps its invariant\<close>

lemma pool_live_inv: "protocol_live tk bal to_xdr verify d t0 x \<Longrightarrow> rp_inv (pr_pool x)"
  by (erule pool_view) (metis rp_reachable_def rp_reachable_inv seen_by_pool_def)

text \<open>The vault of a live protocol is a reachable vault, wired to the engine from the start.\<close>

lemma vault_live:
  assumes live: "protocol_live tk bal to_xdr verify d t0 x"
  shows "va_inv (pr_vault x)" and "TriggerRef (pr_vault x) = Some (at_engine d)"
    and "VaToken (pr_vault x) = Some (at_asset d)" and "PoolRef (pr_vault x) = Some (at_pool d)"
    and "va_reachable (vault_clients tk (at_engine d) (at_pool d)) (vault_token tk)
      (vault_rest bal (at_asset d) (at_vault d)) (at_vault d)
      (pr_vault x) (pr_engine x, pr_pool x, pr_token x) (pr_now x)"
proof -
  let ?step = "va_step (vault_clients tk (at_engine d) (at_pool d)) (vault_token tk)
       (vault_rest bal (at_asset d) (at_vault d)) (at_vault d)"
  let ?reach = "va_reachable (vault_clients tk (at_engine d) (at_pool d)) (vault_token tk)
      (vault_rest bal (at_asset d) (at_vault d)) (at_vault d)"
  obtain a now where run: "?step\<^sup>*\<^sup>* (seen_by_vault (deploy d a now t0)) (seen_by_vault x)"
    by (rule vault_view [OF live])
  obtain w0 where start: "seen_by_vault (deploy d a now t0)
      = (va_constructor a (at_pool d) (at_policy d) (at_engine d) (at_asset d), w0, now)"
    by (simp add: seen_by_vault_def deploy_def)
  have base: "?reach (va_constructor a (at_pool d) (at_policy d) (at_engine d) (at_asset d)) w0 now"
    unfolding va_reachable_def by blast
  show "?reach (pr_vault x) (pr_engine x, pr_pool x, pr_token x) (pr_now x)"
    using run unfolding va_reachable_def start seen_by_vault_def [of x] by blast
  then show "va_inv (pr_vault x)" by (rule va_reachable_inv)
  from va_run_forward [OF base run [unfolded start seen_by_vault_def [of x]]]
  show "TriggerRef (pr_vault x) = Some (at_engine d)" and "VaToken (pr_vault x) = Some (at_asset d)"
    and "PoolRef (pr_vault x) = Some (at_pool d)"
    by (simp_all add: va_forward_def va_constructor_def)
qed

end
