(* ===== verification/Protocol_Books.thy ===== *)
theory Protocol_Books
  imports Protocol_Live Trigger_Earned
begin

text \<open>
  Books that span contracts, kept by every transaction of the whole protocol: the payouts the pool's
  seasons have booked against the vault's records and claims, the payout records against the
  windows of the trigger engine, and the balances of the pool and the vault.
\<close>

section \<open>The vault's books, summed over the owners\<close>

lemma paid_total_granted: "paid_total s = (\<Sum>h\<in>UNIV. granted s h)"
proof -
  have "(\<Sum>h\<in>UNIV. owed_by y h) = amount_of y" for y
    by (cases y) (simp_all add: owed_by_def amount_of_def)
  then have "paid_total s = (\<Sum>i\<in>UNIV. \<Sum>h\<in>UNIV. owed_by (PayoutOf s i) h)"
    by (simp add: paid_total_def)
  also have "\<dots> = (\<Sum>h\<in>UNIV. granted s h)" unfolding granted_def by (rule sum.swap)
  finally show ?thesis .
qed

definition total_claimed :: "VaultStore \<Rightarrow> int" where
  "total_claimed s = (\<Sum>h\<in>UNIV. claimed_in (va_events s) h)"

lemma books_total: "va_books s \<Longrightarrow> paid_total s = total_claims s + total_claimed s"
  by (simp add: va_books_def paid_total_granted total_claims_def total_claimed_def
      flip: sum.distrib)

lemma record_all_claimed: "claimed_in (va_events (record_all now ds s)) h = claimed_in (va_events s) h"
  by (induction ds arbitrary: s) (auto simp: store_simps)

lemma pay_batch_claimed:
  assumes "pay_batch (vault_clients tk engine pool) env idx win p i es s w = Inr (n, s', w')"
  shows "total_claimed s' = total_claimed s"
proof -
  obtain trigger where "TriggerRef s = Some trigger" by (rule pay_batch_ok [OF assms])
  from pay_batch_due [OF vault_quotes_stable assms this]
  show ?thesis by (auto simp: Let_def batch_done_def total_claimed_def record_all_claimed)
qed

section \<open>The pool's payouts are the vault's records\<close>

definition pool_booked :: "RiskPoolStore \<Rightarrow> int" where
  "pool_booked s = (\<Sum>k\<in>UNIV. paid_in (SeasonOf s k))"

lemma booked_payouts_pool: "booked_payouts (te, s, t) = pool_booked s"
  by (simp add: booked_payouts_def pool_booked_def)

lemma pool_booked_cong: "(\<And>k. paid_in (SeasonOf s' k) = paid_in (SeasonOf s k)) \<Longrightarrow> pool_booked s' = pool_booked s"
  by (simp add: pool_booked_def)

lemma call_pool_booked:
  assumes call: "call_pool tk env c (s, t) = Some (s', t')" and inv: "rp_inv s"
    and vault: "PayoutVault s = Some pv" "\<not> require_auth env pv"
  shows "pool_booked s' = pool_booked s"
proof (rule pool_booked_cong)
  fix k
  have fresh: "SeasonOf s (p, i) = None" if "open_season env p s = Inr (i, s')" for p i
    using open_season_keeps(2) [OF that inv] by simp
  show "paid_in (SeasonOf s' k) = paid_in (SeasonOf s k)"
  proof (cases c)
    case (CallOpenSeason p)
    then obtain i where h: "open_season env p s = Inr (i, s')" using call by (auto simp: ok_simps)
    show ?thesis using h fresh [OF h] by (auto elim!: open_season_ok simp: paid_in_def store_simps)
  qed (use call vault in \<open>auto simp: ok_simps paid_in_def store_simps set_policy_contract_Inr
      set_payout_vault_Inr season_moves settle_tranches_frame
      elim!: create_pool_ok deposit_ok withdraw_ok transition_season_ok collect_premium_ok
        refund_premium_ok pay_out_ok settle_season_ok\<close>)
qed

lemma call_policy_booked:
  assumes "call_policy (pool_client tk pool) env c (q, s, t) = Some (q', s', t')"
  shows "pool_booked s' = pool_booked s"
proof -
  have "pool_booked (fst (s', t')) = pool_booked (fst (s, t))"
    by (rule call_policy_relates [OF assms, where R = "\<lambda>w w'. pool_booked (fst w') = pool_booked (fst w)"])
      (auto elim!: collect_premium_ok refund_premium_ok simp: pool_booked_def paid_in_def store_simps
        intro!: sum.cong)
  then show ?thesis by simp
qed

text \<open>A transaction of the vault books with the pool what it adds to the records.\<close>

lemma call_vault_booked:
  assumes sac: "sac_transfer tk bal"
    and call: "call_vault (vault_clients tk engine pool) (vault_token tk) env c (v, e, s, t) = Some (v', e', s', t')"
    and inv: "va_inv v"
  shows "pool_booked s' - pool_booked s = paid_total v' - paid_total v"
proof (cases c)
  case (CallPayBatch idx win p i es)
  then obtain n where h: "pay_batch (vault_clients tk engine pool) env idx win p i es v (e, s, t) = Inr (n, v', e', s', t')"
    using call by (auto simp: ok_simps)
  have "va_inv v'" by (rule pay_batch_advances [OF h inv]) blast
  then have "paid_total v' = total_claims v' + total_claimed v'" "paid_total v = total_claims v + total_claimed v"
    using inv by (simp_all add: books_total va_inv_def)
  moreover have "pool_booked s' - pool_booked s = total_claims v' - total_claims v"
    using booked.pay_batch_funds [OF h refl sac] by (simp add: booked_payouts_pool)
  ultimately show ?thesis using pay_batch_claimed [OF h] by simp
qed (use call in \<open>auto simp: ok_simps vault_token_Some paid_total_def store_simps
      elim!: pause_ok unpause_ok close_batch_ok claim_ok\<close>)

lemma step_booked:
  assumes sac: "sac_transfer tk bal" and step: "protocol_step tk bal to_xdr verify d x y"
    and w: "wired d x" and inv: "rp_inv (pr_pool x)" "va_inv (pr_vault x)"
  shows "pool_booked (pr_pool y) - pool_booked (pr_pool x) = paid_total (pr_vault y) - paid_total (pr_vault x)"
  using step
proof (cases rule: protocol_stepE)
  case (by_pool env c s t)
  have "pool_booked s = pool_booked (pr_pool x)"
    using call_pool_booked [OF by_pool(4) inv(1)] w outsideD(1) [OF by_pool(1), of "at_vault d"]
    by (simp add: wired_def)
  then show ?thesis by (simp add: by_pool(5))
next
  case (by_policy env c q s t)
  from call_policy_booked [OF by_policy(4)] show ?thesis by (simp add: by_policy(5))
next
  case (by_vault env c v s t)
  from call_vault_booked [OF sac by_vault(4) inv(2)] show ?thesis by (simp add: by_vault(5))
qed simp_all

lemma live_booked:
  assumes live: "protocol_live tk bal to_xdr verify d t0 x"
  shows "pool_booked (pr_pool x) = paid_total (pr_vault x)"
  using live
proof (rule protocol_live_keeps)
  fix a now
  show "pool_booked (pr_pool (deploy d a now t0)) = paid_total (pr_vault (deploy d a now t0))"
    by (simp add: deploy_def pool_booked_def paid_in_def rp_constructor_def rp_empty_def paid_total_def
        va_constructor_def va_empty_def)
next
  fix x y
  assume st: "protocol_step tk bal to_xdr verify d x y" and l: "protocol_live tk bal to_xdr verify d t0 x"
    and eq: "pool_booked (pr_pool x) = paid_total (pr_vault x)"
  have "sac_transfer tk bal" using l by (rule protocol_liveE)
  from step_booked [OF this st protocol_live_wired [OF l] pool_live_inv [OF l] vault_live(1) [OF l]] eq
  show "pool_booked (pr_pool y) = paid_total (pr_vault y)" by simp
qed

section \<open>Payouts are earned\<close>

text \<open>
  A payout on record was made by a batch of the run: the transaction \<^term>\<open>CallPayBatch\<close> found no record
  for the policy, named it in one of its entries, and left the record for the owner of that entry, at
  its own time. The window of the batch was then finalized, complete and breached, its severity the
  curve's, and the amount is the floor of that share of the coverage of the entry.
\<close>

definition earned_by :: "TriggerStore \<Rightarrow> u64 \<Rightarrow> u64 \<Rightarrow> PayoutEntry \<Rightarrow> PayoutRecord \<Rightarrow> bool" where
  "earned_by te idx win e r \<longleftrightarrow> (\<exists>at sev def.
     trigger_state te idx win = Finalized at sev \<and> at \<le> paid_at r \<and> complete te idx win \<and>
     index_def te idx = Inr def \<and> breached (index_params def) (accumulator te idx win) \<and>
     uint sev = severity_ramp (index_span (index_params def))
       (index_depth (index_params def) (accumulator te idx win)) \<and>
     payout_owner r = payee_owner e \<and> payout_amount r = payee_coverage e * uint sev div 10000 \<and>
     0 < payout_amount r \<and> payout_amount r \<le> payee_coverage e)"

definition paid_in_run ::
    "'t transfer_fn \<Rightarrow> 't balance_fn \<Rightarrow> (ObservationPayload \<Rightarrow> 'm) \<Rightarrow>
     (Bytes32 \<Rightarrow> 'm \<Rightarrow> Bytes64 \<Rightarrow> bool) \<Rightarrow> Deployment \<Rightarrow> 't \<Rightarrow> 't Protocol \<Rightarrow> u64 \<Rightarrow> PayoutRecord \<Rightarrow> bool" where
  "paid_in_run tk bal to_xdr verify d t0 x n r \<longleftrightarrow> (\<exists>y z env idx win p i entries e.
     protocol_live tk bal to_xdr verify d t0 y \<and>
     invoke tk to_xdr verify d env (AtVault (CallPayBatch idx win p i entries)) y = Some z \<and>
     (protocol_step tk bal to_xdr verify d)\<^sup>*\<^sup>* z x \<and>
     PayoutOf (pr_vault y) n = None \<and> PayoutOf (pr_vault z) n = Some r \<and>
     e \<in> set entries \<and> payee_policy e = n \<and> paid_at r = timestamp env \<and>
     earned_by (pr_engine y) idx win e r)"

lemma paid_in_run_later:
  "paid_in_run tk bal to_xdr verify d t0 x n r \<Longrightarrow> protocol_step tk bal to_xdr verify d x x' \<Longrightarrow>
   paid_in_run tk bal to_xdr verify d t0 x' n r"
  unfolding paid_in_run_def by (blast intro: rtranclp.rtrancl_into_rtrancl)

text \<open>Only a batch makes a new record.\<close>

lemma call_vault_new_payout:
  assumes call: "call_vault (vault_clients tk engine pool) (vault_token tk) env c (v, e, s, t) = Some (v', e', s', t')"
    and ref: "TriggerRef v = Some engine" and run: "te_reachable med e n" and "n \<le> timestamp env"
    and fresh: "PayoutOf v k = None" and rec: "PayoutOf v' k = Some r"
  obtains idx win p i entries x where "c = CallPayBatch idx win p i entries" "x \<in> set entries"
    "payee_policy x = k" "paid_at r = timestamp env" "earned_by e idx win x r"
proof (cases c)
  case (CallPayBatch idx win p i es)
  then obtain m where h: "pay_batch (vault_clients tk engine pool) env idx win p i es v (e, s, t)
      = Inr (m, v', e', s', t')"
    using call by (auto simp: ok_simps)
  obtain x a where x: "x \<in> set es" "payee_policy x = k" "r = payout_record x a (timestamp env)" "0 < a"
      "payout_for idx win (payee_coverage x) e = Inr a"
    by (rule pay_batch_new_payout [OF ref h fresh rec])
  obtain at sev def where f: "read_state e idx win = Finalized at sev" "complete e idx win"
      "index_def e idx = Inr def" "breached (index_params def) (accumulator e idx win)"
      "uint sev = severity_ramp (index_span (index_params def))
         (index_depth (index_params def) (accumulator e idx win))"
      "a = payee_coverage x * uint sev div 10000" "a \<le> payee_coverage x"
    by (rule payout_for_earned [OF run x(5,4)])
  have "at \<le> n" by (rule finalized_window [OF run f(1)])
  then have "earned_by e idx win x r"
    using assms(4) f x by (simp add: earned_by_def payout_record_def trigger_state_def)
  then show ?thesis
    by (intro that [OF CallPayBatch x(1,2)]) (simp_all add: x(3) payout_record_def)
qed (use call fresh rec in \<open>auto simp: ok_simps store_simps elim!: pause_ok unpause_ok close_batch_ok claim_ok\<close>)

lemma step_paid:
  assumes st: "protocol_step tk bal to_xdr verify d x y" and live: "protocol_live tk bal to_xdr verify d t0 x"
    and old: "PayoutOf (pr_vault x) k = Some r \<Longrightarrow> paid_in_run tk bal to_xdr verify d t0 x k r"
    and rec: "PayoutOf (pr_vault y) k = Some r"
  shows "paid_in_run tk bal to_xdr verify d t0 y k r"
proof (cases "PayoutOf (pr_vault x) k = Some r")
  case True
  from old [OF this] st show ?thesis by (rule paid_in_run_later)
next
  case False
  from st show ?thesis
  proof cases
    case (transaction env call)
    obtain c where c: "call = AtVault c"
      using False rec transaction(6)
      by (cases call) (auto elim!: invoke_oracle invoke_engine invoke_pool invoke_policy)
    obtain v s t where v: "call_vault (vault_clients tk (at_engine d) (at_pool d)) (vault_token tk) env c
        (pr_vault x, pr_engine x, pr_pool x, pr_token x) = Some (v, pr_engine x, s, t)" "pr_vault y = v"
      using transaction(6) by (auto simp: c elim: invoke_vault)
    obtain n where n: "n \<le> pr_now x" "te_reachable (oracle_client (at_oracle d)) (pr_engine x) n"
      using engine_view [OF live] by blast
    have me: "current_contract env = at_vault d" using transaction(2) by (simp add: c)
    have fwd: "PayoutOf (pr_vault x) \<subseteq>\<^sub>m PayoutOf v"
      using va_step_forward [OF call_vault_step [where ext = "\<lambda>_ _. True", OF v(1)
        outside_host_env [OF transaction(1) _ me] transaction(3)] vault_live(1) [OF live]]
      by (simp add: va_forward_def)
    with False rec have fresh: "PayoutOf (pr_vault x) k = None"
      by (cases "PayoutOf (pr_vault x) k") (auto simp: map_le_def dom_def v(2))
    from n(1) transaction(3) have "n \<le> timestamp env" by (rule order_trans)
    from call_vault_new_payout [OF v(1) vault_live(2) [OF live] n(2) this fresh rec [unfolded v(2)]]
    obtain idx win p i es e where h: "c = CallPayBatch idx win p i es" "e \<in> set es" "payee_policy e = k"
      "paid_at r = timestamp env" "earned_by (pr_engine x) idx win e r" by metis
    show ?thesis
      unfolding paid_in_run_def
      by (rule exI [of _ x], rule exI [of _ y], rule exI [of _ env], rule exI [of _ idx], rule exI [of _ win],
          rule exI [of _ p], rule exI [of _ i], rule exI [of _ es], rule exI [of _ e])
        (use live transaction(6) fresh rec h in \<open>simp add: c\<close>)
  qed (use False rec in simp)
qed

lemma live_paid:
  assumes live: "protocol_live tk bal to_xdr verify d t0 x" and "PayoutOf (pr_vault x) k = Some r"
  shows "paid_in_run tk bal to_xdr verify d t0 x k r"
proof -
  have "\<forall>k r. PayoutOf (pr_vault x) k = Some r \<longrightarrow> paid_in_run tk bal to_xdr verify d t0 x k r"
    using live
  proof (rule protocol_live_keeps)
    fix a now
    show "\<forall>k r. PayoutOf (pr_vault (deploy d a now t0)) k = Some r \<longrightarrow>
        paid_in_run tk bal to_xdr verify d t0 (deploy d a now t0) k r"
      by (simp add: deploy_def va_constructor_def va_empty_def)
  next
    fix x y
    assume "protocol_step tk bal to_xdr verify d x y" "protocol_live tk bal to_xdr verify d t0 x"
      and "\<forall>k r. PayoutOf (pr_vault x) k = Some r \<longrightarrow> paid_in_run tk bal to_xdr verify d t0 x k r"
    then show "\<forall>k r. PayoutOf (pr_vault y) k = Some r \<longrightarrow> paid_in_run tk bal to_xdr verify d t0 y k r"
      by (blast intro: step_paid)
  qed
  with assms(2) show ?thesis by blast
qed

section \<open>Balances\<close>

lemma live_custody:
  assumes live: "protocol_live tk bal to_xdr verify d t0 x" and "\<And>tok. 0 \<le> bal t0 tok (at_pool d)"
  shows "custody bal (at_pool d) (pr_pool x, pr_token x)"
proof -
  have sac: "sac_transfer tk bal" using live by (rule protocol_liveE)
  obtain a where "(rp_step tk (kept bal (at_pool d)) (at_pool d))\<^sup>*\<^sup>* (rp_constructor a, t0) (pr_pool x, pr_token x)"
    using live by (rule pool_view) (simp add: seen_by_pool_def)
  then show ?thesis
    by (rule rp_run_custody [OF sac, of "kept bal (at_pool d)" "at_pool d", rotated 2])
      (use assms(2) in \<open>simp_all add: kept_def\<close>)
qed

lemma live_claims_covered:
  assumes live: "protocol_live tk bal to_xdr verify d t0 x" and "0 \<le> bal t0 (at_asset d) (at_vault d)"
  shows "total_claims (pr_vault x) \<le> bal (pr_token x) (at_asset d) (at_vault d)"
proof -
  have sac: "sac_transfer tk bal" using live by (rule protocol_liveE)
  obtain a now where h: "sound_deployment d a"
    "(va_step (vault_clients tk (at_engine d) (at_pool d)) (vault_token tk)
       (vault_rest bal (at_asset d) (at_vault d)) (at_vault d))\<^sup>*\<^sup>*
       (seen_by_vault (deploy d a now t0)) (seen_by_vault x)"
    using live by (rule vault_view)
  let ?w0 = "(pr_engine (deploy d a now t0), pr_pool (deploy d a now t0), t0)"
  have toks: "\<forall>p c. PoolConfigOf (fst (snd ?w0)) p = Some c \<longrightarrow> cfg_token c = at_asset d"
    and bal: "0 \<le> vault_balance bal (at_asset d) (at_vault d) ?w0"
    using wired_deploy [of d a now t0] assms(2) by (simp_all add: wired_def vault_balance_def)
  have "total_claims (pr_vault x)
      \<le> vault_balance bal (at_asset d) (at_vault d) (pr_engine x, pr_pool x, pr_token x)"
    by (rule wired_claims_covered [OF sac sound_distinct(4) [OF h(1)] toks bal,
          where a = a and pl = "at_pool d" and pol = "at_policy d" and tr = "at_engine d" and ?t0.0 = now])
      (use h(2) in \<open>simp add: seen_by_vault_def deploy_def\<close>)
  then show ?thesis by (simp add: vault_balance_def)
qed

lemma live_refunds_covered:
  assumes live: "protocol_live tk bal to_xdr verify d t0 x"
  shows "reserved_in (pr_policy x) k \<le> premiums_of (pr_pool x, pr_token x) k"
proof -
  obtain a now where h: "(pol_step (pool_client tk (at_pool d))
      (pool_rest tk (kept bal (at_pool d)) (at_pool d) (at_policy d)) (at_policy d))\<^sup>*\<^sup>*
      (seen_by_policy (deploy d a now t0)) (seen_by_policy x)" and snd: "sound_deployment d a"
    using live by (rule policy_view)
  have sac: "sac_transfer tk bal" using live by (rule protocol_liveE)
  have "protocol_live tk bal to_xdr verify d t0 (deploy d a now t0)"
    using sac snd unfolding protocol_live_def protocol_reachable_def by blast
  then have "rp_inv (pr_pool (deploy d a now t0))" by (rule pool_live_inv)
  then have "pool_serves (at_policy d) (pr_pool (deploy d a now t0), t0)"
    by (simp add: pool_serves_def deploy_def)
  from wired_covered(1) [OF this] h
  have "covered premiums_of (pool_serves (at_policy d)) (pr_policy x) (pr_pool x, pr_token x)"
    by (simp add: seen_by_policy_def deploy_def)
  then show ?thesis by (rule coveredD(4))
qed

section \<open>Claims\<close>

text \<open>The documented behaviour of the asset contract that makes a transfer succeed: the sender has
  authorized it and covers it, and the recipient's balance stays in range.\<close>

definition transfers_go_through :: "'t transfer_fn \<Rightarrow> 't balance_fn \<Rightarrow> Address \<Rightarrow> bool" where
  "transfers_go_through tk bal tok \<longleftrightarrow> (\<forall>env src dst n t. current_contract env = tok \<longrightarrow> require_auth env src \<longrightarrow>
     0 \<le> n \<longrightarrow> n \<le> bal t tok src \<longrightarrow> in_i128 (bal t tok dst + n) \<longrightarrow> tk env tok src dst n t \<noteq> None)"

lemma book_goes_through: "transfers_go_through book_transfer book_balance tok"
  by (auto simp: transfers_go_through_def book_transfer_def book_balance_def)

lemma live_claim_succeeds:
  assumes live: "protocol_live tk bal to_xdr verify d t0 x" and start: "0 \<le> bal t0 (at_asset d) (at_vault d)"
    and pays: "transfers_go_through tk bal (at_asset d)"
    and owed: "0 < claimable (pr_vault x) h" and h: "h \<noteq> at_vault d"
    and room: "in_i128 (bal (pr_token x) (at_asset d) h + claimable (pr_vault x) h)"
    and at: "current_contract env = at_vault d"
  obtains v t where
    "claim (vault_token tk) env h (pr_vault x) (pr_engine x, pr_pool x, pr_token x)
      = Inr (claimable (pr_vault x) h, v, (pr_engine x, pr_pool x, t))"
    "bal t (at_asset d) h = bal (pr_token x) (at_asset d) h + claimable (pr_vault x) h"
proof -
  let ?n = "claimable (pr_vault x) h" and ?env = "call_env env (at_asset d)"
  have nn: "0 \<le> read_claim (pr_vault x) k" for k
    using vault_live(1) [OF live] by (simp add: va_inv_def va_books_def)
  have "?n \<le> total_claims (pr_vault x)"
    unfolding claimable_def total_claims_def by (rule sum_ge_single) (rule nn)
  also have "\<dots> \<le> bal (pr_token x) (at_asset d) (at_vault d)" by (rule live_claims_covered [OF live start])
  finally have "tk ?env (at_asset d) (at_vault d) h ?n (pr_token x) \<noteq> None"
    using pays owed room at unfolding transfers_go_through_def by (simp add: require_auth_def)
  then obtain t where t: "tk ?env (at_asset d) (at_vault d) h ?n (pr_token x) = Some t" by blast
  have sac: "sac_transfer tk bal" using live by (rule protocol_liveE)
  from t vault_live(3) [OF live] owed at
  have "\<exists>v. claim (vault_token tk) env h (pr_vault x) (pr_engine x, pr_pool x, pr_token x)
      = Inr (?n, v, (pr_engine x, pr_pool x, t))"
    by (simp add: claim_def Let_def claimable_def read_ref_def vault_token_def)
  moreover have "bal t (at_asset d) h = bal (pr_token x) (at_asset d) h + ?n"
    using sac_transferD [OF sac t, of "at_asset d" h] h by simp
  ultimately show ?thesis using that by blast
qed

end
