(* ===== verification/Protocol_Demo.thy ===== *)
theory Protocol_Demo
  imports Protocol_Books Policy_Demo Vault_Demo Oracle_Demo
begin

text \<open>
  One concrete run of the whole protocol, assembled from the runs of the single contracts: a pool is
  opened and funded, the farmer buys a certificate, a window of the trigger engine records two dry
  days, triggers and is finalized, the vault pays a batch and the farmer claims his payout.
\<close>

definition demo_deployment :: Deployment where
  "demo_deployment = \<lparr>at_oracle = demo_oracle, at_engine = demo_engine, at_pool = demo_pool,
     at_policy = demo_policy, at_vault = demo_vault, at_asset = demo_token\<rparr>"

definition demo_state ::
    "u64 \<Rightarrow> TriggerStore \<Rightarrow> RiskPoolStore \<Rightarrow> PolicyStore \<Rightarrow> VaultStore \<Rightarrow> book \<Rightarrow> book Protocol" where
  "demo_state now te s q v t = \<lparr>pr_now = now, pr_oracle = or_constructor demo_admin, pr_engine = te,
     pr_pool = s, pr_policy = q, pr_vault = v, pr_token = t\<rparr>"

lemma demo_state_simps [simp]:
  "pr_now (demo_state now te s q v t) = now" "pr_engine (demo_state now te s q v t) = te"
  "pr_pool (demo_state now te s q v t) = s" "pr_policy (demo_state now te s q v t) = q"
  "pr_vault (demo_state now te s q v t) = v" "pr_token (demo_state now te s q v t) = t"
  "pr_oracle (demo_state now te s q v t) = or_constructor demo_admin"
  "(demo_state now te s q v t)\<lparr>pr_now := n\<rparr> = demo_state n te s q v t"
  "(demo_state now te s q v t)\<lparr>pr_engine := te'\<rparr> = demo_state now te' s q v t"
  "(demo_state now te s q v t)\<lparr>pr_pool := s', pr_token := t'\<rparr> = demo_state now te s' q v t'"
  "(demo_state now te s q v t)\<lparr>pr_policy := q', pr_pool := s', pr_token := t'\<rparr>
     = demo_state now te s' q' v t'"
  "(demo_state now te s q v t)\<lparr>pr_vault := v', pr_engine := te', pr_pool := s', pr_token := t'\<rparr>
     = demo_state now te' s' q v' t'"
  by (simp_all add: demo_state_def)

lemma demo_at [simp]:
  "at_oracle demo_deployment = demo_oracle" "at_engine demo_deployment = demo_engine"
  "at_pool demo_deployment = demo_pool" "at_policy demo_deployment = demo_policy"
  "at_vault demo_deployment = demo_vault" "at_asset demo_deployment = demo_token"
  by (simp_all add: demo_deployment_def)

lemma demo_deploy: "deploy demo_deployment demo_admin 1 demo_ledger
    = demo_state 1 te_demo0 demo1 pol_demo0 va_demo0 demo_ledger"
  by (simp add: deploy_def demo_state_def demo1_def te_demo0_def pol_demo0_def va_demo0_def)

lemma demo_sound: "sound_deployment demo_deployment demo_admin"
  by (simp add: sound_deployment_def contracts_def demo_addresses)

lemma demo_outside:
  "outside demo_deployment (demo_env now None)" "outside demo_deployment (pol_env now)"
  "outside demo_deployment (te_env now)" "outside demo_deployment (va_env now)"
  by (simp_all add: outside_def contracts_def demo_addresses demo_signed_def demo_env_def pol_env_def
      te_env_def va_env_def)

abbreviation demo_live :: "book Protocol \<Rightarrow> bool" where
  "demo_live \<equiv> protocol_live book_transfer book_balance demo_xdr demo_verify demo_deployment demo_ledger"

text \<open>One more transaction of the run.\<close>

lemma demo_live_step:
  assumes "demo_live (demo_state now te s q v t)"
    and "invoke book_transfer demo_xdr demo_verify demo_deployment env call (demo_state now te s q v t)
      = Some (demo_state now' te' s' q' v' t')"
    and "outside demo_deployment env" "current_contract env = callee demo_deployment call"
    and "now \<le> timestamp env" "well_typed call" "keeps_wiring demo_deployment call"
  shows "demo_live (demo_state now' te' s' q' v' t')"
  by (rule protocol_live_step [OF assms(1) transaction [OF assms(3,4) _ assms(6,7,2)]])
    (use assms(5) in simp)

lemma demo_live_start: "demo_live (demo_state 1 te_demo0 demo1 pol_demo0 va_demo0 demo_ledger)"
  unfolding protocol_live_def protocol_reachable_def
  using sac_transfer_book demo_sound demo_deploy by (metis rtranclp.rtrancl_refl)

lemmas demo_invoke = invoke_def Let_def callee_def demo_config_def

text \<open>The five contracts at work, up to the claim.\<close>

lemma demo_live_pool: "demo_live (demo_state 11 te_demo0 demo5 pol_demo0 va_demo0 demo_ledger3)"
proof -
  have "demo_live (demo_state 5 te_demo0 demo2 pol_demo0 va_demo0 demo_ledger)"
    by (rule demo_live_step [OF demo_live_start, of "demo_env 5 None" "AtPool (CallCreatePool demo_config)"])
      (use demo_create_pool demo_outside in \<open>simp_all add: demo_invoke demo_env_def\<close>)
  then have "demo_live (demo_state 6 te_demo0 demo3 pol_demo0 va_demo0 demo_ledger3)"
    by (rule demo_live_step [of _ _ _ _ _ _ "demo_env 6 None" "AtPool (CallDeposit 1 Junior demo_farmer 1000)"])
      (use demo_deposit demo_outside in \<open>simp_all add: demo_invoke demo_env_def\<close>)
  then have "demo_live (demo_state 10 te_demo0 demo4 pol_demo0 va_demo0 demo_ledger3)"
    by (rule demo_live_step [of _ _ _ _ _ _ "demo_env 10 None" "AtPool (CallOpenSeason 1)"])
      (use demo_open demo_outside in \<open>simp_all add: demo_invoke demo_env_def\<close>)
  then show ?thesis
    by (rule demo_live_step [of _ _ _ _ _ _ "demo_env 11 None" "AtPool (CallActivateSeason 1 1)"])
      (use demo_activate demo_outside in \<open>simp_all add: demo_invoke demo_env_def\<close>)
qed

lemma demo_live_policy: "demo_live (demo_state 12 te_demo0 demo6 pol_demo1 va_demo0 demo_ledger6)"
  by (rule demo_live_step [OF demo_live_pool, of "pol_env 12" "AtPolicy (CallMint demo_farmer 1 1 demo_terms 500 77)"])
    (use demo_mint [unfolded demo_client_def] demo_outside in \<open>simp_all add: demo_invoke pol_env_def\<close>)

lemma te_env_at [simp]: "timestamp (te_env now) = now" "current_contract (te_env now) = demo_engine"
  by (simp_all add: te_env_def)

lemma demo_live_engine: "demo_live (demo_state 87400 te_demo5 demo6 pol_demo1 va_demo0 demo_ledger6)"
proof -
  have "demo_live (demo_state 100 te_demo1 demo6 pol_demo1 va_demo0 demo_ledger6)"
    by (rule demo_live_step [OF demo_live_policy, of "te_env 100" "AtEngine (CallCreateIndex (rain_params 2))"])
      (use te_demo_create demo_outside in \<open>simp_all add: demo_invoke\<close>)
  then have "demo_live (demo_state 200 te_demo2 demo6 pol_demo1 va_demo0 demo_ledger6)"
    by (rule demo_live_step [of _ _ _ _ _ _ "te_env 200" "AtEngine (CallRecordDay 0 7 10 300)"])
      (use te_demo_record demo_outside in \<open>simp_all add: demo_invoke in_i128_def\<close>)
  then have "demo_live (demo_state 300 te_demo3 demo6 pol_demo1 va_demo0 demo_ledger6)"
    by (rule demo_live_step [of _ _ _ _ _ _ "te_env 300" "AtEngine (CallRecordDay 0 7 12 220)"])
      (use te_demo_record demo_outside in \<open>simp_all add: demo_invoke in_i128_def\<close>)
  then have "demo_live (demo_state 1000 te_demo4 demo6 pol_demo1 va_demo0 demo_ledger6)"
    by (rule demo_live_step [of _ _ _ _ _ _ "te_env 1000" "AtEngine (CallEvaluate 0 7)"])
      (use te_demo_evaluate demo_outside in \<open>simp_all add: demo_invoke\<close>)
  then show ?thesis
    by (rule demo_live_step [of _ _ _ _ _ _ "te_env 87400" "AtEngine (CallFinalize 0 7)"])
      (use te_demo_finalize demo_outside in \<open>simp_all add: demo_invoke\<close>)
qed

lemma demo_live_batch: "demo_live (demo_state 90000 te_demo5 demo6v pol_demo1 va_demo1 demo_ledger6v)"
  by (rule demo_live_step [OF demo_live_engine, of "va_env 90000"
        "AtVault (CallPayBatch 0 7 1 1 [demo_payee, demo_payee])"])
    (use demo_pay_batch [unfolded demo_clients_def demo_world_def demo_world1_def] demo_outside
      in \<open>simp_all add: demo_invoke va_env_call\<close>)

lemma demo_live_claim: "demo_live (demo_state 90001 te_demo5 demo6v pol_demo1 va_demo2 demo_ledger6w)"
  by (rule demo_live_step [OF demo_live_batch, of "va_env 90001" "AtVault (CallClaim demo_farmer)"])
    (use demo_claim [unfolded demo_world1_def demo_world2_def] demo_outside
      in \<open>simp_all add: demo_invoke va_env_call\<close>)

end
