(* ===== verification/Protocol_Payable.thy ===== *)
theory Protocol_Payable
  imports Protocol_Books
begin

text \<open>
  When a batch goes through: the loop over its entries never fails on a pool whose reserves hold what
  is due, because the books of the protocol leave room for every sum it forms.
\<close>

section \<open>The pool pays what its reserves hold\<close>

text \<open>
  The season \<open>(p, i)\<close> can release \<open>n\<close> more to the vault: it is running or closed, the reserves and the
  pool's balance hold \<open>n\<close>, and the season's total and the vault's balance have room for it.
\<close>

definition can_release ::
    "'t balance_fn \<Rightarrow> Deployment \<Rightarrow> u64 \<Rightarrow> u64 \<Rightarrow> int \<Rightarrow> RiskPoolStore \<times> 't \<Rightarrow> bool" where
  "can_release bal d p i n w \<longleftrightarrow> (\<exists>c se sol. PayoutVault (fst w) = Some (at_vault d) \<and>
     PoolConfigOf (fst w) p = Some c \<and> cfg_token c = at_asset d \<and>
     SeasonOf (fst w) (p, i) = Some se \<and> season_state se \<in> {Active, Closed} \<and>
     0 \<le> payouts_paid se \<and> in_i128 (payouts_paid se + n) \<and>
     SolvencyOf (fst w) p = Some sol \<and> solvency_ok sol \<and> n \<le> reserves sol \<and>
     n \<le> bal (snd w) (at_asset d) (at_pool d) \<and> 0 \<le> bal (snd w) (at_asset d) (at_vault d) \<and>
     in_i128 (bal (snd w) (at_asset d) (at_vault d) + n))"

lemma release_succeeds:
  assumes ready: "can_release bal d p i n (s, t)" and n: "0 < a" "a \<le> n"
    and sac: "sac_transfer tk bal" and pays: "transfers_go_through tk bal (at_asset d)"
    and ne: "at_pool d \<noteq> at_vault d"
    and env: "current_contract env = at_pool d" "require_auth env (at_vault d)"
  shows "\<exists>s' t'. pay_out tk env p i (at_vault d) a s t = Inr (a, s', t') \<and> can_release bal d p i (n - a) (s', t')"
proof -
  let ?tok = "at_asset d"
  from ready obtain c se sol where h: "PayoutVault s = Some (at_vault d)" "PoolConfigOf s p = Some c"
      "cfg_token c = ?tok" "SeasonOf s (p, i) = Some se" "season_state se \<in> {Active, Closed}"
      "0 \<le> payouts_paid se" "in_i128 (payouts_paid se + n)" "SolvencyOf s p = Some sol" "solvency_ok sol"
      "n \<le> reserves sol" "n \<le> bal t ?tok (at_pool d)" "0 \<le> bal t ?tok (at_vault d)"
      "in_i128 (bal t ?tok (at_vault d) + n)"
    by (auto simp: can_release_def)
  have room: "in_i128 (payouts_paid se + a)" "in_i128 (reserves sol - a)" "in_i128 (bal t ?tok (at_vault d) + a)"
    using h n by (auto simp: solvency_ok_def in_i128_def)
  obtain t' where t': "tk (call_env env ?tok) ?tok (at_pool d) (at_vault d) a t = Some t'"
    using pays h(11) n room(3) env(1) unfolding transfers_go_through_def
    by (fastforce simp: require_auth_def)
  let ?s = "rp_publish (PayoutReleased p i (at_vault d) a)
      (write_solvency p (sol\<lparr>reserves := reserves sol - a\<rparr>)
        (write_season p i (se\<lparr>payouts_paid := payouts_paid se + a\<rparr>) s))"
  have "pay_out tk env p i (at_vault d) a s t = Inr (a, ?s, t')"
    using h n room t' env
    by (auto simp: pay_out_def Let_def rp_guards rp_reads require_stored_def ok_or_def
        checked_sub_def checked_add_def checked_def solvency_ok_def)
  moreover have "can_release bal d p i (n - a) (?s, t')"
    using h n room(2) ne sac_transferD [OF sac t', of ?tok]
    by (auto simp: can_release_def store_simps solvency_ok_def)
  ultimately show ?thesis by blast
qed

section \<open>The vault has room for what is due\<close>

definition can_record :: "int \<Rightarrow> int \<Rightarrow> BatchProgress \<times> u32 \<times> VaultStore \<Rightarrow> bool" where
  "can_record n k x \<longleftrightarrow> (case x of (pr, paid, v) \<Rightarrow>
     (\<forall>h. 0 \<le> read_claim v h \<and> in_i128 (read_claim v h + n)) \<and>
     0 \<le> total_disbursed pr \<and> in_i128 (total_disbursed pr + n) \<and>
     uint (policies_paid pr) + k < 2 ^ 32 \<and> uint paid + k < 2 ^ 32)"

definition due_total :: "(i128 \<Rightarrow> i128 option) \<Rightarrow> u64 set \<Rightarrow> PayoutEntry list \<Rightarrow> int" where
  "due_total q settled es = sum_list (map snd (due q settled es))"

lemma due_total_nonneg: "0 \<le> due_total q settled es"
  unfolding due_total_def by (rule sum_list_nonneg) (use due_sound in \<open>fastforce\<close>)

lemma can_record_fewer: "can_record n (k + 1) x \<Longrightarrow> can_record n k x"
  by (auto simp: can_record_def)

lemma can_record_paid:
  assumes room: "can_record n (k + 1) (pr, paid, v)" and a: "0 < a" "a \<le> n" and k: "0 \<le> k"
  obtains np nq where "in_i128 (read_claim v (payee_owner e) + a)" "in_i128 (total_disbursed pr + a)"
    "checked_uadd (policies_paid pr) 1 = Some np" "checked_uadd paid 1 = Some nq"
    "can_record (n - a) k (pr\<lparr>total_disbursed := total_disbursed pr + a, policies_paid := np\<rparr>, nq,
       record_payout e a now v)"
proof -
  have h: "0 \<le> read_claim v h" "in_i128 (read_claim v h + n)" "0 \<le> total_disbursed pr"
      "in_i128 (total_disbursed pr + n)" for h
    using room by (auto simp: can_record_def)
  have u: "uint (policies_paid pr) + k + 1 < 2 ^ 32" "uint paid + k + 1 < 2 ^ 32"
    using room by (auto simp: can_record_def)
  then obtain np nq where c: "checked_uadd (policies_paid pr) 1 = Some np" "checked_uadd paid 1 = Some nq"
    using k by (auto simp: checked_uadd_def)
  have "read_claim (record_payout e a now v) h = read_claim v h + (if payee_owner e = h then a else 0)" for h
    using read_claim_update [of "record_payout e a now v" v "payee_owner e" _ h] by (simp add: store_simps)
  moreover have "in_i128 (read_claim v h + (if payee_owner e = h then a else 0) + (n - a))" for h
    using h(1,2) [of h] a by (auto simp: in_i128_def)
  moreover have "in_i128 (read_claim v (payee_owner e) + a)" "in_i128 (total_disbursed pr + a)"
    using h(1,2) [of "payee_owner e"] h(3,4) a by (auto simp: in_i128_def)
  ultimately show ?thesis
    using h u a uint_checked_uadd [OF c(1)] uint_checked_uadd [OF c(2)]
    by (intro that [OF _ _ c]) (auto simp: can_record_def)
qed

section \<open>The loop goes through\<close>

lemma entry_goes_through:
  fixes te :: TriggerStore and idx win :: u64
  defines "q \<equiv> engine_quote te idx win"
  assumes sac: "sac_transfer tk bal" and pays: "transfers_go_through tk bal (at_asset d)"
    and ne: "at_pool d \<noteq> at_vault d" and env: "current_contract env = at_vault d" and k: "0 \<le> k"
    and e: "0 < payee_coverage e" "q (payee_coverage e) = Some a"
    and rel: "can_release bal d p i (due_total q (dom (PayoutOf v)) (e # es)) (s, t)"
    and rec: "can_record (due_total q (dom (PayoutOf v)) (e # es)) (k + 1) (pr, paid, v)"
  obtains pr' paid' v' s' t' where
    "pay_entry (vault_clients tk (at_engine d) (at_pool d)) env (at_pool d) (at_engine d) idx win p i e
       (pr, paid, v, (te, s, t)) = Inr (pr', paid', v', (te, s', t'))"
    "can_release bal d p i (due_total q (dom (PayoutOf v')) es) (s', t')"
    "can_record (due_total q (dom (PayoutOf v')) es) k (pr', paid', v')"
proof (cases "PayoutOf v (payee_policy e) = None \<and> 0 < a")
  case False
  have "due_total q (dom (PayoutOf v)) (e # es) = due_total q (dom (PayoutOf v)) es"
    using False e by (auto simp: due_total_def domIff)
  moreover have "pay_entry (vault_clients tk (at_engine d) (at_pool d)) env (at_pool d) (at_engine d) idx win p i e
       (pr, paid, v, (te, s, t)) = Inr (pr, paid, v, (te, s, t))"
    using False e by (auto simp: pay_entry_def vault_clients_def q_def engine_quote_def)
  ultimately show ?thesis using rel can_record_fewer [OF rec] by (intro that) simp_all
next
  case True
  let ?n = "due_total q (dom (PayoutOf v)) (e # es)"
  let ?v = "record_payout e a (timestamp env) v"
  have n: "?n = a + due_total q (dom (PayoutOf ?v)) es"
    using True e by (simp add: due_total_def domIff store_simps)
  have a: "0 < a" "a \<le> ?n" using True n due_total_nonneg [of q "dom (PayoutOf ?v)" es] by simp_all
  have "require_auth (call_env env (at_pool d)) (at_vault d)" by (simp add: require_auth_def env)
  from release_succeeds [OF rel a sac pays ne _ this] obtain s' t' where po:
      "pay_out tk (call_env env (at_pool d)) p i (at_vault d) a s t = Inr (a, s', t')"
      "can_release bal d p i (?n - a) (s', t')"
    by auto
  obtain np nq where r: "in_i128 (read_claim v (payee_owner e) + a)" "in_i128 (total_disbursed pr + a)"
    "checked_uadd (policies_paid pr) 1 = Some np" "checked_uadd paid 1 = Some nq"
    "can_record (?n - a) k (pr\<lparr>total_disbursed := total_disbursed pr + a, policies_paid := np\<rparr>, nq, ?v)"
    by (rule can_record_paid [OF rec a k])
  have "pay_entry (vault_clients tk (at_engine d) (at_pool d)) env (at_pool d) (at_engine d) idx win p i e
       (pr, paid, v, (te, s, t)) = Inr (pr\<lparr>total_disbursed := total_disbursed pr + a, policies_paid := np\<rparr>, nq,
         ?v, (te, s', t'))"
    using True e po(1) r(1-4) env
    by (simp add: pay_entry_def vault_clients_def q_def engine_quote_def checked_add_def checked_def Let_def
        record_payout_def payout_record_def va_publish_def)
  then show ?thesis using po(2) r(5) n by (intro that) simp_all
qed

lemma entries_go_through:
  fixes te :: TriggerStore and idx win :: u64
  defines "q \<equiv> engine_quote te idx win"
  assumes sac: "sac_transfer tk bal" and pays: "transfers_go_through tk bal (at_asset d)"
    and ne: "at_pool d \<noteq> at_vault d" and env: "current_contract env = at_vault d"
    and es: "\<forall>e\<in>set es. 0 < payee_coverage e \<and> q (payee_coverage e) \<noteq> None"
    and rel: "can_release bal d p i (due_total q (dom (PayoutOf v)) es) (s, t)"
    and rec: "can_record (due_total q (dom (PayoutOf v)) es) (int (length es)) (pr, paid, v)"
  shows "\<exists>pr' paid' v' w'. pay_entries (vault_clients tk (at_engine d) (at_pool d)) env (at_pool d) (at_engine d)
    idx win p i es (pr, paid, v, (te, s, t)) = Inr (pr', paid', v', w')"
  using es rel rec
proof (induction es arbitrary: pr paid v s t)
  case Nil
  then show ?case by simp
next
  case (Cons e es)
  then obtain a where e: "0 < payee_coverage e" "q (payee_coverage e) = Some a" by auto
  have rec: "can_record (due_total q (dom (PayoutOf v)) (e # es)) (int (length es) + 1) (pr, paid, v)"
    using Cons.prems(3) by (simp add: add.commute)
  obtain pr' paid' v' s' t' where
    "pay_entry (vault_clients tk (at_engine d) (at_pool d)) env (at_pool d) (at_engine d) idx win p i e
       (pr, paid, v, (te, s, t)) = Inr (pr', paid', v', (te, s', t'))"
    "can_release bal d p i (due_total q (dom (PayoutOf v')) es) (s', t')"
    "can_record (due_total q (dom (PayoutOf v')) es) (int (length es)) (pr', paid', v')"
    by (rule entry_goes_through [OF sac pays ne env _ e(1) e(2) [unfolded q_def]
          Cons.prems(2) [unfolded q_def] rec [unfolded q_def], folded q_def]) simp
  with Cons.IH [of v' s' t' pr' paid'] Cons.prems(1) show ?case by auto
qed

section \<open>A live protocol can pay\<close>

text \<open>In a live protocol every sum a payout forms is at most the payouts on record with it.\<close>

definition counts_ok :: "VaultStore \<Rightarrow> bool" where
  "counts_ok v \<longleftrightarrow> (\<forall>idx win. 0 \<le> total_disbursed (read_batch v idx win)) \<and> 0 \<le> total_claimed v"

lemma pay_batch_counts:
  assumes ok: "pay_batch (vault_clients tk engine pool) env idx win p i es v w = Inr (n, v', w')" and "counts_ok v"
  shows "counts_ok v'"
proof -
  obtain trigger where "TriggerRef v = Some trigger" by (rule pay_batch_ok [OF ok])
  from pay_batch_due [OF vault_quotes_stable ok this] obtain ds q where
    d: "batch_done (timestamp env) idx win ds v v'" "ds = due q (dom (PayoutOf v)) es"
    by (auto simp: Let_def)
  have "0 \<le> sum_list (map snd ds)" using due_total_nonneg by (simp add: d(2) due_total_def)
  then have "0 \<le> total_disbursed (read_batch v' j k)" for j k
    using d(1) assms(2) by (auto simp: batch_done_def counts_ok_def read_batch_def)
  with pay_batch_claimed [OF ok] assms(2) show ?thesis by (simp add: counts_ok_def)
qed

lemma call_vault_counts:
  assumes call: "call_vault (vault_clients tk engine pool) (vault_token tk) env c (v, w) = Some (v', w')"
    and inv: "counts_ok v"
  shows "counts_ok v'"
proof (cases c)
  case (CallPayBatch idx win p i es)
  with call inv show ?thesis by (auto simp: ok_simps dest: pay_batch_counts)
next
  case (CallClaim h)
  then obtain n where "claim (vault_token tk) env h v w = Inr (n, v', w')"
    using call by (auto simp: ok_simps)
  then have "n > 0" "va_events v' = va_events v @ [Claimed h n]" "BatchOf v' = BatchOf v"
    by (auto elim!: claim_ok simp: store_simps)
  moreover from this have "total_claimed v' = total_claimed v + n"
    by (simp add: total_claimed_def sum.distrib)
  ultimately show ?thesis using inv by (simp add: counts_ok_def read_batch_def)
qed (use call inv in \<open>auto simp: ok_simps counts_ok_def total_claimed_def read_batch_def store_simps
    elim!: pause_ok unpause_ok close_batch_ok\<close>)

lemma live_counts:
  assumes "protocol_live tk bal to_xdr verify d t0 x"
  shows "counts_ok (pr_vault x)"
  using assms
proof (rule protocol_live_keeps)
  fix a now
  show "counts_ok (pr_vault (deploy d a now t0))"
    by (simp add: counts_ok_def total_claimed_def read_batch_def deploy_def va_constructor_def va_empty_def)
next
  fix x y
  assume st: "protocol_step tk bal to_xdr verify d x y" and "counts_ok (pr_vault x)"
  then show "counts_ok (pr_vault y)"
    by (cases rule: protocol_stepE) (auto dest: call_vault_counts)
qed

lemma live_record_room:
  assumes live: "protocol_live tk bal to_xdr verify d t0 x" and room: "in_i128 (paid_total (pr_vault x) + n)"
    and n: "0 \<le> n" and k: "0 \<le> k"
    and few: "uint (policies_paid (read_batch (pr_vault x) idx win)) + k < 2 ^ 32"
  shows "can_record n k (read_batch (pr_vault x) idx win, 0, pr_vault x)"
proof -
  let ?v = "pr_vault x"
  have inv: "va_books ?v" "batch_total ?v = paid_total ?v" using vault_live(1) [OF live] by (simp_all add: va_inv_def)
  have nn: "0 \<le> read_claim ?v h" for h using inv(1) by (simp add: va_books_def)
  have cnt: "0 \<le> total_claimed ?v" "0 \<le> total_disbursed (read_batch ?v j l)" for j l
    using live_counts [OF live] by (simp_all add: counts_ok_def)
  have "read_claim ?v h \<le> total_claims ?v" for h
    unfolding total_claims_def by (rule sum_ge_single) (rule nn)
  then have claim: "read_claim ?v h \<le> paid_total ?v" for h
    using books_total [OF inv(1)] cnt(1) by (simp add: add_increasing2)
  have disb: "total_disbursed (read_batch ?v idx win) \<le> paid_total ?v"
    unfolding inv(2) [symmetric] batch_total_def
    by (rule sum_ge_single [where a = "(idx, win)" and f = "\<lambda>k. total_disbursed (read_batch ?v (fst k) (snd k))",
          unfolded fst_conv snd_conv]) (rule cnt(2))
  have "in_i128 (read_claim ?v h + n)" for h
    by (rule in_i128_between [OF room]) (use nn [of h] claim [of h] n in simp_all)
  moreover have "in_i128 (total_disbursed (read_batch ?v idx win) + n)"
    by (rule in_i128_between [OF room]) (use cnt(2) disb n in simp_all)
  moreover have "k < 2 ^ 32"
    using few uint_ge_0 [of "policies_paid (read_batch ?v idx win)"] by linarith
  ultimately show ?thesis using nn cnt(2) few by (simp add: can_record_def)
qed

lemma paid_in_nonneg:
  assumes inv: "rp_inv s"
  shows "0 \<le> paid_in (SeasonOf s k)"
proof (cases "SeasonOf s k")
  case (Some se)
  obtain p i where k: "k = (p, i)" by force
  then obtain c where "PoolConfigOf s p = Some c"
    using pool_inv_season [of s p i se] inv Some by (auto simp: rp_inv_def)
  from rp_invE [OF inv this] Some k have "season_ok se" by (metis (no_types))
  then show ?thesis by (simp add: Some paid_in_def season_ok_def)
qed (simp add: paid_in_def)

lemma pool_held_nonneg:
  assumes inv: "rp_inv s"
  shows "0 \<le> pool_held s tok p"
proof (cases "PoolConfigOf s p")
  case (Some c)
  from inv this obtain sol tre where "SolvencyOf s p = Some sol" "TreasuryOf s p = Some tre"
    "solvency_ok sol" "treasury_ok c tre" by (rule rp_invE)
  then show ?thesis by (simp add: pool_held_def Some solvency_ok_def treasury_ok_def fee_ok_def)
qed (simp add: pool_held_def)

lemma live_release_room:
  assumes live: "protocol_live tk bal to_xdr verify d t0 x"
    and start: "\<And>tok. 0 \<le> bal t0 tok (at_pool d)" "0 \<le> bal t0 (at_asset d) (at_vault d)"
    and room: "in_i128 (paid_total (pr_vault x) + n)" and n: "0 \<le> n"
    and se: "SeasonOf (pr_pool x) (p, i) = Some se" "season_state se \<in> {Active, Closed}"
    and sol: "SolvencyOf (pr_pool x) p = Some sol" "n \<le> reserves sol"
    and vault: "in_i128 (bal (pr_token x) (at_asset d) (at_vault d) + n)"
  shows "can_release bal d p i n (pr_pool x, pr_token x)"
proof -
  let ?s = "pr_pool x" and ?t = "pr_token x"
  have inv: "rp_inv ?s" by (rule pool_live_inv [OF live])
  then obtain c where c: "PoolConfigOf ?s p = Some c"
    using pool_inv_season [of ?s p i se] se(1) by (auto simp: rp_inv_def)
  have w: "PayoutVault ?s = Some (at_vault d)" "cfg_token c = at_asset d"
    using protocol_live_wired [OF live] c by (auto simp: wired_def)
  from inv c obtain sol' tre where tre: "SolvencyOf ?s p = Some sol'" "TreasuryOf ?s p = Some tre"
      "solvency_ok sol'" "treasury_ok c tre"
      "\<forall>i se. SeasonOf ?s (p, i) = Some se \<longrightarrow> season_ok se \<and> i \<le> unwrap_or (SeasonCountOf ?s p) 0"
    by (rule rp_invE)
  then have ok: "solvency_ok sol" "season_ok se" "treasury_ok c tre" using sol(1) se(1) by auto
  have "paid_in (SeasonOf ?s k) \<le> paid_total (pr_vault x)" for k
    unfolding live_booked [OF live, symmetric] pool_booked_def
    by (rule sum_ge_single [of "\<lambda>k. paid_in (SeasonOf ?s k)"]) (rule paid_in_nonneg [OF inv])
  from this [of "(p, i)"] have "payouts_paid se \<le> paid_total (pr_vault x)" by (simp add: se(1) paid_in_def)
  then have "in_i128 (payouts_paid se + n)"
    by (intro in_i128_between [OF room]) (use ok(2) n in \<open>simp_all add: season_ok_def\<close>)
  moreover have "reserves sol \<le> bal ?t (at_asset d) (at_pool d)"
  proof -
    have "pool_held ?s (at_asset d) p \<le> held ?s (at_asset d)"
      unfolding held_def by (rule sum_ge_single) (rule pool_held_nonneg [OF inv])
    also have "\<dots> \<le> bal ?t (at_asset d) (at_pool d)"
      using live_custody [OF live start(1)] by (simp add: custody_def)
    finally show ?thesis
      using ok(3) by (simp add: pool_held_def c w(2) sol(1) tre(2) treasury_ok_def fee_ok_def)
  qed
  moreover have "0 \<le> bal ?t (at_asset d) (at_vault d)"
  proof -
    have "0 \<le> total_claims (pr_vault x)"
      using vault_live(1) [OF live] by (auto simp: total_claims_def va_inv_def va_books_def intro: sum_nonneg)
    then show ?thesis using live_claims_covered [OF live start(2)] by (rule order_trans)
  qed
  ultimately show ?thesis
    using w c se sol ok(1,2) vault by (auto simp: can_release_def season_ok_def)
qed

text \<open>A finalized window has a quote for every coverage whose hundred percent is in range.\<close>

lemma finalized_quotes:
  assumes live: "protocol_live tk bal to_xdr verify d t0 x"
    and fin: "read_state (pr_engine x) idx win = Finalized at sev"
    and cov: "0 < c" "in_i128 (c * 10000)"
  shows "engine_quote (pr_engine x) idx win c \<noteq> None"
proof -
  obtain n where "te_reachable (oracle_client (at_oracle d)) (pr_engine x) n"
    using engine_view [OF live] by blast
  then have "uint sev \<le> 10000" using fin by (rule finalized_window)
  then have "c * uint sev \<le> c * 10000" using cov(1) by (simp add: mult_left_mono)
  then have "in_i128 (c * uint sev)"
    by (intro in_i128_between [OF cov(2)]) (use cov(1) in simp_all)
  from apply_bps_total [OF _ this] cov(1) have "apply_bps c sev = Some (c * uint sev div 10000)" by simp
  then show ?thesis using fin by (simp add: engine_quote_def payout_for_def)
qed

lemma live_batch_succeeds:
  assumes live: "protocol_live tk bal to_xdr verify d t0 x"
    and start: "\<And>tok. 0 \<le> bal t0 tok (at_pool d)" "0 \<le> bal t0 (at_asset d) (at_vault d)"
    and pays: "transfers_go_through tk bal (at_asset d)"
    and call: "VaAdmin (pr_vault x) = Some a" "require_auth env a" "current_contract env = at_vault d"
      "\<not> is_paused_inner (pr_vault x)" "batch_state (read_batch (pr_vault x) idx win) \<noteq> BatchDone"
      "entries \<noteq> []" "length entries \<le> 20"
    and fin: "read_state (pr_engine x) idx win = Finalized at sev"
    and cov: "\<forall>e\<in>set entries. 0 < payee_coverage e \<and> in_i128 (payee_coverage e * 10000)"
    and n: "n = due_total (engine_quote (pr_engine x) idx win) (dom (PayoutOf (pr_vault x))) entries"
    and se: "SeasonOf (pr_pool x) (p, i) = Some se" "season_state se \<in> {Active, Closed}"
    and sol: "SolvencyOf (pr_pool x) p = Some sol" "n \<le> reserves sol"
    and room: "in_i128 (paid_total (pr_vault x) + n)" "in_i128 (bal (pr_token x) (at_asset d) (at_vault d) + n)"
      "uint (policies_paid (read_batch (pr_vault x) idx win)) + int (length entries) < 2 ^ 32"
  shows "\<exists>paid v w. pay_batch (vault_clients tk (at_engine d) (at_pool d)) env idx win p i entries (pr_vault x)
    (pr_engine x, pr_pool x, pr_token x) = Inr (paid, v, w)"
proof -
  obtain a' now where sac: "sac_transfer tk bal" and snd: "sound_deployment d a'"
    using live by (rule protocol_liveE)
  have nn: "0 \<le> n" unfolding n by (rule due_total_nonneg)
  have "\<forall>e\<in>set entries. 0 < payee_coverage e \<and> engine_quote (pr_engine x) idx win (payee_coverage e) \<noteq> None"
    using cov finalized_quotes [OF live fin] by blast
  from entries_go_through [OF sac pays sound_distinct(4) [OF snd] call(3) this
      live_release_room [OF live start room(1) nn se sol room(2), unfolded n]
      live_record_room [OF live room(1) nn _ room(3), unfolded n]]
  show ?thesis
    using call vault_live(2,4) [OF live]
    by (auto simp: pay_batch_def VAULT_MAX_BATCH_def va_require_admin_def require_stored_def read_ref_def Let_def)
qed

section \<open>The transaction\<close>

text \<open>What the vault does is a step of the protocol.\<close>

lemma vault_transaction:
  assumes live: "protocol_live tk bal to_xdr verify d t0 x"
    and env: "outside d env" "current_contract env = at_vault d" "pr_now x \<le> timestamp env"
    and call: "call_vault (vault_clients tk (at_engine d) (at_pool d)) (vault_token tk) env c
      (pr_vault x, pr_engine x, pr_pool x, pr_token x) = Some (v, e, s, t)"
  obtains y where "invoke tk to_xdr verify d env (AtVault c) x = Some y"
    "protocol_step tk bal to_xdr verify d x y"
    "pr_vault y = v" "pr_engine y = pr_engine x" "pr_token y = t"
proof -
  define y where "y = x\<lparr>pr_now := timestamp env, pr_vault := v, pr_engine := e, pr_pool := s, pr_token := t\<rparr>"
  have e: "e = pr_engine x" by (rule call_vault_relates(2) [OF call, of "\<lambda>_ _. True"]) simp_all
  have inv: "invoke tk to_xdr verify d env (AtVault c) x = Some y"
    using call by (simp add: invoke_def Let_def y_def)
  then have "protocol_step tk bal to_xdr verify d x y"
    by (intro transaction [OF env(1) _ env(3) _ _ inv]) (simp_all add: env(2))
  with inv show ?thesis by (rule that) (simp_all add: y_def e)
qed

end
