(* ===== verification/Protocol_Props.thy ===== *)
theory Protocol_Props
  imports Protocol_Demo Protocol_Payable
begin

text \<open>
  The properties of the whole protocol, each with a witness on the concrete run of Protocol_Demo.
\<close>

section \<open>Refinement\<close>

text \<open>C6. Inside the protocol every contract behaves as it does alone: along every run of the deployed
  protocol in which the guardian makes none of the three calls that would rewire the pool or open a pool
  in another asset than the vault's, the stores of the pool, the policy contract, the vault, the trigger
  engine and the oracle are each reachable by that contract's own step relation, with nothing of the
  others but what its interface allows, at a time that has passed. That no other call of any contract
  changes the wiring is proved: in every state the pool still serves the deployed policy contract and
  vault, and all its pools are in the vault's asset. What is proved of a contract alone holds of it
  inside the protocol.\<close>

theorem protocol_refines_contracts:
  assumes "protocol_live tk bal to_xdr verify d t0 x"
  shows "rp_reachable tk (kept bal (at_pool d)) (at_pool d) (pr_pool x) (pr_token x) \<and>
    pol_reachable (pool_client tk (at_pool d)) (pool_rest tk (kept bal (at_pool d)) (at_pool d) (at_policy d))
      (at_policy d) (pr_policy x) (pr_pool x, pr_token x) (pr_now x) \<and>
    va_reachable (vault_clients tk (at_engine d) (at_pool d)) (vault_token tk)
      (vault_rest bal (at_asset d) (at_vault d)) (at_vault d)
      (pr_vault x) (pr_engine x, pr_pool x, pr_token x) (pr_now x) \<and>
    (\<exists>n\<le>pr_now x. te_reachable (oracle_client (at_oracle d)) (pr_engine x) n) \<and>
    (\<exists>n\<le>pr_now x. or_reachable to_xdr verify (pr_oracle x) n) \<and> wired d x"
proof -
  have "rp_reachable tk (kept bal (at_pool d)) (at_pool d) (pr_pool x) (pr_token x)"
    using assms by (rule pool_view) (auto simp: rp_reachable_def seen_by_pool_def)
  moreover have "pol_reachable (pool_client tk (at_pool d))
      (pool_rest tk (kept bal (at_pool d)) (at_pool d) (at_policy d))
      (at_policy d) (pr_policy x) (pr_pool x, pr_token x) (pr_now x)"
    using assms by (rule policy_view) (simp add: pol_reachable_def seen_by_policy_def deploy_def, blast)
  ultimately show ?thesis
    using vault_live(5) [OF assms] engine_view [OF assms] oracle_view [OF assms] protocol_live_wired [OF assms] by blast
qed

theorem protocol_refines_contracts_witness:
  "rp_reachable book_transfer (kept book_balance demo_pool) demo_pool demo6v demo_ledger6w"
  using protocol_refines_contracts [OF demo_live_claim] by simp

section \<open>Solvency\<close>

text \<open>C1. The protocol is solvent. Provided the guardian neither points the pool to another policy contract
  or vault nor opens a pool in another asset than the vault's, neither of which a contract checks, the
  asset contract moves what it documents, others cannot debit a contract's own balance, and no contract
  starts with a negative balance: whatever else the five contracts process, in any order,
  at every moment the pool's balance in every asset covers the reserves and fees of its pools, the
  vault's balance covers the claims of all owners together, and the premiums every season keeps cover
  what all its certificates could still get back. (A batch on a pool in another asset would break the
  second part.)\<close>

theorem protocol_is_solvent:
  assumes live: "protocol_live tk bal to_xdr verify d t0 x"
    and start: "\<And>tok. 0 \<le> bal t0 tok (at_pool d)" "0 \<le> bal t0 (at_asset d) (at_vault d)"
  shows "(\<forall>tok. (\<Sum>p\<in>UNIV. pool_held (pr_pool x) tok p) \<le> bal (pr_token x) tok (at_pool d)) \<and>
    (\<Sum>h\<in>UNIV. claimable (pr_vault x) h) \<le> bal (pr_token x) (at_asset d) (at_vault d) \<and>
    (\<forall>k. reserved_in (pr_policy x) k \<le> premiums_of (pr_pool x, pr_token x) k)"
  using live_custody [OF live start(1)] live_claims_covered [OF live start(2)] live_refunds_covered [OF live]
  by (simp add: custody_def held_def claimable_def total_claims_def)

theorem protocol_is_solvent_witness:
  "(\<Sum>h\<in>UNIV. claimable va_demo1 h) \<le> book_balance demo_ledger6v demo_token demo_vault \<and>
   reserved_in pol_demo1 (1, 1) \<le> premiums_of (demo6v, demo_ledger6v) (1, 1)"
  using protocol_is_solvent [OF demo_live_batch]
  by (simp add: book_balance_def demo_ledger_def demo_addresses)

section \<open>Payouts\<close>



text \<open>C2. Every payout is earned (FR-TRG-5, FR-PAY-1): in every state a run of the protocol reaches in which
  the guardian has left the pool's wiring alone, each payout the vault has on record for a policy was
  made by a batch of that run. That batch found no record for the policy and named it in an entry; the
  record has the owner of that entry and the time of the batch. The window the batch was submitted for
  was finalized before, it was complete and breached, and its severity is that of the curve; the amount
  is the floor of that share of the coverage the entry states, positive and at most that coverage. (The
  coverage is what the guardian states in the entry: the vault does not ask the policy contract for it.)\<close>

theorem every_payout_is_earned:
  assumes live: "protocol_live tk bal to_xdr verify d t0 x" and rec: "payout (pr_vault x) n = Inr r"
  shows "\<exists>y z env idx win p i entries e at sev def.
     protocol_live tk bal to_xdr verify d t0 y \<and>
     invoke tk to_xdr verify d env (AtVault (CallPayBatch idx win p i entries)) y = Some z \<and>
     (protocol_step tk bal to_xdr verify d)\<^sup>*\<^sup>* z x \<and>
     payout (pr_vault y) n = Inl (Err NoFinalizedTrigger) \<and> payout (pr_vault z) n = Inr r \<and>
     e \<in> set entries \<and> payee_policy e = n \<and> payout_owner r = payee_owner e \<and>
     paid_at r = timestamp env \<and>
     trigger_state (pr_engine y) idx win = Finalized at sev \<and> at \<le> timestamp env \<and>
     complete (pr_engine y) idx win \<and> index_def (pr_engine y) idx = Inr def \<and>
     breached (index_params def) (accumulator (pr_engine y) idx win) \<and>
     uint sev = severity_ramp (index_span (index_params def))
       (index_depth (index_params def) (accumulator (pr_engine y) idx win)) \<and>
     payout_amount r = payee_coverage e * uint sev div 10000 \<and>
     0 < payout_amount r \<and> payout_amount r \<le> payee_coverage e"
proof -
  have "PayoutOf (pr_vault x) n = Some r" using rec by (simp add: payout_def ok_or_Inr)
  from live_paid [OF live this] obtain y z env idx win p i entries e at sev def where
      h: "protocol_live tk bal to_xdr verify d t0 y"
      "invoke tk to_xdr verify d env (AtVault (CallPayBatch idx win p i entries)) y = Some z"
      "(protocol_step tk bal to_xdr verify d)\<^sup>*\<^sup>* z x"
      "PayoutOf (pr_vault y) n = None" "PayoutOf (pr_vault z) n = Some r"
      "e \<in> set entries" "payee_policy e = n" "paid_at r = timestamp env"
    and e: "trigger_state (pr_engine y) idx win = Finalized at sev" "at \<le> paid_at r"
      "complete (pr_engine y) idx win" "index_def (pr_engine y) idx = Inr def"
      "breached (index_params def) (accumulator (pr_engine y) idx win)"
      "uint sev = severity_ramp (index_span (index_params def))
         (index_depth (index_params def) (accumulator (pr_engine y) idx win))"
      "payout_owner r = payee_owner e" "payout_amount r = payee_coverage e * uint sev div 10000"
      "0 < payout_amount r" "payout_amount r \<le> payee_coverage e"
    unfolding paid_in_run_def earned_by_def by blast
  from h(4,5) have "payout (pr_vault y) n = Inl (Err NoFinalizedTrigger)" "payout (pr_vault z) n = Inr r"
    by (simp_all add: payout_def ok_or_def)
  with h(1-3,6-8) e(1,3-10) e(2) [unfolded h(8)] show ?thesis
    by (intro exI conjI)
qed

theorem every_payout_is_earned_witness:
  "payout va_demo2 1 = Inr (payout_record demo_payee 1428 90000) \<and>
   (\<exists>y z env idx win p i entries e sev.
     invoke book_transfer demo_xdr demo_verify demo_deployment env
       (AtVault (CallPayBatch idx win p i entries)) y = Some z \<and> timestamp env = 90000 \<and>
     e \<in> set entries \<and> payee_policy e = 1 \<and> (1428::i128) = payee_coverage e * uint (sev :: u32) div 10000)"
proof -
  have rec: "payout va_demo2 1 = Inr (payout_record demo_payee 1428 90000)"
    by (simp add: payout_def va_demo2_def va_demo1_def store_simps) (simp add: demo_payee_def)
  have "payout_amount (payout_record demo_payee 1428 90000) = 1428"
    "paid_at (payout_record demo_payee 1428 90000) = 90000"
    by (simp_all add: payout_record_def)
  with rec show ?thesis
    using every_payout_is_earned [OF demo_live_claim, of 1 "payout_record demo_payee 1428 90000"]
    unfolding demo_state_simps by metis
qed

text \<open>C5. Claims are always paid, in a protocol whose guardian has not rewired the pool and has opened every
  pool in the vault's asset (which no contract checks, and without which a claim may lack its asset): at
  any moment, paused or not, an owner other than the vault itself with a claimable balance collects it
  in full with one transaction from outside, whoever submits it, provided the asset contract does what it
  documents (a transfer that its sender authorizes and covers, and the recipient can hold, succeeds),
  the owner's balance stays in range, and the vault started without a debt in its asset.\<close>

theorem claims_are_always_paid:
  assumes live: "protocol_live tk bal to_xdr verify d t0 x" and start: "0 \<le> bal t0 (at_asset d) (at_vault d)"
    and pays: "transfers_go_through tk bal (at_asset d)"
    and owed: "0 < claimable (pr_vault x) h" and h: "h \<noteq> at_vault d"
    and room: "in_i128 (bal (pr_token x) (at_asset d) h + claimable (pr_vault x) h)"
    and env: "outside d env" "current_contract env = at_vault d" "pr_now x \<le> timestamp env"
  shows "\<exists>y. invoke tk to_xdr verify d env (AtVault (CallClaim h)) x = Some y \<and>
    protocol_step tk bal to_xdr verify d x y \<and> claimable (pr_vault y) h = 0 \<and>
    bal (pr_token y) (at_asset d) h = bal (pr_token x) (at_asset d) h + claimable (pr_vault x) h"
proof -
  obtain v t where c: "claim (vault_token tk) env h (pr_vault x) (pr_engine x, pr_pool x, pr_token x)
      = Inr (claimable (pr_vault x) h, v, (pr_engine x, pr_pool x, t))"
    and credit: "bal t (at_asset d) h = bal (pr_token x) (at_asset d) h + claimable (pr_vault x) h"
    by (rule live_claim_succeeds [OF live start pays owed h room env(2)])
  have call: "call_vault (vault_clients tk (at_engine d) (at_pool d)) (vault_token tk) env (CallClaim h)
      (pr_vault x, pr_engine x, pr_pool x, pr_token x) = Some (v, pr_engine x, pr_pool x, t)"
    using c by simp
  obtain y where y: "invoke tk to_xdr verify d env (AtVault (CallClaim h)) x = Some y"
    "protocol_step tk bal to_xdr verify d x y" "pr_vault y = v" "pr_token y = t"
    by (rule vault_transaction [OF live env call])
  have "claimable v h = 0" using c by (auto elim!: claim_ok simp: claimable_def read_claim_def store_simps)
  with y credit show ?thesis by (intro exI [of _ y]) simp
qed

theorem claims_are_always_paid_witness:
  "\<exists>y. invoke book_transfer demo_xdr demo_verify demo_deployment (va_env 90500) (AtVault (CallClaim demo_farmer))
     (demo_state 90000 te_demo5 demo6v pol_demo1 va_demo1 demo_ledger6v) = Some y \<and>
   claimable (pr_vault y) demo_farmer = 0"
proof -
  have due: "claimable va_demo1 demo_farmer = 1428"
    by (simp add: claimable_def read_claim_def va_demo1_def store_simps)
      (simp add: demo_payee_def va_demo0_def va_constructor_def va_empty_def read_claim_def)
  have held: "book_balance demo_ledger6v demo_token demo_farmer = 8500" "book_balance demo_ledger demo_token demo_vault = 0"
    by (simp_all add: book_balance_def demo_ledger6v_def demo_ledger6_def demo_ledger3_def demo_ledger_def
        demo_pay_def demo_addresses)
  have "demo_farmer \<noteq> demo_vault" by (simp add: demo_addresses)
  then show ?thesis
    using claims_are_always_paid [OF demo_live_batch _ book_goes_through, of demo_farmer "va_env 90500"]
    by (simp add: due held demo_outside va_env_call in_i128_def) blast
qed



end
