(* ===== verification/Lifetime.thy ===== *)
theory Lifetime
  imports Common
begin

text \<open>
  The storage lifetime helpers of the \<^verbatim>\<open>common\<close> crate and the helper every contract writes its
  persistent entries with. Ledgers are counted in \<^verbatim>\<open>u32\<close> sequence numbers; an entry is live up to and
  including the ledger \<open>live_until\<close>, after that the host refuses to load it. What the host does when an
  entry is created or extended is a parameter.
\<close>

section \<open>Storage with lifetimes\<close>

record ('k, 'v) Storage =
  entries :: "'k \<rightharpoonup> 'v"
  live_until :: "'k \<Rightarrow> u32"
  instance_until :: u32

text \<open>\<open>host_extend seq threshold extend_to until\<close> is the new last ledger of an entry that is live up
  to \<open>until\<close>; \<open>host_fresh seq\<close> is the last ledger of an entry created at \<open>seq\<close>.\<close>

record StorageHost =
  host_extend :: "u32 \<Rightarrow> u32 \<Rightarrow> u32 \<Rightarrow> u32 \<Rightarrow> u32"
  host_fresh :: "u32 \<Rightarrow> u32"

definition extend_instance_ttl :: "StorageHost \<Rightarrow> u32 \<Rightarrow> ('k, 'v) Storage \<Rightarrow> ('k, 'v) Storage" where
  "extend_instance_ttl host seq s = s\<lparr>instance_until :=
     host_extend host seq INSTANCE_LIFETIME_THRESHOLD INSTANCE_BUMP_AMOUNT (instance_until s)\<rparr>"

definition extend_persistent_ttl ::
    "StorageHost \<Rightarrow> u32 \<Rightarrow> 'k \<Rightarrow> ('k, 'v) Storage \<Rightarrow> ('k, 'v) Storage" where
  "extend_persistent_ttl host seq key s = s\<lparr>live_until := (live_until s)(key :=
     host_extend host seq PERSISTENT_LIFETIME_THRESHOLD PERSISTENT_BUMP_AMOUNT (live_until s key))\<rparr>"

text \<open>The host's \<^verbatim>\<open>set\<close> and \<^verbatim>\<open>get\<close>: an archived entry can be neither written nor read.\<close>

definition archived :: "u32 \<Rightarrow> 'k \<Rightarrow> ('k, 'v) Storage \<Rightarrow> bool" where
  "archived seq key s \<longleftrightarrow> entries s key \<noteq> None \<and> live_until s key < seq"

definition host_set ::
    "StorageHost \<Rightarrow> u32 \<Rightarrow> 'k \<Rightarrow> 'v \<Rightarrow> ('k, 'v) Storage \<Rightarrow> ('k, 'v) Storage option" where
  "host_set host seq key v s =
     (if archived seq key s then None
      else Some (s\<lparr>entries := (entries s)(key \<mapsto> v),
        live_until := (if entries s key = None then (live_until s)(key := host_fresh host seq)
                       else live_until s)\<rparr>))"

definition host_get :: "u32 \<Rightarrow> 'k \<Rightarrow> ('k, 'v) Storage \<Rightarrow> 'v option option" where
  "host_get seq key s = (if archived seq key s then None else Some (entries s key))"

definition write_persistent ::
    "StorageHost \<Rightarrow> u32 \<Rightarrow> 'k \<Rightarrow> 'v \<Rightarrow> ('k, 'v) Storage \<Rightarrow> ('k, 'v) Storage option" where
  "write_persistent host seq key v s =
     Option.bind (host_set host seq key v s) (\<lambda>s. Some (extend_persistent_ttl host seq key s))"

section \<open>The host as documented\<close>

text \<open>
  An extension of a live entry is a no-op unless fewer than \<open>threshold\<close> ledgers remain, and then leaves
  \<open>extend_to\<close> of them; the documents require \<open>threshold \<le> extend_to\<close>, and cap \<open>extend_to\<close> at the network's
  maximum, which is far above ninety days. A new entry is live when it is created.
\<close>

definition documented_ttl :: "StorageHost \<Rightarrow> bool" where
  "documented_ttl host \<longleftrightarrow>
     (\<forall>seq threshold to until. seq \<le> until \<longrightarrow> threshold \<le> to \<longrightarrow> to \<le> PERSISTENT_BUMP_AMOUNT \<longrightarrow>
        uint seq + uint to < 2 ^ 32 \<longrightarrow>
        host_extend host seq threshold to until =
          (if uint until - uint seq < uint threshold then seq + to else until)) \<and>
     (\<forall>seq. seq \<le> host_fresh host seq)"

lemma documented_extend:
  assumes "documented_ttl host" and "seq \<le> until" and "threshold \<le> to" and "to \<le> PERSISTENT_BUMP_AMOUNT"
    and "uint seq + uint to < 2 ^ 32"
  shows "uint (host_extend host seq threshold to until) =
    (if uint until - uint seq < uint threshold then uint seq + uint to else uint until)"
proof -
  have "host_extend host seq threshold to until =
      (if uint until - uint seq < uint threshold then seq + to else until)"
    using assms unfolding documented_ttl_def by blast
  moreover have "uint (seq + to) = uint seq + uint to"
    by (rule uint_checked_uadd) (use assms(5) in \<open>simp add: checked_uadd_def\<close>)
  ultimately show ?thesis by simp
qed

text \<open>A host that behaves as documented, creating entries with a lifetime of 4096 ledgers.\<close>

definition plain_host :: StorageHost where
  "plain_host = \<lparr>
     host_extend = (\<lambda>seq threshold to until. if until - seq < threshold then seq + to else until),
     host_fresh = (\<lambda>seq. if seq \<le> - 4096 then seq + 4095 else - 1)\<rparr>"

lemma plain_host_documented: "documented_ttl plain_host"
proof -
  have sub: "uint (until - seq) = uint until - uint seq" if "seq \<le> until" for seq until :: u32
    using that by (simp add: uint_minus_simple_alt word_le_def)
  have "seq \<le> seq + 4095" if "seq \<le> - 4096" for seq :: u32
    using that by (simp add: word_le_def uint_word_ariths mod_pos_pos_trivial)
  then show ?thesis
    by (auto simp: documented_ttl_def plain_host_def word_less_def sub)
qed

lemma lifetime_values:
  "uint INSTANCE_BUMP_AMOUNT = 518400" "uint INSTANCE_LIFETIME_THRESHOLD = 501120"
  "uint PERSISTENT_BUMP_AMOUNT = 1555200" "uint PERSISTENT_LIFETIME_THRESHOLD = 1537920"
  by (simp_all add: INSTANCE_BUMP_AMOUNT_def INSTANCE_LIFETIME_THRESHOLD_def PERSISTENT_BUMP_AMOUNT_def
      PERSISTENT_LIFETIME_THRESHOLD_def DAY_IN_LEDGERS_def)

section \<open>Runs of invocations\<close>

text \<open>
  The invocations of one contract at the ledgers of a list, each of which extends the instance, as
  every mutating entry point does. Once the instance is archived the host refuses the next one.
\<close>

fun invocations :: "StorageHost \<Rightarrow> u32 list \<Rightarrow> ('k, 'v) Storage \<Rightarrow> ('k, 'v) Storage option" where
  "invocations host [] s = Some s"
| "invocations host (seq # seqs) s =
     (if instance_until s < seq then None else invocations host seqs (extend_instance_ttl host seq s))"

text \<open>Ledgers in order, no two neighbours more than \<open>gap\<close> apart.\<close>

fun close_together :: "int \<Rightarrow> u32 \<Rightarrow> u32 list \<Rightarrow> bool" where
  "close_together gap seq [] \<longleftrightarrow> True"
| "close_together gap seq (x # xs) \<longleftrightarrow> seq \<le> x \<and> uint x \<le> uint seq + gap \<and> close_together gap x xs"

end
