(* ===== verification/Lifetime_Props.thy ===== *)
theory Lifetime_Props
  imports Lifetime
begin

text \<open>
  What the lifetime helpers guarantee, for a host that extends entries as documented, with witnesses
  on a plain host.
\<close>

lemma extend_instance_until:
  assumes "documented_ttl host" and "seq \<le> instance_until s" and "uint seq + 518400 < 2 ^ 32"
  shows "uint (instance_until (extend_instance_ttl host seq s)) =
    (if uint (instance_until s) - uint seq < 501120 then uint seq + 518400 else uint (instance_until s))"
  using documented_extend [OF assms(1,2), of INSTANCE_LIFETIME_THRESHOLD INSTANCE_BUMP_AMOUNT] assms(3)
  by (simp add: extend_instance_ttl_def lifetime_values word_le_def)

text \<open>What is written lives: a persistent write that the host accepts stores the value and leaves the
  entry at least 89 days of five-second ledgers, in which it can be read at any time with no further
  write; it never shortens the entry's life and touches no other entry. Reading extends nothing.\<close>

theorem written_entry_lives:
  assumes host: "documented_ttl host" and seq: "uint seq + 1555200 < 2 ^ 32"
    and ok: "write_persistent host seq key v s = Some s'"
  shows "uint seq + 1537920 \<le> uint (live_until s' key) \<and>
    (\<forall>now. uint now \<le> uint seq + 1537920 \<longrightarrow> host_get now key s' = Some (Some v)) \<and>
    (entries s key \<noteq> None \<longrightarrow> live_until s key \<le> live_until s' key) \<and>
    (\<forall>k. k \<noteq> key \<longrightarrow> entries s' k = entries s k \<and> live_until s' k = live_until s k) \<and>
    instance_until s' = instance_until s"
proof -
  define old where "old = (if entries s key = None then host_fresh host seq else live_until s key)"
  have w: "\<not> archived seq key s" "entries s' = (entries s)(key \<mapsto> v)" "instance_until s' = instance_until s"
      "live_until s' = (live_until s)(key := host_extend host seq PERSISTENT_LIFETIME_THRESHOLD
         PERSISTENT_BUMP_AMOUNT old)"
    using ok by (auto simp: write_persistent_def host_set_def extend_persistent_ttl_def old_def split: if_splits)
  have "seq \<le> old"
    using w(1) host by (auto simp: old_def archived_def documented_ttl_def not_less)
  from documented_extend [OF host this, of PERSISTENT_LIFETIME_THRESHOLD PERSISTENT_BUMP_AMOUNT] seq
  have until: "uint (live_until s' key) =
      (if uint old - uint seq < 1537920 then uint seq + 1555200 else uint old)"
    by (simp add: w(4) lifetime_values word_le_def)
  then have "uint seq + 1537920 \<le> uint (live_until s' key)" and "old \<le> live_until s' key"
    by (auto simp: word_le_def)
  then show ?thesis
    by (auto simp: w(2-4) host_get_def archived_def old_def word_less_def)
qed

theorem written_entry_lives_witness:
  "\<exists>s'. write_persistent plain_host 1000 True (7::int)
     \<lparr>entries = Map.empty, live_until = \<lambda>_. 0, instance_until = 5000\<rparr> = Some s' \<and>
     host_get 1538920 True s' = Some (Some 7)"
proof -
  let ?s = "\<lparr>entries = Map.empty, live_until = \<lambda>_. 0, instance_until = 5000\<rparr> :: (bool, int) Storage"
  obtain s' where s': "write_persistent plain_host 1000 True 7 ?s = Some s'"
    by (simp add: write_persistent_def host_set_def archived_def)
  have "host_get 1538920 True s' = Some (Some 7)"
    using written_entry_lives [OF plain_host_documented _ s'] by simp
  with s' show ?thesis by blast
qed

text \<open>A contract in use never expires: when its mutating entry points are invoked in any order at
  ledgers that are at most 29 days apart, the instance is live at every invocation and stays so for
  at least 29 days after the last one.\<close>

theorem instance_in_use_lives:
  assumes host: "documented_ttl host" and far: "\<forall>x\<in>set (seq # seqs). uint x + 518400 < 2 ^ 32"
    and live: "uint seq + 501120 \<le> uint (instance_until s)" and gaps: "close_together 501120 seq seqs"
  shows "\<exists>s'. invocations host seqs s = Some s' \<and>
    uint (last (seq # seqs)) + 501120 \<le> uint (instance_until s') \<and>
    entries s' = entries s \<and> live_until s' = live_until s"
  using far live gaps
proof (induction seqs arbitrary: seq s)
  case Nil
  then show ?case by simp
next
  case (Cons x xs)
  let ?s = "extend_instance_ttl host x s"
  have at: "x \<le> instance_until s" using Cons.prems(2,3) by (simp add: word_le_def)
  have "uint x + 518400 < 2 ^ 32" using Cons.prems(1) by simp
  then have "uint x + 501120 \<le> uint (instance_until ?s)"
    by (simp add: extend_instance_until [OF host at])
  moreover note at
  ultimately show ?case
    using Cons.IH [of x ?s] Cons.prems(1,3) by (auto simp: extend_instance_ttl_def not_less)
qed

theorem instance_in_use_lives_witness:
  "\<exists>s'. invocations plain_host [400000, 900000, 1400000]
     \<lparr>entries = Map.empty :: bool \<Rightarrow> int option, live_until = \<lambda>_. 0, instance_until = 501220\<rparr> = Some s' \<and>
     uint (instance_until s') \<ge> 1901120"
  using instance_in_use_lives [OF plain_host_documented, where seq = 100 and seqs = "[400000, 900000, 1400000]"
      and s = "\<lparr>entries = Map.empty :: bool \<Rightarrow> int option, live_until = \<lambda>_. 0, instance_until = 501220\<rparr>"]
  by (auto simp: word_le_def simp del: invocations.simps)

text \<open>A contract that nobody invokes for more than 30 days does expire.\<close>

theorem idle_instance_expires:
  assumes host: "documented_ttl host" and far: "uint seq + 518400 < 2 ^ 32"
    and live: "seq \<le> instance_until s" "uint (instance_until s) \<le> uint seq + 518400"
    and idle: "uint seq + 518400 < uint later"
  shows "invocations host [seq, later] s = None"
  using extend_instance_until [OF host live(1) far] live idle
  by (auto simp: word_less_def not_less word_le_def)

end
