(* ===== verification/Outcome_Props.thy ===== *)
theory Outcome_Props
  imports RiskPool_Demo
begin

text \<open>
  The complete outcome of a withdrawal and of a deposit, errors included, in every state the pool
  reaches: which of the typed errors is returned, in which order the conditions are tested, and which of
  the tests in the code can never fail there.
\<close>

section \<open>Withdrawals\<close>

lemma receipt_le_supply:
  assumes run: "rp_reachable tk ext me s t" and c: "PoolConfigOf s p = Some c"
  shows "read_receipt s (p, tier, h) \<le> receipt_supply (read_tranche s p tier)"
    and "0 \<le> read_receipt s (p, tier, h)"
proof -
  have ok: "tranche_ok s p tier" by (rule rp_reachableE [OF run c]) blast
  then show "read_receipt s (p, tier, h) \<le> receipt_supply (read_tranche s p tier)"
    by (rule tranche_ok_supply_le)
  show "0 \<le> read_receipt s (p, tier, h)" using ok by (simp add: tranche_ok_def)
qed

text \<open>C13. The outcome of a withdrawal (FR-POOL-3): in every reachable state it is one of the following, tested
  in this order: no authorization of the holder, an amount that is not positive, more than his receipts,
  a product out of range, a share that rounds to nothing, a share beyond the reserves, a failed token
  transfer; otherwise the holder gets the floor of his share and exactly his receipts, the tranche, the
  reserves and the event log change. The remaining tests of the code, among them the block on
  senior withdrawals and the solvency check, never fail.\<close>

theorem withdraw_outcome:
  assumes run: "rp_reachable tk ext me s t0" and c: "PoolConfigOf s p = Some c" and sol: "SolvencyOf s p = Some sol"
    and tr: "tr = read_tranche s p tier" and bal: "held_receipts = read_receipt s (p, tier, holder)"
    and u: "u = r * deposited tr div receipt_supply tr"
  shows "withdraw tk env p tier holder r s t =
    (if \<not> require_auth env holder then Inl Trap
     else if r \<le> 0 then Inl (Err InvalidAmount)
     else if held_receipts < r then Inl (Err InsufficientReceipts)
     else if \<not> in_i128 (r * deposited tr) then Inl (Err RpOverflow)
     else if u = 0 then Inl (Err InvalidAmount)
     else if reserves sol < u then Inl (Err InsufficientReserves)
     else case tk (call_env env (cfg_token c)) (cfg_token c) (current_contract env) holder u t of
       None \<Rightarrow> Inl Trap
     | Some t' \<Rightarrow> Inr (u, s\<lparr>
         TrancheOf := (TrancheOf s)((p, tier) \<mapsto>
           \<lparr>deposited = deposited tr - u, receipt_supply = receipt_supply tr - r\<rparr>),
         ReceiptOf := (ReceiptOf s)((p, tier, holder) \<mapsto> held_receipts - r),
         SolvencyOf := (SolvencyOf s)(p \<mapsto> sol\<lparr>reserves := reserves sol - u\<rparr>),
         rp_events := rp_events s @ [Withdrawn p tier holder r u]\<rparr>, t'))"
proof (cases "require_auth env holder \<and> 0 < r \<and> r \<le> held_receipts")
  case False
  then show ?thesis using c by (auto simp: withdraw_def Let_def rp_reads bal)
next
  case True
  have ok: "tranche_ok s p tier" by (rule rp_reachableE [OF run c]) blast
  have so: "solvency_ok sol" using rp_reachable_solvency [OF run sol] by blast
  have S: "held_receipts \<le> receipt_supply tr" "0 < receipt_supply tr" "in_i128 (receipt_supply tr)"
    using receipt_le_supply(1) [OF run c, of tier holder] True ok by (simp_all add: bal tr tranche_ok_def)
  have D: "0 \<le> deposited tr" "in_i128 (deposited tr)" using ok by (simp_all add: tr tranche_ok_def)
  have nn: "0 \<le> r * deposited tr" using True D(1) by simp
  have "r * deposited tr \<le> receipt_supply tr * deposited tr"
    using True S(1) D(1) by (intro mult_right_mono) simp_all
  then have "u \<le> receipt_supply tr * deposited tr div receipt_supply tr"
    unfolding u by (intro zdiv_mono1) (use S(2) in simp_all)
  then have le: "0 \<le> u" "u \<le> deposited tr" using nn S(2) by (simp_all add: u pos_imp_zdiv_nonneg_iff)
  have quot: "mul_div r (deposited tr) (receipt_supply tr) = (if in_i128 (r * deposited tr) then Some u else None)"
  proof -
    have "in_i128 u" by (rule in_i128_between [OF D(2) le])
    then show ?thesis using nn S(2) by (simp add: mul_div_def checked_mul_def checked_div_def checked_def u)
  qed
  have bounds: "in_i128 (deposited tr - u)" "in_i128 (receipt_supply tr - r)" "in_i128 (held_receipts - r)"
    "u \<le> reserves sol \<Longrightarrow> in_i128 (reserves sol - u)"
    using D S le so True by (auto simp: in_i128_def solvency_ok_def)
  show ?thesis
    using True c sol so S(2) le bounds
    by (auto simp: withdraw_def Let_def rp_reads tr [symmetric] bal [symmetric] quot solvency_ok_def
        checked_sub_def checked_def write_tranche_def write_receipt_def write_solvency_def rp_publish_def
        split: option.split)
qed

text \<open>Two answers of the table on the demonstration run: one receipt too many, and seven receipts for seven.\<close>

theorem withdraw_outcome_witness:
  "withdraw book_transfer (demo_env 8 None) 1 Junior demo_farmer 1008 demo3a demo_ledger3a
     = Inl (Err InsufficientReceipts) \<and>
   (\<exists>s t. withdraw book_transfer (demo_env 8 None) 1 Junior demo_farmer 7 demo3a demo_ledger3a
     = Inr (7, s, t))"
proof (intro conjI)
  note table = withdraw_outcome [OF demo_reachable_more demo3a_reads(1,2) refl refl refl,
      where tier = Junior and holder = demo_farmer]
  note reads = demo3a_reads demo_defs book_transfer_def demo_ledger3a_def demo_ledger3_def
    demo_ledger_def demo_pay_def in_i128_def
  show "withdraw book_transfer (demo_env 8 None) 1 Junior demo_farmer 1008 demo3a demo_ledger3a
     = Inl (Err InsufficientReceipts)"
    unfolding table using demo3a_reads(4) by (simp add: reads)
  show "\<exists>s t. withdraw book_transfer (demo_env 8 None) 1 Junior demo_farmer 7 demo3a demo_ledger3a
     = Inr (7, s, t)"
    unfolding table using demo3a_reads(4) by (simp add: reads)
qed

section \<open>Deposits\<close>

text \<open>C14. The outcome of a deposit (FR-POOL-2): in every reachable state it is one of the following, tested
  in this order: no authorization of the depositor, an amount that is not positive, a capital out of
  range, a capital beyond the cap of the tranche, a share price without capital behind the receipts or
  out of range, a share that rounds to nothing, a failed token transfer, a supply or reserves out of
  range; otherwise the receipts are minted and exactly the tranche, the receipts of the depositor, the
  reserves and the event log change. The depositor's own receipts never overflow when the supply does
  not.\<close>

theorem deposit_outcome:
  assumes run: "rp_reachable tk ext me s t0" and c: "PoolConfigOf s p = Some c" and sol: "SolvencyOf s p = Some sol"
    and tr: "tr = read_tranche s p tier"
    and cap: "cap = (case tier of Junior \<Rightarrow> junior_cap (cfg_tranche c) | Senior \<Rightarrow> senior_cap (cfg_tranche c))"
    and m: "m = (if receipt_supply tr = 0 then a else a * receipt_supply tr div deposited tr)"
  shows "deposit tk env p tier depositor a s t =
    (if \<not> require_auth env depositor then Inl Trap
     else if a \<le> 0 then Inl (Err InvalidAmount)
     else if \<not> in_i128 (deposited tr + a) then Inl (Err RpOverflow)
     else if 0 < cap \<and> cap < deposited tr + a then Inl (Err TrancheCapExceeded)
     else if receipt_supply tr \<noteq> 0 \<and>
       (deposited tr = 0 \<or> \<not> in_i128 (a * receipt_supply tr)) then Inl (Err RpOverflow)
     else if m = 0 then Inl (Err InvalidAmount)
     else case tk (call_env env (cfg_token c)) (cfg_token c) depositor (current_contract env) a t of
       None \<Rightarrow> Inl Trap
     | Some t' \<Rightarrow>
         if \<not> in_i128 (receipt_supply tr + m) \<or> \<not> in_i128 (reserves sol + a) then Inl (Err RpOverflow)
         else Inr (m, s\<lparr>
           TrancheOf := (TrancheOf s)((p, tier) \<mapsto>
             \<lparr>deposited = deposited tr + a, receipt_supply = receipt_supply tr + m\<rparr>),
           ReceiptOf := (ReceiptOf s)((p, tier, depositor) \<mapsto> read_receipt s (p, tier, depositor) + m),
           SolvencyOf := (SolvencyOf s)(p \<mapsto> sol\<lparr>reserves := reserves sol + a\<rparr>),
           rp_events := rp_events s @ [Deposited p tier depositor a m]\<rparr>, t'))"
proof (cases "require_auth env depositor \<and> 0 < a \<and> in_i128 (deposited tr + a)")
  case False
  then show ?thesis using c by (auto simp: deposit_def Let_def rp_reads tr checked_arith)
next
  case True
  have ok: "tranche_ok s p tier" by (rule rp_reachableE [OF run c]) blast
  have S: "0 \<le> receipt_supply tr" and D: "0 \<le> deposited tr" using ok by (simp_all add: tr tranche_ok_def)
  have quot: "mul_div a (receipt_supply tr) (deposited tr) =
      (if deposited tr = 0 \<or> \<not> in_i128 (a * receipt_supply tr) then None
       else Some (a * receipt_supply tr div deposited tr))"
    if "receipt_supply tr \<noteq> 0"
  proof (cases "deposited tr = 0 \<or> \<not> in_i128 (a * receipt_supply tr)")
    case False
    then have pos: "0 < deposited tr" "0 \<le> a * receipt_supply tr" using True S D by simp_all
    then have "a * receipt_supply tr div deposited tr \<le> a * receipt_supply tr"
      by (metis div_by_1 int_one_le_iff_zero_less zdiv_mono2 zero_less_one)
    moreover have "0 \<le> a * receipt_supply tr div deposited tr" using pos by (simp add: pos_imp_zdiv_nonneg_iff)
    ultimately show ?thesis
      using False pos by (simp add: mul_div_def checked_arith in_i128_def)
  qed (auto simp: mul_div_def checked_arith)
  have m0: "0 \<le> m" using True S D by (cases "deposited tr = 0") (simp_all add: m pos_imp_zdiv_nonneg_iff)
  have receipt: "in_i128 (read_receipt s (p, tier, depositor) + m)" if "in_i128 (receipt_supply tr + m)"
    using that m0 receipt_le_supply [OF run c, of tier depositor] by (simp add: tr in_i128_def)
  show ?thesis
  proof (cases "receipt_supply tr = 0")
    case True
    note none = this
    show ?thesis
      using \<open>require_auth env depositor \<and> _\<close> c sol m0 receipt none m cap
      by (auto simp: deposit_def Let_def rp_reads tr [symmetric] checked_add_def checked_def write_tranche_def
          write_receipt_def write_solvency_def rp_publish_def read_receipt_def split: option.split)
  next
    case False
    note some = this
    show ?thesis
      using \<open>require_auth env depositor \<and> _\<close> c sol m0 receipt quot [OF some] some m cap
      by (auto simp: deposit_def Let_def rp_reads tr [symmetric] checked_add_def checked_def write_tranche_def
          write_receipt_def write_solvency_def rp_publish_def read_receipt_def split: option.split)
  qed
qed

text \<open>The deposit of the run, and one beyond the cap of the senior tranche.\<close>

theorem deposit_outcome_witness:
  "(\<exists>s t. deposit book_transfer (demo_env 7 None) 1 Junior demo_farmer 7 demo3 demo_ledger3 = Inr (7, s, t)) \<and>
   deposit book_transfer (demo_env 7 None) 1 Senior demo_farmer 5001 demo2 demo_ledger
     = Inl (Err TrancheCapExceeded)"
proof (intro conjI)
  note table = deposit_outcome [OF demo_reachable(2) demo3_reads(2,3) refl refl refl, where tier = Junior
      and depositor = demo_farmer]
  note senior = deposit_outcome [OF demo_reachable(1) demo2_reads(2,3) refl refl refl, where tier = Senior
      and depositor = demo_farmer]
  note reads = demo2_reads demo3_reads demo_defs book_transfer_def demo_ledger3_def
    demo_ledger_def demo_pay_def in_i128_def
  show "\<exists>s t. deposit book_transfer (demo_env 7 None) 1 Junior demo_farmer 7 demo3 demo_ledger3 = Inr (7, s, t)"
    unfolding table by (simp add: reads)
  show "deposit book_transfer (demo_env 7 None) 1 Senior demo_farmer 5001 demo2 demo_ledger
     = Inl (Err TrancheCapExceeded)"
    unfolding senior by (simp add: reads)
qed

end
