(* ===== verification/Golden_Vectors.thy ===== *)
theory Golden_Vectors
  imports Trigger_Demo
begin

text \<open>
  The golden vectors of \<^verbatim>\<open>src/docs/INDEX-SPEC.md\<close>, section 8, which \<^verbatim>\<open>trigger-engine/src/test.rs\<close> pins
  against the two formulas: for each of them the rainfall of the window or its longest dry run, whether
  the index triggers, and the severity in basis points.
\<close>

definition golden_rainfall :: "(i128 \<times> bool \<times> Bps) list" where
  "golden_rainfall = [(800, False, 0), (600, False, 0), (520, True, 2857), (320, True, 10000)]"

definition golden_dry_days :: "(u32 \<times> bool \<times> Bps) list" where
  "golden_dry_days = [(20, False, 0), (21, True, 0), (28, True, 5000), (35, True, 10000)]"

definition rain_acc :: "i128 \<Rightarrow> WindowAccumulator" where
  "rain_acc rain = \<lparr>days_recorded = 0, rain_sum = rain, current_run = 0, max_run = 0\<rparr>"

definition run_acc :: "u32 \<Rightarrow> WindowAccumulator" where
  "run_acc run = \<lparr>days_recorded = 0, rain_sum = 0, current_run = 0, max_run = run\<rparr>"

fun rainfall_vector_holds :: "i128 \<times> bool \<times> Bps \<Rightarrow> bool" where
  "rainfall_vector_holds (rain, triggered, severity) \<longleftrightarrow>
     eval_rainfall (rain_params 1) (rain_acc rain) = Inr (triggered, severity)"

fun dry_vector_holds :: "u32 \<times> bool \<times> Bps \<Rightarrow> bool" where
  "dry_vector_holds (run, triggered, severity) \<longleftrightarrow>
     eval_dry_days (dry_params 40) (run_acc run) = Inr (triggered, severity)"

lemma golden_rainfall_vectors: "list_all rainfall_vector_holds golden_rainfall"
  by code_simp

lemma golden_dry_day_vectors: "list_all dry_vector_holds golden_dry_days"
  by code_simp

end
