(* ===== verification/Test_Utils.thy ===== *)
theory Test_Utils
  imports Common
begin

text \<open>
  The helpers of the \<^verbatim>\<open>test-utils\<close> crate that compute something: the clock and the ledger sequence of
  the test host, which add with saturation, and the two helpers of the assertions. A failed assertion
  and an \<^verbatim>\<open>expect\<close> on nothing panic. The other two helpers of the crate only ask the SDK for a test
  environment and for a fresh address.
\<close>

definition saturating_add :: "'n::len word \<Rightarrow> 'n word \<Rightarrow> 'n word" where
  "saturating_add a b = (case checked_uadd a b of None \<Rightarrow> - 1 | Some c \<Rightarrow> c)"

definition advance_time :: "u64 \<Rightarrow> u64 \<Rightarrow> u64" where
  "advance_time delta_secs now = saturating_add now delta_secs"

definition advance_sequence :: "u32 \<Rightarrow> u32 \<Rightarrow> u32" where
  "advance_sequence delta seq = saturating_add seq delta"

definition assert_error_code :: "u32 \<Rightarrow> u32 \<Rightarrow> ('e, unit) result" where
  "assert_error_code actual expected = (if actual = expected then Inr () else Inl Trap)"

definition expected_bps :: "i128 \<Rightarrow> u32 \<Rightarrow> ('e, i128) result" where
  "expected_bps amount bps = or_trap (apply_bps amount bps)"

text \<open>Saturation: the sum if it fits, the greatest value otherwise, and never less than before.\<close>

lemma uint_saturating_add: "uint (saturating_add a b) = min (uint a + uint b) (2 ^ LENGTH('n) - 1)"
  for a b :: "'n::len word"
proof (cases "checked_uadd a b")
  case None
  then show ?thesis by (auto simp: saturating_add_def checked_uadd_def unsigned_minus_1_eq_mask mask_eq_exp_minus_1
        split: if_splits)
next
  case (Some c)
  then have "uint a + uint b < 2 ^ LENGTH('n)" by (simp add: checked_uadd_Some)
  with Some show ?thesis by (simp add: saturating_add_def uint_checked_uadd)
qed

lemma saturating_add_ge: "a \<le> saturating_add a b" for a b :: "'n::len word"
  using uint_lt2p [of a] unfolding word_le_def uint_saturating_add by simp

lemma later_advance_time: "now \<le> advance_time dt now"
  by (simp add: advance_time_def saturating_add_ge)

lemma later_advance_sequence: "seq \<le> advance_sequence dn seq"
  by (simp add: advance_sequence_def saturating_add_ge)

text \<open>The tests of the crate: the clock adds when there is room, and half of a thousand is five hundred.\<close>

lemma time_and_sequence_advance:
  "uint t0 + 3600 < 2 ^ 64 \<Longrightarrow> advance_time 3600 t0 = t0 + 3600"
  "uint s0 + 10 < 2 ^ 32 \<Longrightarrow> advance_sequence 10 s0 = s0 + 10"
  by (simp_all add: advance_time_def advance_sequence_def saturating_add_def checked_uadd_def)

lemma expected_bps_matches_common: "(expected_bps 1000 5000 :: (unit, i128) result) = Inr 500"
  by code_simp

end
