(* ===== verification/Season_Test.thy ===== *)
theory Season_Test
  imports Protocol_Payable Oracle_Demo Test_Utils
begin

text \<open>
  The end to end test of the repository, \<^verbatim>\<open>integration-tests/tests/full_season.rs\<close>, as a script on the
  model of the whole protocol: the five contracts are deployed and wired, capital is deposited, a
  certificate is sold, two publishers report the weather, the engine reads it from the oracle, and the
  season either pays or does not. The script has a step for every statement of the test that acts on the
  ledger and for every assertion; helper functions of the test are lists of steps.
\<close>

section \<open>Scripts\<close>

datatype TestStep =
    MintTo Address i128
  | AdvanceTime u64
  | Do Call
  | Assert "book Protocol \<Rightarrow> bool"

definition world :: Deployment where
  "world = \<lparr>at_oracle = demo_oracle, at_engine = demo_engine, at_pool = demo_pool,
     at_policy = demo_policy, at_vault = demo_vault, at_asset = demo_token\<rparr>"

text \<open>Every account authorizes what it is asked to; the contracts are called from outside.\<close>

definition env_of :: "Address \<Rightarrow> book Protocol \<Rightarrow> Env" where
  "env_of contract x = \<lparr>timestamp = pr_now x, current_contract = contract, invoker = None,
     signed = demo_signed\<rparr>"

definition mint_to :: "Address \<Rightarrow> i128 \<Rightarrow> book \<Rightarrow> book" where
  "mint_to a n t = t(demo_token := (t demo_token)(a := t demo_token a + n))"

definition execute :: "Call \<Rightarrow> book Protocol \<Rightarrow> book Protocol option" where
  "execute c x = invoke book_transfer demo_xdr demo_verify world (env_of (callee world c) x) c x"

fun run_test :: "TestStep list \<Rightarrow> book Protocol \<Rightarrow> book Protocol option" where
  "run_test [] x = Some x"
| "run_test (MintTo a n # ss) x = run_test ss (x\<lparr>pr_token := mint_to a n (pr_token x)\<rparr>)"
| "run_test (AdvanceTime dt # ss) x = run_test ss (x\<lparr>pr_now := advance_time dt (pr_now x)\<rparr>)"
| "run_test (Do c # ss) x = (case execute c x of None \<Rightarrow> None | Some y \<Rightarrow> run_test ss y)"
| "run_test (Assert P # ss) x = (if P x then run_test ss x else None)"

text \<open>What a call returns is read by making it in the state before the step that performs it.\<close>

fun returns :: "('a \<Rightarrow> bool) \<Rightarrow> ('e, 'a \<times> 'b) result \<Rightarrow> bool" where
  "returns P (Inl e) = False"
| "returns P (Inr (v, _)) = P v"

section \<open>The fixtures\<close>

definition TIMELOCK :: u64 where "TIMELOCK = 604800"
definition CHALLENGE :: u64 where "CHALLENGE = 86400"
definition COVERAGE :: i128 where "COVERAGE = 10000000"
definition RESERVES :: i128 where "RESERVES = 40000000"

definition region :: Symbol where "region = ''KE_NAK''"
definition metric :: Symbol where "metric = ''rain_mm''"

definition rainfall_params :: IndexParams where
  "rainfall_params = \<lparr>ip_kind = RainfallShortfall, ip_region = region, ip_metric = metric,
     window_len = 4, baseline = 800, trigger_ratio_bps = 7500, exhaustion_ratio_bps = 4000,
     trigger_days = 0, exhaustion_days = 0, dry_floor = 0, data_source_ref = 7\<rparr>"

definition test_pool :: PoolConfig where
  "test_pool = \<lparr>cfg_token = demo_token, cfg_regions = [region], cfg_season_length = 100,
     cfg_premium = \<lparr>base_bps = 100, coverage_slope_bps = 10\<rparr>,
     cfg_tranche = \<lparr>junior_cap = 0, senior_cap = 0\<rparr>,
     cfg_fee = \<lparr>protocol_bps = 0, publisher_bps = 0, protocol_cap = 0, publisher_cap = 0\<rparr>,
     cfg_transferable = False\<rparr>"

definition test_depositor :: Address where "test_depositor = AccountId 3"

text \<open>The ledger starts empty at time 0; the constructors and the wiring of the pool are \<open>deploy\<close>.\<close>

definition deployed :: "book Protocol" where
  "deployed = deploy world demo_admin 0 (\<lambda>_ _. 0)"

definition deploy_world :: "TestStep list" where
  "deploy_world = [
     Do (AtEngine (CallSetOracle demo_oracle)),
     Do (AtPool (CallCreatePool test_pool)),
     MintTo test_depositor RESERVES,
     Do (AtPool (CallDeposit 1 Junior test_depositor RESERVES)),
     Do (AtPool (CallOpenSeason 1)),
     Do (AtPool (CallActivateSeason 1 1))]"

definition register_publishers :: "Bytes32 \<Rightarrow> Bytes32 \<Rightarrow> TestStep list" where
  "register_publishers a b = [
     Do (AtOracle (CallProposePublisher a True)),
     Do (AtOracle (CallProposePublisher b True)),
     AdvanceTime (TIMELOCK + 1),
     Do (AtOracle (CallExecutePublisher a)),
     Do (AtOracle (CallExecutePublisher b))]"

definition report :: "u64 \<Rightarrow> Bytes32 \<Rightarrow> Bytes32 \<Rightarrow> i128 \<Rightarrow> TestStep list" where
  "report now a b v = [
     Assert (\<lambda>x. pr_now x = now),
     Do (AtOracle (CallSubmit region metric now v a (ucast a))),
     Do (AtOracle (CallSubmit region metric now v b (ucast b)))]"

definition test_terms :: "u64 \<Rightarrow> u64 \<Rightarrow> PolicyTerms" where
  "test_terms idx now = \<lparr>term_region = region, term_coverage = COVERAGE, term_index_ref = idx,
     term_window_start = now, term_window_end = now + 100, term_severity_curve = 0\<rparr>"

definition buy_policy :: "u64 \<Rightarrow> Address \<Rightarrow> u64 \<Rightarrow> i128 \<Rightarrow> TestStep list" where
  "buy_policy now farmer idx premium = [
     Assert (\<lambda>x. pr_now x = now \<and>
       quote (pool_client book_transfer demo_pool) (env_of demo_policy x) 1 COVERAGE
         (pr_policy x) (pr_pool x, pr_token x) = Inr premium),
     MintTo farmer premium,
     Do (AtPolicy (CallMint farmer 1 1 (test_terms idx now) premium 0))]"

definition record_from_oracle :: "u64 \<Rightarrow> i128 \<Rightarrow> TestStep list" where
  "record_from_oracle day v = [
     Assert (\<lambda>x. returns (\<lambda>m. m = v) (record_day_from_oracle (oracle_client demo_oracle) (pr_oracle x)
       (env_of demo_engine x) 0 0 day (pr_engine x))),
     Do (AtEngine (CallRecordDayFromOracle 0 0 day))]"

text \<open>What both tests do, up to the evaluation, with the publisher keys \<open>a\<close> and \<open>b\<close>.\<close>

definition season_setup :: "Bytes32 \<Rightarrow> Bytes32 \<Rightarrow> i128 \<Rightarrow> TestStep list" where
  "season_setup a b rain = deploy_world @ register_publishers a b @
     [Do (AtEngine (CallCreateIndex rainfall_params))] @
     buy_policy 604801 demo_farmer 0 110000 @ report 604801 a b rain @
     record_from_oracle 1 rain @ record_from_oracle 2 rain @ record_from_oracle 3 rain @
     record_from_oracle 4 rain"

definition evaluate_to :: "(TriggerStatus \<Rightarrow> bool) \<Rightarrow> TestStep list" where
  "evaluate_to P = [
     Assert (\<lambda>x. returns P (evaluate (env_of demo_engine x) 0 0 (pr_engine x))),
     Do (AtEngine (CallEvaluate 0 0))]"

definition test_payee :: PayoutEntry where
  "test_payee = \<lparr>payee_policy = 1, payee_owner = demo_farmer, payee_coverage = COVERAGE\<rparr>"

section \<open>The tests\<close>

text \<open>The body of the first test, for a daily rainfall and the severity expected of it: the season pays
  and the farmer collects.\<close>

definition paid_share :: "Bps \<Rightarrow> i128" where
  "paid_share severity = COVERAGE * uint severity div 10000"

definition season_pays :: "Bytes32 \<Rightarrow> Bytes32 \<Rightarrow> i128 \<Rightarrow> Bps \<Rightarrow> TestStep list" where
  "season_pays a b rain severity = season_setup a b rain @
     evaluate_to (\<lambda>st. case st of Triggered _ \<Rightarrow> True | _ \<Rightarrow> False) @ [
     AdvanceTime (CHALLENGE + 1),
     Assert (\<lambda>x. returns (\<lambda>st. st = Finalized (pr_now x) severity)
       (finalize (env_of demo_engine x) 0 0 (pr_engine x))),
     Do (AtEngine (CallFinalize 0 0)),
     Assert (\<lambda>x. payout_for 0 0 COVERAGE (pr_engine x) = Inr (paid_share severity)),
     Assert (\<lambda>x. returns (\<lambda>n. n = 1)
       (pay_batch (vault_clients book_transfer demo_engine demo_pool) (env_of demo_vault x) 0 0 1 1
         [test_payee] (pr_vault x) (pr_engine x, pr_pool x, pr_token x))),
     Do (AtVault (CallPayBatch 0 0 1 1 [test_payee])),
     Do (AtVault (CallCloseBatch 0 0)),
     Assert (\<lambda>x. claimable (pr_vault x) demo_farmer = paid_share severity \<and>
       book_balance (pr_token x) demo_token demo_farmer = 0),
     Assert (\<lambda>x. returns (\<lambda>n. n = paid_share severity)
       (claim (vault_token book_transfer) (env_of demo_vault x) demo_farmer (pr_vault x)
         (pr_engine x, pr_pool x, pr_token x))),
     Do (AtVault (CallClaim demo_farmer)),
     Assert (\<lambda>x. book_balance (pr_token x) demo_token demo_farmer = paid_share severity \<and>
       claimable (pr_vault x) demo_farmer = 0),
     Assert (\<lambda>x. case (season (pr_pool x) 1 1, solvency (pr_pool x) 1) of
         (Inr se, Inr sol) \<Rightarrow> payouts_paid se = paid_share severity \<and>
           reserves sol = RESERVES + premiums_in se - paid_share severity
       | _ \<Rightarrow> False),
     Do (AtPolicy (CallMarkTriggered 1)),
     Do (AtPolicy (CallMarkPaid 1)),
     Assert (\<lambda>x. case policy (pr_policy x) 1 of Inr r \<Rightarrow> pol_state r = PolPaid | _ \<Rightarrow> False)]"

text \<open>A drought of 130 mm a day.\<close>

definition full_rainfall_season_pays_and_claims :: "TestStep list" where
  "full_rainfall_season_pays_and_claims = season_pays 1 2 130 2857"

text \<open>The body of the second test: the window stays healthy and no payout leaves the pool.\<close>

definition season_blocked :: "Bytes32 \<Rightarrow> Bytes32 \<Rightarrow> i128 \<Rightarrow> TestStep list" where
  "season_blocked a b rain = season_setup a b rain @ evaluate_to (\<lambda>st. st = Healthy) @ [
     Assert (\<lambda>x. Option.is_none (execute (AtVault (CallPayBatch 0 0 1 1 [test_payee])) x)),
     Assert (\<lambda>x. claimable (pr_vault x) demo_farmer = 0),
     Assert (\<lambda>x. case (season (pr_pool x) 1 1, solvency (pr_pool x) 1) of
         (Inr se, Inr sol) \<Rightarrow> payouts_paid se = 0 \<and> reserves sol = RESERVES + premiums_in se
       | _ \<Rightarrow> False)]"

text \<open>Ample rain of 250 mm a day.\<close>

definition healthy_season_blocks_payout :: "TestStep list" where
  "healthy_season_blocks_payout = season_blocked 3 4 250"

definition passes :: "TestStep list \<Rightarrow> bool" where
  "passes test \<longleftrightarrow> \<not> Option.is_none (run_test test deployed)"

end
