(* ===== verification/Season_Run.thy ===== *)
theory Season_Run
  imports Season_Test
begin

text \<open>
  The scripts of the end to end test are runs of the protocol machine: every statement of a script is a
  step of the machine, so the theorems on the protocol speak of the states the tests pass through.
\<close>

section \<open>Scripts are runs\<close>

fun honest :: "TestStep \<Rightarrow> bool" where
  "honest (MintTo a n) = (0 \<le> n)"
| "honest (Do c) = (well_typed c \<and> keeps_wiring world c)"
| "honest _ = True"

abbreviation world_live :: "book Protocol \<Rightarrow> bool" where
  "world_live \<equiv> protocol_live book_transfer book_balance demo_xdr demo_verify world (\<lambda>_ _. 0)"

lemma world_at:
  "at_oracle world = demo_oracle" "at_engine world = demo_engine" "at_pool world = demo_pool"
  "at_policy world = demo_policy" "at_vault world = demo_vault" "at_asset world = demo_token"
  by (simp_all add: world_def)

lemma world_sound: "sound_deployment world demo_admin"
  by (simp add: sound_deployment_def contracts_def demo_addresses world_at)

lemma world_outside: "outside world (env_of a x)"
  by (simp add: outside_def contracts_def env_of_def demo_signed_def demo_addresses world_at)

lemma deployed_live: "world_live deployed"
  unfolding protocol_live_def protocol_reachable_def deployed_def
  using sac_transfer_book world_sound by (metis rtranclp.rtrancl_refl)

lemma execute_live:
  assumes "execute c x = Some y" "well_typed c" "keeps_wiring world c" "world_live x"
  shows "world_live y"
proof (rule protocol_live_step [OF assms(4) transaction])
  show "outside world (env_of (callee world c) x)" by (rule world_outside)
  show "invoke book_transfer demo_xdr demo_verify world (env_of (callee world c) x) c x = Some y"
    using assms(1) by (simp add: execute_def)
qed (use assms(2,3) in \<open>simp_all add: env_of_def\<close>)

lemma run_test_live: "run_test test x = Some y \<Longrightarrow> list_all honest test \<Longrightarrow> world_live x \<Longrightarrow> world_live y"
proof (induction test x rule: run_test.induct)
  case (2 a n ss x)
  have "foreign book_balance world (pr_token x) (mint_to a n (pr_token x))"
    using 2(3) by (simp add: foreign_def mint_to_def book_balance_def)
  from protocol_live_step [OF 2(4) elsewhere [OF this, of "pr_now x"]] 2 show ?case by simp
next
  case (3 dt ss x)
  have "foreign book_balance world (pr_token x) (pr_token x)" by (simp add: foreign_def)
  from protocol_live_step [OF 3(4) elsewhere [OF this later_advance_time [of "pr_now x" dt]]] 3 show ?case by simp
next
  case (4 c ss x)
  then show ?case by (auto split: option.splits dest: execute_live)
qed (auto split: if_splits)

end
