(* ===== verification/Season_Check.thy ===== *)
theory Season_Check
  imports Season_Run
begin

text \<open>
  A check of the model against the repository's own end to end test: its two tests pass on the model, by
  evaluation, and the states they end in are reachable states of the protocol machine.
\<close>

lemma full_rainfall_season_passes: "passes full_rainfall_season_pays_and_claims"
  by code_simp

lemma healthy_season_passes: "passes healthy_season_blocks_payout"
  by code_simp

text \<open>The same at the ends of the severity curve: the first day of a breach, the rainfall at which the
  index is exhausted, no rain at all, and exactly the trigger, which does not breach.\<close>

lemma boundary_seasons_pass:
  "passes (season_pays 1 2 149 142)" "passes (season_pays 1 2 80 10000)"
  "passes (season_pays 1 2 0 10000)" "passes (season_blocked 3 4 150)"
  by code_simp+

lemma season_setup_honest: "list_all honest (season_setup a b v) \<longleftrightarrow> in_i128 v"
  by (auto simp: season_setup_def deploy_world_def register_publishers_def buy_policy_def report_def
      record_from_oracle_def RESERVES_def world_at test_pool_def)

lemma seasons_honest:
  "list_all honest full_rainfall_season_pays_and_claims" "list_all honest healthy_season_blocks_payout"
  by (simp_all add: full_rainfall_season_pays_and_claims_def healthy_season_blocks_payout_def
      season_pays_def season_blocked_def evaluate_to_def
      season_setup_honest in_i128_def)

lemma passes_live:
  assumes "passes test" and "list_all honest test"
  shows "\<exists>y. run_test test deployed = Some y \<and> world_live y"
  using assms run_test_live [OF _ assms(2) deployed_live]
  by (cases "run_test test deployed") (auto simp: passes_def)

text \<open>Both end in states of the protocol machine.\<close>

lemma seasons_live:
  "\<exists>y. run_test full_rainfall_season_pays_and_claims deployed = Some y \<and> world_live y"
  "\<exists>y. run_test healthy_season_blocks_payout deployed = Some y \<and> world_live y"
  using passes_live [OF full_rainfall_season_passes seasons_honest(1)]
    passes_live [OF healthy_season_passes seasons_honest(2)] by blast+

end
