(* ===== verification/Spec2Isabelle.thy ===== *)
theory Spec2Isabelle
  imports I128 RiskPool_Props Oracle_Props Trigger_Props Policy_Props Vault_Props System_Props
    Protocol_Props Lifetime_Props Outcome_Props Golden_Vectors Season_Check
begin

text \<open>
  A verification of the contracts of the Mvua protocol: parametric crop insurance on Soroban.

  \<^bold>\<open>The program.\<close> Five contracts under \<^verbatim>\<open>src/contracts/\<close> and a crate they share.
  \<^verbatim>\<open>risk-pool\<close> holds the capital of a pool in a junior and a senior tranche, opens and settles
  seasons, collects premiums (splitting off capped fees), refunds them to cancelled policies, and
  releases payouts. \<^verbatim>\<open>oracle-adapter\<close> keeps signed weather observations of registered publishers in a
  ring per region and metric, and answers their median, failing safe when it cannot be attested.
  \<^verbatim>\<open>trigger-engine\<close> folds daily values (from the guardian or from the oracle) into an accumulator
  per index window, evaluates it against an index, and finalizes a breach after a challenge period.
  \<^verbatim>\<open>policy\<close> sells certificates against a pool and runs their lifecycle. \<^verbatim>\<open>payout-vault\<close> pays
  batches of policies of a finalized window out of a pool into a claim ledger, which owners collect.
  \<^verbatim>\<open>policy\<close> calls \<^verbatim>\<open>risk-pool\<close>; \<^verbatim>\<open>payout-vault\<close> calls \<^verbatim>\<open>trigger-engine\<close> and
  \<^verbatim>\<open>risk-pool\<close>; \<^verbatim>\<open>trigger-engine\<close> calls \<^verbatim>\<open>oracle-adapter\<close>; all that move value call a token contract.

  \<^bold>\<open>How it is modelled.\<close> A contract's storage is a record with one field per variant of its
  \<^verbatim>\<open>DataKey\<close> (a missing key is \<^term>\<open>None\<close>) and the log of its events. An entry point is a
  function from the environment, the arguments and the store to a result: a value with the new
  store, a typed error, or a trap. A failed invocation carries no store: the host rolls it back.
  Each definition follows the source statement by statement, early returns and checked arithmetic
  included, under the source's name where Isabelle allows it. \<^verbatim>\<open>i128\<close> is \<^typ>\<open>int\<close> with its range checked
  at every operation; \<^verbatim>\<open>u32\<close> and \<^verbatim>\<open>u64\<close> are words, whose plain additions panic on overflow as the release
  profile (\<^verbatim>\<open>overflow-checks = true\<close>) makes them. Rust's truncating division is \<open>sdiv\<close>.

  \<^bold>\<open>The theories.\<close>
  \<^item> Prelude: integers and checked arithmetic, results, sums over finite types, the locale
    \<open>state_machine\<close>. I128: the reading of \<^verbatim>\<open>i128\<close> as \<^typ>\<open>int\<close> agrees with 128-bit words.
    Host: addresses, authorization, the token interface. Common and Lifetime: \<^verbatim>\<open>common/src/lib.rs\<close>,
    its constants and basis points, and its storage lifetime helpers.
  \<^item> RiskPool is \<^verbatim>\<open>risk-pool/src/lib.rs\<close>; RiskPool_Store says what the success of each operation means,
    RiskPool_Inv states the invariant, RiskPool_Keep shows that every operation keeps it, RiskPool_Run
    has the step relation, what only moves forward, and custody.
  \<^item> OracleAdapter is \<^verbatim>\<open>oracle-adapter/src/lib.rs\<close>; Oracle_Median refines the scan and the in-place sort to
    the median of a list, Oracle_Run has the steps and the invariant, Oracle_Ring refines the ring
    buffer to the history of submissions and treats the registry timelock, Oracle_Gates says what
    stands behind a returned median, Oracle_Log has the runs with the log of the submissions they accepted
    and says when the median answers.
  \<^item> TriggerEngine is \<^verbatim>\<open>trigger-engine/src/lib.rs\<close>; Trigger_Eval refines both index formulas to one severity
    curve, Trigger_Series relates the accumulator to the series of days, Trigger_Run and
    Trigger_Forward have the steps, the invariant and the lifecycle of windows, Trigger_Log the runs with the
    log of what they recorded, Trigger_Earned says what a finalized window pays and why, Trigger_Outcome
    which of the tests in \<^verbatim>\<open>evaluate\<close> and \<^verbatim>\<open>finalize\<close> can fail.
  \<^item> PolicyContract is \<^verbatim>\<open>policy/src/lib.rs\<close>; Policy_Run has the steps, the invariant and the lifecycle of
    certificates, Policy_Batch the loop of a cooperative purchase, Policy_Ledger the interface to the pool.
  \<^item> VaultContract is \<^verbatim>\<open>payout-vault/src/lib.rs\<close>; Vault_Run has the steps and the books of the claim ledger,
    Vault_Spec the specification of a batch (\<open>due\<close>), Vault_Ledger the interface to its providers.
  \<^item> System and System_Vault wire the contracts to each other, two at a time.
  \<^item> Protocol is the whole protocol as one machine: the five stores, the token ledger and the clock,
    deployed as \<^verbatim>\<open>scripts/testnet/deploy.sh\<close> does; a step is one transaction on one entry point, with the
    calls it makes into the other contracts, or anything others do that debits no contract. Protocol_Pool
    says what a transaction of the pool means to the others, Protocol_Views and Protocol_Run show that
    each step, seen by one contract, is a run of that contract's own step relation. Protocol_Live has the
    states a deployed protocol reaches, Protocol_Books the books that span contracts (payouts booked
    against records and claims, records against finalized windows, balances), and Protocol_Payable shows
    that these books leave room for every sum the payout of a batch forms.
  \<^item> Test_Utils is \<^verbatim>\<open>test-utils/src/lib.rs\<close>. Season_Test is the end to end test
    \<^verbatim>\<open>integration-tests/tests/full_season.rs\<close>: its fixtures, helpers and two tests as scripts over the protocol,
    one step per statement and assertion, run by \<open>run_test\<close>; the two tests are instances of scripts for any
    rainfall. Season_Run shows that a script that does not
    rewire the pool is a run of the protocol machine, Season_Check that the tests pass. Golden_Vectors checks the models of both index
    formulas on the vectors of \<^verbatim>\<open>docs/INDEX-SPEC.md\<close>.
  \<^item> Demo_Parties and the theories ending in Demo run the contracts on concrete inputs; those ending in
    Props hold the properties, each with a witness on such a run.

  \<^bold>\<open>Interfaces.\<close> Four locales. \<open>state_machine\<close> is interpreted on every contract and on the
  protocol. \<open>median_source\<close> (what the trigger engine relies on of the oracle), \<open>premium_ledger\<close> (what the policy contract relies on of the
  pool) and \<open>payout_source\<close> (what the vault relies on of the pool and the token) are interpreted on the
  models of the providers: \<open>feed\<close>, \<open>ledger\<close>, and \<open>purse\<close> and \<open>booked\<close>.

  \<^bold>\<open>What is assumed.\<close> The token contract is a parameter; where a theorem needs its behaviour, the
  hypothesis \<open>sac_transfer\<close> states what the Stellar Asset Contract documents: a transfer debits the
  sender, credits the recipient, and touches nothing else. Signature verification and the encoding of
  the signed payload are parameters, unconstrained. What other parties do between two invocations is a
  relation \<open>ext\<close>, constrained only where a theorem says so. An environment is offered by the host with the
  contract's own address and without that contract's own signature (\<open>host_env\<close>). On the whole protocol
  these assumptions are discharged: what a contract relies on of the others is proved of them. What
  remains there is that transactions come from outside (\<open>outside\<close>), that others cannot debit a contract
  (\<open>foreign\<close>), and that the guardian makes none of the three calls that would point the pool to another
  policy contract or vault or open a pool in another asset than the vault's (\<open>keeps_wiring\<close>), which the
  contracts do not check; that no other call changes the wiring (\<open>wired\<close>) is proved. What the host does to the lifetime of an entry is a
  parameter with its documented behaviour as the hypothesis \<open>documented_ttl\<close>.

  \<^bold>\<open>What the properties show.\<close> Pool: custody, tranche accounting, fair deposits and withdrawals, the
  settlement waterfall, fee caps, premium rounding, refunds, isolation of pools, the lifecycle of
  seasons, and the outcome of every deposit and withdrawal, errors included and in their order. Oracle: the median is the median of what counts, attested by two publishers, and a minority
  cannot move it; the ring is the recent history; the registry is timelocked. Engine: the severity
  curve, the accumulator against the log of recorded days, the lifecycle of windows, the outcome of every
  evaluation and finalization; finalizations are earned. Policy: purchases,
  batches, lifecycle, cancellation once. Vault: balanced books, final payouts, exact and repeatable
  batches. System: a cancellation goes through exactly when it should, only attested weather is ingested.
  Protocol: it is solvent towards capital, claims and refunds at once, payouts are conserved between
  pool and vault, every payout was made by a batch for a finalized window, what such a window owes goes
  through and claims are always paid, and every contract behaves inside the protocol as it does alone.
  Lifetimes: what is written stays readable for 89 days, and a contract in use never expires.

  \<^bold>\<open>Loops.\<close> The insertion sort and the scan of the ring are \<open>function\<close>s with termination
  measures; the loops over a batch are structural. No fuel is used.

  \<^bold>\<open>Not modelled.\<close> The models of the contracts do not thread storage lifetimes: they assume that an
  archived entry is restored before it is used; Lifetime says for how long that is not needed. The encoding of
  events and of contract types, generated by the SDK's macros, and the resource limits of the host are
  not modelled; the events themselves are. Of the tests, the SDK's test host and the key pairs are not
  modelled: a script runs under an environment in which every account authorizes, addresses are fixed, and the
  signature a key makes is the one the verification parameter accepts. The unit tests of the contracts
  are not modelled; the theorems on the contracts hold for all inputs.
\<close>

end
